theory Spec2Isabelle
  imports Main
begin

section \<open>Error taxonomy\<close>

text \<open>
  The enum \<^verbatim>\<open>ErrorCode\<close> of the protocol constants and the numeric value
  TypeScript assigns to each member.
\<close>

datatype ErrorCode =
    ParseError | InvalidRequest | MethodNotFound | InvalidParams | InternalError
  | ServerError
  | SessionNotFound | SessionAlreadyExists | SessionExpired | NotInitialized
  | AlreadyInitialized | Unauthorized | ToolNotFound | ApprovalDenied
  | UserInputTimeout | GenUIActionFailed

fun ErrorCode_value :: "ErrorCode \<Rightarrow> int" where
  "ErrorCode_value ParseError = -32700"
| "ErrorCode_value InvalidRequest = -32600"
| "ErrorCode_value MethodNotFound = -32601"
| "ErrorCode_value InvalidParams = -32602"
| "ErrorCode_value InternalError = -32603"
| "ErrorCode_value ServerError = -32000"
| "ErrorCode_value SessionNotFound = -32001"
| "ErrorCode_value SessionAlreadyExists = -32002"
| "ErrorCode_value SessionExpired = -32003"
| "ErrorCode_value NotInitialized = -32004"
| "ErrorCode_value AlreadyInitialized = -32005"
| "ErrorCode_value Unauthorized = -32006"
| "ErrorCode_value ToolNotFound = -32007"
| "ErrorCode_value ApprovalDenied = -32008"
| "ErrorCode_value UserInputTimeout = -32009"
| "ErrorCode_value GenUIActionFailed = -32010"

text \<open>The constants of the error class hierarchy.\<close>

definition JSONRPC_INVALID_PARAMS :: int where "JSONRPC_INVALID_PARAMS = -32602"
definition JSONRPC_INTERNAL_ERROR :: int where "JSONRPC_INTERNAL_ERROR = -32603"
definition JSONRPC_METHOD_NOT_FOUND :: int where "JSONRPC_METHOD_NOT_FOUND = -32601"
definition ACP_AUTH_REQUIRED :: int where "ACP_AUTH_REQUIRED = -32001"

text \<open>
  \<^verbatim>\<open>ACPError\<close>: name, numeric code, message and the optional \<^verbatim>\<open>data\<close> object (a list of
  key/value pairs; \<open>'u\<close> stands for TypeScript's \<^verbatim>\<open>unknown\<close>).
  \<^verbatim>\<open>AuthRequiredError\<close> extends it with \<^verbatim>\<open>authMethods\<close>; an argument left out
  (\<open>None\<close>) takes the constructor's default.
\<close>

record 'u ACPError =
  name :: string
  code :: int
  message :: string
  data :: "(string \<times> 'u list) list option"

record 'u AuthRequiredError = "'u ACPError" +
  authMethods :: "'u list"

definition AuthRequiredError :: "string option \<Rightarrow> 'u list option \<Rightarrow> 'u AuthRequiredError" where
  "AuthRequiredError msg methods =
     (let m = (case msg of None \<Rightarrow> ''Authentication required'' | Some t \<Rightarrow> t);
          a = (case methods of None \<Rightarrow> [] | Some l \<Rightarrow> l)
      in \<lparr> name = ''AuthRequiredError'', code = ACP_AUTH_REQUIRED, message = m,
           data = Some [(''authMethods'', a)], authMethods = a \<rparr>)"

section \<open>Prompt translation\<close>

text \<open>
  The content blocks of a prompt. A \<^verbatim>\<open>resource\<close> block carries an untyped object: the
  code only asks whether each of its four fields is a string, so a field is \<open>Some s\<close> when
  it is the string \<open>s\<close> and \<open>None\<close> otherwise. A text block carries its text, a resource
  link its uri, an image and an audio block the mime type and the base64 data.
  \<open>Other\<close> is a block of any kind the switch does not name.
\<close>

record EmbeddedResource =
  res_uri :: "string option"
  res_text :: "string option"
  res_blob :: "string option"
  res_mimeType :: "string option"

datatype ContentBlock =
    Text string
  | ResourceLink string
  | Image string string
  | Resource EmbeddedResource
  | Audio string string
  | Other string

record PiImage =
  mimeType :: string
  data :: string

text \<open>
  A number inside a template literal is written in decimal; the byte counts below are
  non-negative integers.
\<close>

fun decimal :: "nat \<Rightarrow> string" where
  "decimal n =
     (if n < 10 then [''0123456789'' ! n]
      else decimal (n div 10) @ [''0123456789'' ! (n mod 10)])"

declare decimal.simps [simp del]

text \<open>
  The markers of a \<^verbatim>\<open>resource\<close> and of an \<^verbatim>\<open>audio\<close> block. \<open>byteLength\<close> is Node's
  \<^verbatim>\<open>Buffer.byteLength(_, 'base64')\<close>, a function of the runtime taken as a parameter.
\<close>

definition resource_marker :: "(string \<Rightarrow> nat) \<Rightarrow> EmbeddedResource \<Rightarrow> string" where
  "resource_marker byteLength r =
     (let uri = (case res_uri r of Some u \<Rightarrow> u | None \<Rightarrow> ''(unknown)'') in
      case res_text r of
        Some t \<Rightarrow>
          (let mime = (case res_mimeType r of Some m \<Rightarrow> m | None \<Rightarrow> ''text/plain'')
           in [CHR 0x0A] @ ''[Embedded Context] '' @ uri @ '' ('' @ mime @ '')'' @ [CHR 0x0A] @ t)
      | None \<Rightarrow>
          (case res_blob r of
             Some b \<Rightarrow>
               (let mime = (case res_mimeType r of Some m \<Rightarrow> m
                            | None \<Rightarrow> ''application/octet-stream'');
                    bytes = byteLength b
                in [CHR 0x0A] @ ''[Embedded Context] '' @ uri @ '' ('' @ mime @ '', ''
                     @ decimal bytes @ '' bytes)'')
           | None \<Rightarrow> [CHR 0x0A] @ ''[Embedded Context] '' @ uri))"

definition audio_marker :: "(string \<Rightarrow> nat) \<Rightarrow> string \<Rightarrow> string \<Rightarrow> string" where
  "audio_marker byteLength mime d =
     [CHR 0x0A] @ ''[Audio] ('' @ mime @ '', '' @ decimal (byteLength d)
       @ '' bytes) not supported by pi-acp''"

text \<open>
  One turn of the loop of \<^verbatim>\<open>promptToPiMessage\<close> on the two accumulators \<^verbatim>\<open>message\<close> and
  \<^verbatim>\<open>images\<close> (here \<open>msg\<close> and \<open>imgs\<close>), and the loop itself from the empty message and the empty image list.
\<close>

fun prompt_step :: "(string \<Rightarrow> nat) \<Rightarrow> ContentBlock \<Rightarrow> string \<times> PiImage list \<Rightarrow> string \<times> PiImage list" where
  "prompt_step byteLength (Text t) (msg, imgs) = (msg @ t, imgs)"
| "prompt_step byteLength (ResourceLink u) (msg, imgs) =
     (msg @ [CHR 0x0A] @ ''[Context] '' @ u, imgs)"
| "prompt_step byteLength (Image mime d) (msg, imgs) =
     (msg, imgs @ [\<lparr> PiImage.mimeType = mime, PiImage.data = d \<rparr>])"
| "prompt_step byteLength (Resource r) (msg, imgs) =
     (msg @ resource_marker byteLength r, imgs)"
| "prompt_step byteLength (Audio mime d) (msg, imgs) =
     (msg @ audio_marker byteLength mime d, imgs)"
| "prompt_step byteLength (Other k) (msg, imgs) = (msg, imgs)"

definition promptToPiMessage :: "(string \<Rightarrow> nat) \<Rightarrow> ContentBlock list \<Rightarrow> string \<times> PiImage list" where
  "promptToPiMessage byteLength blocks = fold (prompt_step byteLength) blocks ([], [])"

text \<open>
  What the specification says each kind of block adds to the message text, and which
  blocks it puts into the image list.
\<close>

fun block_text :: "(string \<Rightarrow> nat) \<Rightarrow> ContentBlock \<Rightarrow> string" where
  "block_text byteLength (Text t) = t"
| "block_text byteLength (ResourceLink u) = [CHR 0x0A] @ ''[Context] '' @ u"
| "block_text byteLength (Image mime d) = []"
| "block_text byteLength (Resource r) = resource_marker byteLength r"
| "block_text byteLength (Audio mime d) = audio_marker byteLength mime d"
| "block_text byteLength (Other k) = []"

fun block_image :: "ContentBlock \<Rightarrow> PiImage option" where
  "block_image (Image mime d) = Some \<lparr> PiImage.mimeType = mime, PiImage.data = d \<rparr>"
| "block_image b = None"


section \<open>JavaScript values and the runtime\<close>

text \<open>
  A JavaScript string is the list of its UTF-16 code units. \<open>js\<close> is the string whose
  code units are the codes of the characters of a literal, which is how the string
  literals of the source (all of them ASCII) are written here. (The prompt translation
  above only joins strings, and keeps them as lists of characters.)
\<close>

type_synonym jstring = "nat list"

definition js :: "string \<Rightarrow> jstring" where
  "js t = map of_char t"

text \<open>
  The values \<^verbatim>\<open>JSON.parse\<close> returns. An object is the list of its keys with their values.
  The code below never inspects a number, so the numbers are integers here.
\<close>

datatype json =
    JNull
  | JBool bool
  | JNum int
  | JStr jstring
  | JArr "json list"
  | JObj "(jstring \<times> json) list"

text \<open>
  Property access \<^verbatim>\<open>v?.k\<close> for the keys the code reads (\<^verbatim>\<open>type\<close>, \<^verbatim>\<open>id\<close>, \<^verbatim>\<open>cwd\<close>,
  \<^verbatim>\<open>name\<close>, \<^verbatim>\<open>timestamp\<close>, \<^verbatim>\<open>message\<close>, \<^verbatim>\<open>role\<close>, \<^verbatim>\<open>content\<close>, \<^verbatim>\<open>text\<close>): \<open>None\<close> is
  \<^verbatim>\<open>undefined\<close>. Only an object has any of these keys.
\<close>

fun get_prop :: "json \<Rightarrow> jstring \<Rightarrow> json option" where
  "get_prop (JObj kvs) k = map_of kvs k"
| "get_prop v k = None"

fun get_prop_opt :: "json option \<Rightarrow> jstring \<Rightarrow> json option" where
  "get_prop_opt None k = None"
| "get_prop_opt (Some v) k = get_prop v k"

text \<open>\<^verbatim>\<open>typeof v === 'string' ? v : null\<close>\<close>

fun as_string :: "json option \<Rightarrow> jstring option" where
  "as_string (Some (JStr t)) = Some t"
| "as_string v = None"

text \<open>Truthiness of a JSON value, and of a \<^verbatim>\<open>string | null\<close>.\<close>

fun js_truthy :: "json \<Rightarrow> bool" where
  "js_truthy JNull = False"
| "js_truthy (JBool b) = b"
| "js_truthy (JNum n) = (n \<noteq> 0)"
| "js_truthy (JStr t) = (t \<noteq> [])"
| "js_truthy (JArr vs) = True"
| "js_truthy (JObj kvs) = True"

fun truthy :: "jstring option \<Rightarrow> bool" where
  "truthy None = False"
| "truthy (Some t) = (t \<noteq> [])"

text \<open>
  The functions of the JavaScript runtime the code calls, taken as parameters:
  \<^verbatim>\<open>JSON.parse\<close> (\<open>None\<close> when it throws), the time value of \<^verbatim>\<open>new Date(ts)\<close> in
  milliseconds (\<open>None\<close> when it is not finite), \<^verbatim>\<open>Date.prototype.toISOString\<close>,
  \<^verbatim>\<open>String.prototype.localeCompare\<close>, and \<^verbatim>\<open>Buffer.prototype.toString('utf8')\<close>, which
  decodes the bytes of a buffer (a byte is a \<open>char\<close>) into a string.
\<close>

record runtime =
  JSON_parse :: "jstring \<Rightarrow> json option"
  Date_parse :: "jstring \<Rightarrow> int option"
  toISOString :: "int \<Rightarrow> jstring"
  localeCompare :: "jstring \<Rightarrow> jstring \<Rightarrow> int"
  utf8_decode :: "string \<Rightarrow> jstring"

subsection \<open>Strings\<close>

text \<open>
  \<^verbatim>\<open>String.prototype.trim\<close> removes white space and line terminators at both ends:
  \<open>is_ws\<close> holds of the code units of \<^verbatim>\<open>WhiteSpace\<close> (tab, vertical tab, form feed,
  U+FEFF and the space separators U+0020, U+00A0, U+1680, U+2000 to U+200A, U+202F,
  U+205F, U+3000) and of \<^verbatim>\<open>LineTerminator\<close> (line feed, carriage return, U+2028, U+2029).
  \<^verbatim>\<open>split(/\r?\n/)\<close> cuts at every line feed (\<open>split_LF\<close>) and drops a carriage return
  right before the line feed; the text after the last line feed is the last piece, as it is.
\<close>

definition LF :: nat where "LF = 0x0A"
definition CR :: nat where "CR = 0x0D"

definition is_ws :: "nat \<Rightarrow> bool" where
  "is_ws c = (c = 0x09 \<or> c = 0x0A \<or> c = 0x0B \<or> c = 0x0C \<or> c = 0x0D \<or> c = 0x20
     \<or> c = 0xA0 \<or> c = 0x1680 \<or> (0x2000 \<le> c \<and> c \<le> 0x200A) \<or> c = 0x2028
     \<or> c = 0x2029 \<or> c = 0x202F \<or> c = 0x205F \<or> c = 0x3000 \<or> c = 0xFEFF)"

definition trim :: "jstring \<Rightarrow> jstring" where
  "trim t = rev (dropWhile is_ws (rev (dropWhile is_ws t)))"

fun split_LF :: "jstring \<Rightarrow> jstring list" where
  "split_LF [] = [[]]"
| "split_LF (c # cs) =
     (if c = LF then [] # split_LF cs
      else (case split_LF cs of [] \<Rightarrow> [[c]] | l # ls \<Rightarrow> (c # l) # ls))"

definition strip_CR :: "jstring \<Rightarrow> jstring" where
  "strip_CR l = (if l \<noteq> [] \<and> last l = CR then butlast l else l)"

definition split_lines :: "jstring \<Rightarrow> jstring list" where
  "split_lines t = (let parts = split_LF t in map strip_CR (butlast parts) @ [last parts])"

fun indexOf :: "jstring \<Rightarrow> nat \<Rightarrow> nat option" where
  "indexOf [] c = None"
| "indexOf (x # xs) c =
     (if x = c then Some 0 else (case indexOf xs c of None \<Rightarrow> None | Some i \<Rightarrow> Some (Suc i)))"

section \<open>Session directory\<close>

record PiSessionListItem =
  sessionId :: jstring
  cwd :: jstring
  title :: "jstring option"
  updatedAt :: "jstring option"
  sessionFile :: string

text \<open>
  A session log on disk: its path, its bytes and its modification time (milliseconds).
  The file system calls are taken to succeed. Every read of the code decodes the bytes it
  has read, and only those, with \<open>utf8_decode\<close>.
\<close>

record session_file =
  file_path :: string
  file_bytes :: string
  file_mtime :: int

definition DEFAULT_TAIL_BYTES :: nat where "DEFAULT_TAIL_BYTES = 256 * 1024"
definition DEFAULT_HEAD_BYTES :: nat where "DEFAULT_HEAD_BYTES = 64 * 1024"

definition readFirstLine :: "runtime \<Rightarrow> session_file \<Rightarrow> jstring option" where
  "readFirstLine rt f =
     (let n = min DEFAULT_HEAD_BYTES (length (file_bytes f)) in
      if n \<le> 0 then None
      else (let s = utf8_decode rt (take n (file_bytes f)) in
            case indexOf s LF of
              None \<Rightarrow> Some (trim s)
            | Some idx \<Rightarrow> Some (trim (take idx s))))"

definition readTail :: "runtime \<Rightarrow> nat \<Rightarrow> session_file \<Rightarrow> jstring" where
  "readTail rt tailBytes f =
     (let sz = length (file_bytes f);
          start = sz - tailBytes;
          len = sz - start
      in utf8_decode rt (take len (drop start (file_bytes f))))"

definition parseSessionHeader :: "runtime \<Rightarrow> jstring \<Rightarrow> (jstring \<times> jstring) option" where
  "parseSessionHeader rt firstLine =
     (case JSON_parse rt firstLine of
        None \<Rightarrow> None
      | Some obj \<Rightarrow>
          if get_prop obj (js ''type'') \<noteq> Some (JStr (js ''session'')) then None
          else (let sessionId = as_string (get_prop obj (js ''id''));
                    cwd = as_string (get_prop obj (js ''cwd''))
                in if \<not> truthy sessionId \<or> \<not> truthy cwd then None
                   else Some (the sessionId, the cwd)))"

text \<open>
  The test \<^verbatim>\<open>obj?.type === 'session_info' && typeof obj?.name === 'string' && obj.name.trim()\<close>
  together with the value \<^verbatim>\<open>obj.name.trim()\<close> taken when it holds.
\<close>

definition session_info_name :: "json \<Rightarrow> jstring option" where
  "session_info_name obj =
     (if get_prop obj (js ''type'') = Some (JStr (js ''session_info'')) then
        (case as_string (get_prop obj (js ''name'')) of
           Some n \<Rightarrow> if trim n \<noteq> [] then Some (trim n) else None
         | None \<Rightarrow> None)
      else None)"

text \<open>The backward loop of \<^verbatim>\<open>pickTitleFromTail\<close>, on the lines from the last to the first.\<close>

fun title_scan :: "runtime \<Rightarrow> jstring list \<Rightarrow> jstring option" where
  "title_scan rt [] = None"
| "title_scan rt (l # ls) =
     (let line = trim l in
      if line = [] then title_scan rt ls
      else (case JSON_parse rt line of
              None \<Rightarrow> title_scan rt ls
            | Some obj \<Rightarrow>
                (case session_info_name obj of
                   Some n \<Rightarrow> Some n
                 | None \<Rightarrow> title_scan rt ls)))"

definition pickTitleFromTail :: "runtime \<Rightarrow> jstring \<Rightarrow> jstring option" where
  "pickTitleFromTail rt tail = title_scan rt (rev (split_lines tail))"


text \<open>
  \<^verbatim>\<open>scanSessionInfoNameFromFile\<close>: the body of the inner loop on one line, the outer loop
  reading the file in chunks of 256KB, each chunk decoded by itself, with the unfinished
  last line carried over in \<^verbatim>\<open>leftover\<close>, and the look at what is left over after the last
  chunk.
\<close>

definition SCAN_BUF :: nat where "SCAN_BUF = 256 * 1024"

definition scan_line :: "runtime \<Rightarrow> jstring \<Rightarrow> jstring option \<Rightarrow> jstring option" where
  "scan_line rt line0 lastName =
     (let line = trim line0 in
      if line = [] then lastName
      else (case JSON_parse rt line of
              None \<Rightarrow> lastName
            | Some obj \<Rightarrow>
                (case session_info_name obj of
                   Some n \<Rightarrow> Some n
                 | None \<Rightarrow> lastName)))"

function scan_chunks :: "runtime \<Rightarrow> string \<Rightarrow> nat \<Rightarrow> jstring \<Rightarrow> jstring option \<Rightarrow> jstring \<times> jstring option" where
  "scan_chunks rt bytes offset leftover lastName =
     (if min SCAN_BUF (length bytes - offset) \<le> 0 then (leftover, lastName)
      else (let n = min SCAN_BUF (length bytes - offset);
                chunk = leftover @ utf8_decode rt (take n (drop offset bytes));
                lines = split_lines chunk
            in scan_chunks rt bytes (offset + n) (last lines)
                 (fold (scan_line rt) (butlast lines) lastName)))"
  by pat_completeness auto
termination
  by (relation "measure (\<lambda>(rt, bytes, offset, leftover, lastName). length bytes - offset)")
     (auto simp: SCAN_BUF_def)

declare scan_chunks.simps [simp del]

definition scanSessionInfoNameFromFile :: "runtime \<Rightarrow> session_file \<Rightarrow> jstring option" where
  "scanSessionInfoNameFromFile rt f =
     (case scan_chunks rt (file_bytes f) 0 [] None of
        (leftover, lastName) \<Rightarrow> scan_line rt leftover lastName)"

text \<open>
  \<^verbatim>\<open>pickUpdatedAtFromTail\<close>: the two backward loops, on the lines from the last to the
  first. The first returns at a \<^verbatim>\<open>message\<close> record whose \<^verbatim>\<open>timestamp\<close> is a non-empty string
  that \<^verbatim>\<open>Date\<close> reads; the second at any record with such a timestamp.
\<close>

fun updated_scan_message :: "runtime \<Rightarrow> jstring list \<Rightarrow> jstring option" where
  "updated_scan_message rt [] = None"
| "updated_scan_message rt (l # ls) =
     (let line = trim l in
      if line = [] then updated_scan_message rt ls
      else (case JSON_parse rt line of
              None \<Rightarrow> updated_scan_message rt ls
            | Some obj \<Rightarrow>
                if get_prop obj (js ''type'') \<noteq> Some (JStr (js ''message''))
                then updated_scan_message rt ls
                else (let ts = as_string (get_prop obj (js ''timestamp'')) in
                      if \<not> truthy ts then updated_scan_message rt ls
                      else (case Date_parse rt (the ts) of
                              Some d \<Rightarrow> Some (toISOString rt d)
                            | None \<Rightarrow> updated_scan_message rt ls))))"

fun updated_scan_any :: "runtime \<Rightarrow> jstring list \<Rightarrow> jstring option" where
  "updated_scan_any rt [] = None"
| "updated_scan_any rt (l # ls) =
     (let line = trim l in
      if line = [] then updated_scan_any rt ls
      else (case JSON_parse rt line of
              None \<Rightarrow> updated_scan_any rt ls
            | Some obj \<Rightarrow>
                (let ts = as_string (get_prop obj (js ''timestamp'')) in
                 if \<not> truthy ts then updated_scan_any rt ls
                 else (case Date_parse rt (the ts) of
                         Some d \<Rightarrow> Some (toISOString rt d)
                       | None \<Rightarrow> updated_scan_any rt ls))))"

definition pickUpdatedAtFromTail :: "runtime \<Rightarrow> jstring \<Rightarrow> jstring option" where
  "pickUpdatedAtFromTail rt tail =
     (let lines = split_lines tail in
      case updated_scan_message rt (rev lines) of
        Some r \<Rightarrow> Some r
      | None \<Rightarrow> updated_scan_any rt (rev lines))"

text \<open>
  \<^verbatim>\<open>pickFallbackTitleFromHead\<close>. \<open>user_message_title\<close> is the body of the inner
  \<^verbatim>\<open>try\<close>: the value returned at a user message, \<open>None\<close> when the line falls through
  (or \<^verbatim>\<open>JSON.parse\<close> throws). \<open>head_scan\<close> is the loop over the lines; \<open>nlines\<close> is
  \<^verbatim>\<open>lines.length\<close>, which the test at the end of the loop body reads.
\<close>

definition is_text_block :: "json \<Rightarrow> bool" where
  "is_text_block c =
     (get_prop c (js ''type'') = Some (JStr (js ''text''))
      \<and> as_string (get_prop c (js ''text'')) \<noteq> None)"

definition user_message_title :: "runtime \<Rightarrow> jstring \<Rightarrow> jstring option" where
  "user_message_title rt line =
     (case JSON_parse rt line of
        None \<Rightarrow> None
      | Some obj \<Rightarrow>
          if get_prop obj (js ''type'') = Some (JStr (js ''message''))
             \<and> get_prop_opt (get_prop obj (js ''message'')) (js ''role'') = Some (JStr (js ''user''))
          then (case get_prop_opt (get_prop obj (js ''message'')) (js ''content'') of
                  Some (JStr content) \<Rightarrow> Some (take 80 content)
                | Some (JArr content) \<Rightarrow>
                    (case find is_text_block content of
                       None \<Rightarrow> None
                     | Some t \<Rightarrow>
                         (case as_string (get_prop t (js ''text'')) of
                            Some x \<Rightarrow> if x \<noteq> [] then Some (take 80 x) else None
                          | None \<Rightarrow> None))
                | _ \<Rightarrow> None)
          else None)"

fun head_scan :: "runtime \<Rightarrow> nat \<Rightarrow> jstring list \<Rightarrow> jstring option" where
  "head_scan rt nlines [] = None"
| "head_scan rt nlines (line0 # rest) =
     (let line = trim line0 in
      if line = [] then head_scan rt nlines rest
      else (case user_message_title rt line of
              Some t \<Rightarrow> Some t
            | None \<Rightarrow> if nlines > 2000 then None else head_scan rt nlines rest))"

definition pickFallbackTitleFromHead :: "runtime \<Rightarrow> session_file \<Rightarrow> jstring option" where
  "pickFallbackTitleFromHead rt f =
     (let raw = utf8_decode rt (file_bytes f); lines = split_lines raw
      in head_scan rt (length lines) lines)"

text \<open>
  \<^verbatim>\<open>listPiSessions\<close>. \<open>sessionItem\<close> is the body of the loop over the files: \<open>None\<close>
  where the code says \<^verbatim>\<open>continue\<close>, the item it pushes otherwise. The files are those
  the directory walk found, in its order.
\<close>

definition sessionItem :: "runtime \<Rightarrow> session_file \<Rightarrow> PiSessionListItem option" where
  "sessionItem rt f =
     (let first = readFirstLine rt f in
      if \<not> truthy first then None
      else (case parseSessionHeader rt (the first) of
              None \<Rightarrow> None
            | Some (sid, dir) \<Rightarrow>
                (let tail = readTail rt DEFAULT_TAIL_BYTES f;
                     title0 = pickTitleFromTail rt tail;
                     updated0 = pickUpdatedAtFromTail rt tail;
                     title1 = (if \<not> truthy title0 then scanSessionInfoNameFromFile rt f else title0);
                     updated1 = (if \<not> truthy updated0 then Some (toISOString rt (file_mtime f))
                                 else updated0);
                     title2 = (if \<not> truthy title1 then pickFallbackTitleFromHead rt f else title1)
                 in Some \<lparr> sessionId = sid, cwd = dir, title = title2, updatedAt = updated1,
                           sessionFile = file_path f \<rparr>)))"

fun collect_items :: "runtime \<Rightarrow> session_file list \<Rightarrow> PiSessionListItem list \<Rightarrow> PiSessionListItem list" where
  "collect_items rt [] items = items"
| "collect_items rt (f # fs) items =
     (case sessionItem rt f of
        None \<Rightarrow> collect_items rt fs items
      | Some it \<Rightarrow> collect_items rt fs (items @ [it]))"

text \<open>
  The comparator handed to \<^verbatim>\<open>sort\<close>, and the sort itself as a stable insertion sort:
  \<^verbatim>\<open>Array.prototype.sort\<close> is stable, and puts \<open>a\<close> before \<open>b\<close> when the comparator is
  not positive.
\<close>

definition by_updatedAt :: "runtime \<Rightarrow> PiSessionListItem \<Rightarrow> PiSessionListItem \<Rightarrow> int" where
  "by_updatedAt rt a b =
     (let aa = (case updatedAt a of None \<Rightarrow> [] | Some t \<Rightarrow> t);
          bb = (case updatedAt b of None \<Rightarrow> [] | Some t \<Rightarrow> t)
      in localeCompare rt bb aa)"

fun insert_by :: "('a \<Rightarrow> 'a \<Rightarrow> int) \<Rightarrow> 'a \<Rightarrow> 'a list \<Rightarrow> 'a list" where
  "insert_by cmp x [] = [x]"
| "insert_by cmp x (y # ys) = (if cmp x y \<le> 0 then x # y # ys else y # insert_by cmp x ys)"

definition sort_by :: "('a \<Rightarrow> 'a \<Rightarrow> int) \<Rightarrow> 'a list \<Rightarrow> 'a list" where
  "sort_by cmp xs = foldr (insert_by cmp) xs []"

definition listPiSessions :: "runtime \<Rightarrow> session_file list \<Rightarrow> PiSessionListItem list" where
  "listPiSessions rt files = sort_by (by_updatedAt rt) (collect_items rt files [])"


section \<open>Transport manager\<close>

text \<open>
  A socket and a timeout handle are identified by a number. \<open>ConnectionMeta\<close> is the
  interface of that name; times are milliseconds.
\<close>

type_synonym ws = nat
type_synonym timer = nat

record ConnectionMeta =
  conn_id :: string
  connectedAt :: int
  lastActivity :: int
  messageCount :: int
  messageWindowStart :: int
  pingTimeout :: "timer option"
  isAlive :: bool

definition MAX_CONNECTIONS :: nat where "MAX_CONNECTIONS = 10"
definition IDLE_TIMEOUT_MS :: int where "IDLE_TIMEOUT_MS = 5 * 60 * 1000"
definition PING_INTERVAL_MS :: int where "PING_INTERVAL_MS = 30000"
definition PONG_TIMEOUT_MS :: int where "PONG_TIMEOUT_MS = 10000"
definition RATE_LIMIT_MESSAGES :: int where "RATE_LIMIT_MESSAGES = 100"
definition RATE_LIMIT_WINDOW_MS :: int where "RATE_LIMIT_WINDOW_MS = 60000"

text \<open>
  What the server does to a socket (\<^verbatim>\<open>ws.close(code, reason)\<close>, \<^verbatim>\<open>ws.ping()\<close>), and the
  controller of the readable stream of a connection: the messages enqueued for the
  bridge and whether the stream was closed. \<^verbatim>\<open>close\<close> and \<^verbatim>\<open>enqueue\<close> on a closed
  controller throw a \<^verbatim>\<open>TypeError\<close>.
\<close>

datatype sock_event = SockClose ws int string | SockPing ws

record stream_controller =
  queue :: "json list"
  closed :: bool

datatype js_error = TypeError

text \<open>
  The state of the module. \<open>connections\<close> is the key list of the \<^verbatim>\<open>Map\<close> of that name,
  in insertion order; the value it holds for a socket is the meta object that
  \<^verbatim>\<open>onConnection\<close> created for this socket, which the handlers of the socket also hold
  and keep after the socket has left the map. \<open>metas\<close> is the store of these objects.
  \<open>timers\<close> are the timeouts that are armed; \<open>sock_log\<close> is what was done to the
  sockets, oldest first.
\<close>

record server =
  connections :: "ws list"
  metas :: "ws \<Rightarrow> ConnectionMeta"
  controllers :: "ws \<Rightarrow> stream_controller"
  timers :: "timer set"
  next_timer :: timer
  sock_log :: "sock_event list"
  pingInterval :: bool
  idleCheckInterval :: bool

definition connections_get :: "server \<Rightarrow> ws \<Rightarrow> ConnectionMeta option" where
  "connections_get s w = (if w \<in> set (connections s) then Some (metas s w) else None)"

definition clear_ping_timeout :: "ConnectionMeta option \<Rightarrow> server \<Rightarrow> server" where
  "clear_ping_timeout m s =
     (case m of
        None \<Rightarrow> s
      | Some meta \<Rightarrow>
          (case pingTimeout meta of
             None \<Rightarrow> s
           | Some t \<Rightarrow> s\<lparr> timers := timers s - {t} \<rparr>))"

definition closeConnection :: "ws \<Rightarrow> int \<Rightarrow> string \<Rightarrow> server \<Rightarrow> server" where
  "closeConnection w c reason s =
     (let s1 = clear_ping_timeout (connections_get s w) s;
          s2 = s1\<lparr> connections := removeAll w (connections s1) \<rparr>
      in s2\<lparr> sock_log := sock_log s2 @ [SockClose w c reason] \<rparr>)"

definition cleanupConnection :: "ws \<Rightarrow> server \<Rightarrow> server" where
  "cleanupConnection w s =
     (let s1 = clear_ping_timeout (connections_get s w) s
      in s1\<lparr> connections := removeAll w (connections s1) \<rparr>)"

text \<open>\<^verbatim>\<open>isRateLimited\<close> at the clock reading \<open>now\<close>: the result and the meta object after.\<close>

definition isRateLimited :: "int \<Rightarrow> ConnectionMeta \<Rightarrow> bool \<times> ConnectionMeta" where
  "isRateLimited now meta =
     (let windowStart = messageWindowStart meta;
          timeInWindow = now - windowStart
      in if timeInWindow > RATE_LIMIT_WINDOW_MS
         then (False, meta\<lparr> messageWindowStart := now, messageCount := 1 \<rparr>)
         else (let meta1 = meta\<lparr> messageCount := messageCount meta + 1 \<rparr>
               in (messageCount meta1 > RATE_LIMIT_MESSAGES, meta1)))"

text \<open>
  \<^verbatim>\<open>controller.close()\<close> and \<^verbatim>\<open>controller.enqueue(msg)\<close> of the stream of a socket: the
  error thrown, if any, and the state after. What a handler changed before it throws
  stays changed.
\<close>

definition controller_close :: "ws \<Rightarrow> server \<Rightarrow> js_error option \<times> server" where
  "controller_close w s =
     (if closed (controllers s w) then (Some TypeError, s)
      else (None, s\<lparr> controllers := (controllers s)(w := (controllers s w)\<lparr> closed := True \<rparr>) \<rparr>))"

definition controller_enqueue :: "ws \<Rightarrow> json \<Rightarrow> server \<Rightarrow> js_error option \<times> server" where
  "controller_enqueue w msg s =
     (if closed (controllers s w) then (Some TypeError, s)
      else (None, s\<lparr> controllers :=
                  (controllers s)(w := (controllers s w)\<lparr> queue := queue (controllers s w) @ [msg] \<rparr>) \<rparr>))"

text \<open>
  The filter \<^verbatim>\<open>msg && (msg.type === 'ping' || msg.type === 'pong')\<close> of the message
  handler.
\<close>

definition is_ping_pong :: "json \<Rightarrow> bool" where
  "is_ping_pong msg =
     (js_truthy msg \<and>
      (get_prop msg (js ''type'') = Some (JStr (js ''ping''))
       \<or> get_prop msg (js ''type'') = Some (JStr (js ''pong''))))"

text \<open>
  The handler of \<^verbatim>\<open>'message'\<close> on socket \<open>w\<close> for a frame whose text is \<open>frame\<close>. The
  clock is read twice: \<open>tActivity\<close> for \<^verbatim>\<open>lastActivity\<close>, \<open>tRate\<close> inside
  \<^verbatim>\<open>isRateLimited\<close>. Whatever the inner \<^verbatim>\<open>try\<close> throws is caught and dropped.
\<close>

definition on_message :: "runtime \<Rightarrow> ws \<Rightarrow> int \<Rightarrow> int \<Rightarrow> jstring \<Rightarrow> server \<Rightarrow> js_error option \<times> server" where
  "on_message rt w tActivity tRate frame s =
     (let s1 = s\<lparr> metas := (metas s)(w := (metas s w)\<lparr> lastActivity := tActivity \<rparr>) \<rparr>;
          r = isRateLimited tRate (metas s1 w);
          s2 = s1\<lparr> metas := (metas s1)(w := snd r) \<rparr>
      in if fst r then controller_close w (closeConnection w 1008 ''Rate limit exceeded'' s2)
         else (case JSON_parse rt frame of
                 None \<Rightarrow> (None, s2)
               | Some msg \<Rightarrow>
                   if is_ping_pong msg then (None, s2)
                   else (None, snd (controller_enqueue w msg s2))))"

text \<open>
  The frames of one socket handled one after the other, up to the first handler that
  throws. A frame comes with the two clock readings of its handler.
\<close>

fun feed :: "runtime \<Rightarrow> ws \<Rightarrow> (int \<times> int \<times> jstring) list \<Rightarrow> server \<Rightarrow> js_error option \<times> server" where
  "feed rt w [] s = (None, s)"
| "feed rt w ((tActivity, tRate, frame) # rest) s =
     (case on_message rt w tActivity tRate frame s of
        (Some e, s1) \<Rightarrow> (Some e, s1)
      | (None, s1) \<Rightarrow> feed rt w rest s1)"

text \<open>The handlers of \<^verbatim>\<open>'close'\<close> and \<^verbatim>\<open>'pong'\<close>.\<close>

definition on_close :: "ws \<Rightarrow> server \<Rightarrow> js_error option \<times> server" where
  "on_close w s = controller_close w (cleanupConnection w s)"

definition on_pong :: "ws \<Rightarrow> int \<Rightarrow> server \<Rightarrow> server" where
  "on_pong w now s =
     (let m1 = (metas s w)\<lparr> isAlive := True, lastActivity := now \<rparr> in
      case pingTimeout m1 of
        None \<Rightarrow> s\<lparr> metas := (metas s)(w := m1) \<rparr>
      | Some t \<Rightarrow> s\<lparr> metas := (metas s)(w := m1\<lparr> pingTimeout := None \<rparr>), timers := timers s - {t} \<rparr>)"

text \<open>
  \<^verbatim>\<open>onConnection\<close> for a new socket \<open>w\<close>; \<open>ident\<close> is the generated connection id and
  the three times are the three readings of the clock.
\<close>

definition onConnection :: "ws \<Rightarrow> string \<Rightarrow> int \<Rightarrow> int \<Rightarrow> int \<Rightarrow> server \<Rightarrow> server" where
  "onConnection w ident tConnected tActivity tWindow s =
     (if length (connections s) \<ge> MAX_CONNECTIONS
      then s\<lparr> sock_log := sock_log s @ [SockClose w 1013 ''Server overloaded''] \<rparr>
      else (let meta = \<lparr> conn_id = ident, connectedAt = tConnected, lastActivity = tActivity,
                         messageCount = 0, messageWindowStart = tWindow, pingTimeout = None,
                         isAlive = True \<rparr>
            in s\<lparr> connections := (if w \<in> set (connections s) then connections s
                                     else connections s @ [w]),
                  metas := (metas s)(w := meta),
                  controllers := (controllers s)(w := \<lparr> queue = [], closed = False \<rparr>) \<rparr>))"

text \<open>
  The callback of the pong timeout armed for socket \<open>w\<close>, and one turn of the heartbeat
  loop on \<open>w\<close>; \<open>ping_throws\<close> says for which sockets \<^verbatim>\<open>ws.ping()\<close> throws. The interval
  callback visits the sockets of the map in order; a turn removes no socket but its own.
\<close>

definition pongTimeoutCallback :: "ws \<Rightarrow> server \<Rightarrow> server" where
  "pongTimeoutCallback w s =
     (if w \<in> set (connections s) then closeConnection w 1001 ''Pong timeout'' s else s)"

definition heartbeat_step :: "(ws \<Rightarrow> bool) \<Rightarrow> ws \<Rightarrow> server \<Rightarrow> server" where
  "heartbeat_step ping_throws w s =
     (if \<not> isAlive (metas s w) then closeConnection w 1001 ''Ping timeout'' s
      else (let s1 = s\<lparr> metas := (metas s)(w := (metas s w)\<lparr> isAlive := False \<rparr>) \<rparr> in
            if ping_throws w then closeConnection w 1011 ''Ping failed'' s1
            else (let s2 = s1\<lparr> sock_log := sock_log s1 @ [SockPing w] \<rparr>;
                      t = next_timer s2
                  in s2\<lparr> metas := (metas s2)(w := (metas s2 w)\<lparr> pingTimeout := Some t \<rparr>),
                         timers := insert t (timers s2),
                         next_timer := Suc t \<rparr>)))"

definition heartbeat :: "(ws \<Rightarrow> bool) \<Rightarrow> server \<Rightarrow> server" where
  "heartbeat ping_throws s = fold (heartbeat_step ping_throws) (connections s) s"

text \<open>The idle check at clock reading \<open>now\<close>.\<close>

definition idle_step :: "int \<Rightarrow> ws \<Rightarrow> server \<Rightarrow> server" where
  "idle_step now w s =
     (let idleTime = now - lastActivity (metas s w) in
      if idleTime > IDLE_TIMEOUT_MS then closeConnection w 1001 ''Idle timeout'' s else s)"

definition idleCheck :: "int \<Rightarrow> server \<Rightarrow> server" where
  "idleCheck now s = fold (idle_step now) (connections s) s"

text \<open>
  \<^verbatim>\<open>gracefulShutdown\<close> up to the closing of the listeners: the intervals are cleared and
  every connection is closed.
\<close>

definition gracefulShutdown :: "server \<Rightarrow> server" where
  "gracefulShutdown s =
     (let s1 = s\<lparr> pingInterval := False, idleCheckInterval := False \<rparr>
      in fold (\<lambda>w. closeConnection w 1001 ''Server shutting down'') (connections s1) s1)"

text \<open>The close codes and reasons in a log, in order.\<close>

fun close_codes :: "sock_event list \<Rightarrow> int list" where
  "close_codes [] = []"
| "close_codes (SockClose w c reason # es) = c # close_codes es"
| "close_codes (SockPing w # es) = close_codes es"

fun close_reasons :: "sock_event list \<Rightarrow> string list" where
  "close_reasons [] = []"
| "close_reasons (SockClose w c reason # es) = reason # close_reasons es"
| "close_reasons (SockPing w # es) = close_reasons es"


text \<open>
  The module right after \<^verbatim>\<open>startWsServer\<close>: no connection, no timeout armed, both
  intervals running. A socket that never connected has no meta object; the store holds
  a blank one in its place, which nothing reads.
\<close>

definition blank_meta :: ConnectionMeta where
  "blank_meta = \<lparr> conn_id = [], connectedAt = 0, lastActivity = 0, messageCount = 0,
                   messageWindowStart = 0, pingTimeout = None, isAlive = True \<rparr>"

definition server_start :: server where
  "server_start = \<lparr> connections = [], metas = (\<lambda>w. blank_meta),
                     controllers = (\<lambda>w. \<lparr> queue = [], closed = False \<rparr>),
                     timers = {}, next_timer = 0, sock_log = [],
                     pingInterval = True, idleCheckInterval = True \<rparr>"


section \<open>The properties, in the words of the specification\<close>

subsection \<open>Transport manager\<close>

text \<open>
  A frame that parses to a JSON object whose \<^verbatim>\<open>type\<close> is \<^verbatim>\<open>'ping'\<close> or \<^verbatim>\<open>'pong'\<close>; and a
  frame of that kind, given with the two clock readings of its handler, that arrives
  inside the rate window that started at \<open>windowStart\<close>.
\<close>

fun control_object :: "json \<Rightarrow> bool" where
  "control_object (JObj kvs) =
     (map_of kvs (js ''type'') = Some (JStr (js ''ping''))
      \<or> map_of kvs (js ''type'') = Some (JStr (js ''pong'')))"
| "control_object v = False"

definition control_frame :: "runtime \<Rightarrow> int \<Rightarrow> (int \<times> int \<times> jstring) \<Rightarrow> bool" where
  "control_frame rt windowStart x =
     (case x of (tActivity, tRate, frame) \<Rightarrow>
        tRate - windowStart \<le> RATE_LIMIT_WINDOW_MS
        \<and> (case JSON_parse rt frame of None \<Rightarrow> False | Some msg \<Rightarrow> control_object msg))"

text \<open>
  A frame, given with the two clock readings of its handler, that arrives inside the
  rate window that started at \<open>windowStart\<close>; the message a frame brings to the bridge
  (none when the frame does not parse or is a ping or pong); and the messages a
  sequence of frames delivers, in the order of arrival.
\<close>

definition in_window :: "int \<Rightarrow> (int \<times> int \<times> jstring) \<Rightarrow> bool" where
  "in_window windowStart x =
     (case x of (tActivity, tRate, frame) \<Rightarrow> tRate - windowStart \<le> RATE_LIMIT_WINDOW_MS)"

definition bridge_message :: "runtime \<Rightarrow> (int \<times> int \<times> jstring) \<Rightarrow> json option" where
  "bridge_message rt x =
     (case x of (tActivity, tRate, frame) \<Rightarrow>
        (case JSON_parse rt frame of
           None \<Rightarrow> None
         | Some msg \<Rightarrow> if control_object msg then None else Some msg))"

definition delivered :: "runtime \<Rightarrow> (int \<times> int \<times> jstring) list \<Rightarrow> json list" where
  "delivered rt frames = List.map_filter (bridge_message rt) frames"

text \<open>What one turn of the heartbeat does to socket \<open>w\<close>, read off the state before it.\<close>

definition heartbeat_event :: "(ws \<Rightarrow> bool) \<Rightarrow> server \<Rightarrow> ws \<Rightarrow> sock_event" where
  "heartbeat_event ping_throws s w =
     (if \<not> isAlive (metas s w) then SockClose w 1001 ''Ping timeout''
      else if ping_throws w then SockClose w 1011 ''Ping failed''
      else SockPing w)"

subsection \<open>Session directory\<close>

text \<open>
  The record a line holds: none for a blank line and for a line that does not parse.
  The records of a text are those of its lines, in the order of the file. The text of a
  file is its bytes decoded as a whole; the records of the file are those of its text,
  the records of the tail window those of the text \<^verbatim>\<open>readTail\<close> returns.
\<close>

definition line_record :: "runtime \<Rightarrow> jstring \<Rightarrow> json option" where
  "line_record rt l = (let line = trim l in if line = [] then None else JSON_parse rt line)"

definition records_of :: "runtime \<Rightarrow> jstring \<Rightarrow> json list" where
  "records_of rt t = List.map_filter (line_record rt) (split_lines t)"

definition file_text :: "runtime \<Rightarrow> session_file \<Rightarrow> jstring" where
  "file_text rt f = utf8_decode rt (file_bytes f)"

definition tail_records :: "runtime \<Rightarrow> session_file \<Rightarrow> json list" where
  "tail_records rt f = records_of rt (readTail rt DEFAULT_TAIL_BYTES f)"

definition file_records :: "runtime \<Rightarrow> session_file \<Rightarrow> json list" where
  "file_records rt f = records_of rt (file_text rt f)"

definition last_option :: "'a list \<Rightarrow> 'a option" where
  "last_option xs = (if xs = [] then None else Some (last xs))"

text \<open>
  The first line inside the head window of 64KB, and the files whose first line parses
  as an object of type \<^verbatim>\<open>'session'\<close>.
\<close>

definition head_first_line :: "runtime \<Rightarrow> session_file \<Rightarrow> jstring" where
  "head_first_line rt f =
     trim (takeWhile (\<lambda>c. c \<noteq> LF) (utf8_decode rt (take DEFAULT_HEAD_BYTES (file_bytes f))))"

definition session_header_line :: "runtime \<Rightarrow> session_file \<Rightarrow> bool" where
  "session_header_line rt f =
     (file_bytes f \<noteq> [] \<and>
      (case JSON_parse rt (head_first_line rt f) of
         None \<Rightarrow> False
       | Some obj \<Rightarrow> get_prop obj (js ''type'') = Some (JStr (js ''session''))))"

text \<open>
  The instant of a record: the time value of its \<^verbatim>\<open>timestamp\<close> when that is a non-empty
  string that \<^verbatim>\<open>Date\<close> reads. \<open>spec_updatedAt\<close> is the \<^verbatim>\<open>updatedAt\<close> of the specification:
  the instant of the last \<^verbatim>\<open>message\<close> record of the tail window that has one, else the
  last instant of any record there, else the modification time of the file.
\<close>

definition record_instant :: "runtime \<Rightarrow> json \<Rightarrow> int option" where
  "record_instant rt r =
     (case as_string (get_prop r (js ''timestamp'')) of
        None \<Rightarrow> None
      | Some ts \<Rightarrow> if ts = [] then None else Date_parse rt ts)"

definition is_message :: "json \<Rightarrow> bool" where
  "is_message r = (get_prop r (js ''type'') = Some (JStr (js ''message'')))"

definition message_instants :: "runtime \<Rightarrow> json list \<Rightarrow> int list" where
  "message_instants rt rs = List.map_filter (record_instant rt) (filter is_message rs)"

definition all_instants :: "runtime \<Rightarrow> json list \<Rightarrow> int list" where
  "all_instants rt rs = List.map_filter (record_instant rt) rs"

definition spec_updatedAt :: "runtime \<Rightarrow> session_file \<Rightarrow> jstring" where
  "spec_updatedAt rt f =
     (let rs = tail_records rt f in
      if message_instants rt rs \<noteq> [] then toISOString rt (last (message_instants rt rs))
      else if all_instants rt rs \<noteq> [] then toISOString rt (last (all_instants rt rs))
      else toISOString rt (file_mtime f))"

text \<open>
  The names of the \<^verbatim>\<open>session_info\<close> records, in the order of the file: \<open>raw_info_name\<close>
  is the name as the record holds it when it is not empty, \<open>info_names\<close> are the names
  as the code takes them (trimmed, and not empty after trimming).
\<close>

definition raw_info_name :: "json \<Rightarrow> jstring option" where
  "raw_info_name obj =
     (if get_prop obj (js ''type'') = Some (JStr (js ''session_info'')) then
        (case as_string (get_prop obj (js ''name'')) of
           Some n \<Rightarrow> if n \<noteq> [] then Some n else None
         | None \<Rightarrow> None)
      else None)"

definition info_names :: "json list \<Rightarrow> jstring list" where
  "info_names rs = List.map_filter session_info_name rs"

definition names_of_lines :: "runtime \<Rightarrow> jstring list \<Rightarrow> jstring list" where
  "names_of_lines rt ls = info_names (List.map_filter (line_record rt) ls)"

definition line_name :: "runtime \<Rightarrow> jstring \<Rightarrow> jstring option" where
  "line_name rt l = (case line_record rt l of None \<Rightarrow> None | Some obj \<Rightarrow> session_info_name obj)"

text \<open>
  The fallback title as the specification has it: the text of the first user message,
  at most 80 characters of it, looking at every line. It is the value the loop of
  \<^verbatim>\<open>pickFallbackTitleFromHead\<close> returns at the first line where it returns one.
\<close>

fun first_user_title :: "runtime \<Rightarrow> jstring list \<Rightarrow> jstring option" where
  "first_user_title rt [] = None"
| "first_user_title rt (l # ls) =
     (if trim l = [] then first_user_title rt ls
      else (case user_message_title rt (trim l) of
              Some t \<Rightarrow> Some t
            | None \<Rightarrow> first_user_title rt ls))"

text \<open>
  The text before the tail window: the bytes before the window decoded, none when the
  file fits into the window. The start of the window cuts no character when the text of
  the file is that text followed by the text of the window; the window starts at the
  start of a line when the text before it is empty or ends with a line feed.
\<close>

definition before_tail :: "runtime \<Rightarrow> session_file \<Rightarrow> jstring" where
  "before_tail rt f =
     (if length (file_bytes f) \<le> DEFAULT_TAIL_BYTES then []
      else utf8_decode rt (take (length (file_bytes f) - DEFAULT_TAIL_BYTES) (file_bytes f)))"

definition tail_cut_clean :: "runtime \<Rightarrow> session_file \<Rightarrow> bool" where
  "tail_cut_clean rt f = (file_text rt f = before_tail rt f @ readTail rt DEFAULT_TAIL_BYTES f)"

definition tail_starts_line :: "runtime \<Rightarrow> session_file \<Rightarrow> bool" where
  "tail_starts_line rt f = (before_tail rt f = [] \<or> last (before_tail rt f) = LF)"

text \<open>
  The chunks of 256KB the full scan reads, and the text it sees: the chunks decoded one
  by one. The chunk boundaries cut no character when that text is the text of the file.
\<close>

function chunks :: "string \<Rightarrow> string list" where
  "chunks bytes = (if bytes = [] then [] else take SCAN_BUF bytes # chunks (drop SCAN_BUF bytes))"
  by pat_completeness auto
termination
  by (relation "measure length") (auto simp: SCAN_BUF_def)

declare chunks.simps [simp del]

definition chunked_text :: "runtime \<Rightarrow> string \<Rightarrow> jstring" where
  "chunked_text rt bytes = concat (map (utf8_decode rt) (chunks bytes))"

definition chunks_clean :: "runtime \<Rightarrow> session_file \<Rightarrow> bool" where
  "chunks_clean rt f = (file_text rt f = chunked_text rt (file_bytes f))"
section \<open>Sample inputs\<close>

text \<open>
  Lines of a session log, as the bytes on disk, and frames of a client, with the value
  \<^verbatim>\<open>JSON.parse\<close> gives for the text of each. \<open>sample_runtime\<close> agrees with the JavaScript
  runtime on every text, time and buffer that occurs in the sample files below; any other
  text does not parse in it.
\<close>

definition LF_byte :: char where "LF_byte = CHR 0x0A"

definition header_line :: string where
  \<open>header_line = ''{"type":"session","id":"sess-1","cwd":"/tmp/project"}''\<close>

definition message_line :: string where
  \<open>message_line = ''{"type":"message","timestamp":"2026-01-01T00:00:02.000Z","message":{"role":"user","content":"hi"}}''\<close>

definition info_line :: string where
  \<open>info_line = ''{"type":"session_info","timestamp":"2026-01-01T00:00:10.000Z","name":"named"}''\<close>

definition padded_info_line :: string where
  \<open>padded_info_line = ''{"type":"session_info","name":" A "}''\<close>

definition real_info_line :: string where
  \<open>real_info_line = ''{"type":"session_info","name":"Real"}''\<close>

definition ghost_line :: string where
  \<open>ghost_line = ''{"type":"session_info","name":"Ghost"}''\<close>

text \<open>
  A rename record whose name is a no-break space, written as a JSON escape; and a rename
  record with the name \<^verbatim>\<open>caf\<close> followed by U+00E9, which UTF-8 writes as the two bytes C3 A9:
  its bytes, its text, and the text with U+FFFD twice in place of the letter, which is
  what comes of decoding the two bytes apart.
\<close>

definition nbsp_info_line :: string where
  \<open>nbsp_info_line = ''{"type":"session_info","name":"'' @ [CHR 0x5C] @ ''u00a0"}''\<close>

definition cafe_head :: string where
  \<open>cafe_head = ''{"type":"session_info","name":"caf''\<close>

definition cafe_end :: string where
  \<open>cafe_end = ''"}''\<close>

definition cafe_line :: string where
  "cafe_line = cafe_head @ [CHR 0xC3, CHR 0xA9] @ cafe_end"

definition cafe_text :: jstring where
  "cafe_text = js cafe_head @ [0xE9] @ js cafe_end"

definition broken_cafe_text :: jstring where
  "broken_cafe_text = js cafe_head @ [0xFFFD, 0xFFFD] @ js cafe_end"

definition ping_frame :: jstring where
  \<open>ping_frame = js ''{"type":"ping"}''\<close>

definition request_frame :: jstring where
  \<open>request_frame = js ''{"jsonrpc":"2.0","id":1,"method":"initialize"}''\<close>

definition sample_parse :: "jstring \<Rightarrow> json option" where
  "sample_parse t =
     (if t = js header_line then
        Some (JObj [(js ''type'', JStr (js ''session'')), (js ''id'', JStr (js ''sess-1'')),
                    (js ''cwd'', JStr (js ''/tmp/project''))])
      else if t = js message_line then
        Some (JObj [(js ''type'', JStr (js ''message'')),
                    (js ''timestamp'', JStr (js ''2026-01-01T00:00:02.000Z'')),
                    (js ''message'', JObj [(js ''role'', JStr (js ''user'')),
                                           (js ''content'', JStr (js ''hi''))])])
      else if t = js info_line then
        Some (JObj [(js ''type'', JStr (js ''session_info'')),
                    (js ''timestamp'', JStr (js ''2026-01-01T00:00:10.000Z'')),
                    (js ''name'', JStr (js ''named''))])
      else if t = js padded_info_line then
        Some (JObj [(js ''type'', JStr (js ''session_info'')), (js ''name'', JStr (js '' A ''))])
      else if t = js real_info_line then
        Some (JObj [(js ''type'', JStr (js ''session_info'')), (js ''name'', JStr (js ''Real''))])
      else if t = js ghost_line then
        Some (JObj [(js ''type'', JStr (js ''session_info'')), (js ''name'', JStr (js ''Ghost''))])
      else if t = js nbsp_info_line then
        Some (JObj [(js ''type'', JStr (js ''session_info'')), (js ''name'', JStr [0xA0])])
      else if t = cafe_text then
        Some (JObj [(js ''type'', JStr (js ''session_info'')),
                    (js ''name'', JStr (js ''caf'' @ [0xE9]))])
      else if t = broken_cafe_text then
        Some (JObj [(js ''type'', JStr (js ''session_info'')),
                    (js ''name'', JStr (js ''caf'' @ [0xFFFD, 0xFFFD]))])
      else if t = ping_frame then Some (JObj [(js ''type'', JStr (js ''ping''))])
      else if t = request_frame then
        Some (JObj [(js ''jsonrpc'', JStr (js ''2.0'')), (js ''id'', JNum 1),
                    (js ''method'', JStr (js ''initialize''))])
      else None)"

definition sample_date :: "jstring \<Rightarrow> int option" where
  "sample_date t =
     (if t = js ''2026-01-01T00:00:02.000Z'' then Some 1767225602000
      else if t = js ''2026-01-01T00:00:10.000Z'' then Some 1767225610000
      else None)"

definition sample_iso :: "int \<Rightarrow> jstring" where
  "sample_iso d =
     (if d = 1767225602000 then js ''2026-01-01T00:00:02.000Z''
      else if d = 1767225610000 then js ''2026-01-01T00:00:10.000Z''
      else if d = 1767225700000 then js ''2026-01-01T00:01:40.000Z''
      else js ''1970-01-01T00:00:00.000Z'')"

fun code_unit_compare :: "jstring \<Rightarrow> jstring \<Rightarrow> int" where
  "code_unit_compare [] [] = 0"
| "code_unit_compare [] (y # ys) = -1"
| "code_unit_compare (x # xs) [] = 1"
| "code_unit_compare (x # xs) (y # ys) =
     (if x < y then -1 else if y < x then 1 else code_unit_compare xs ys)"

text \<open>
  The decoder of the sample runtime: a byte below 128 is its own code unit, a lead byte
  from C2 to DF with a continuation byte is the code unit of the two, and any other byte
  gives U+FFFD. It is the UTF-8 decoder of the runtime on the buffers read below, which
  hold no byte from E0 up.
\<close>

fun sample_decode :: "string \<Rightarrow> jstring" where
  "sample_decode [] = []"
| "sample_decode [b] = (if (of_char b :: nat) < 128 then [of_char b] else [0xFFFD])"
| "sample_decode (b # c # rest) =
     (if (of_char b :: nat) < 128 then of_char b # sample_decode (c # rest)
      else if 194 \<le> (of_char b :: nat) \<and> (of_char b :: nat) \<le> 223
              \<and> 128 \<le> (of_char c :: nat) \<and> (of_char c :: nat) \<le> 191
      then ((of_char b - 192) * 64 + (of_char c - 128)) # sample_decode rest
      else 0xFFFD # sample_decode (c # rest))"

definition ascii :: "string \<Rightarrow> bool" where
  "ascii t = list_all (\<lambda>b. (of_char b :: nat) < 128) t"

definition sample_runtime :: runtime where
  "sample_runtime = \<lparr> JSON_parse = sample_parse, Date_parse = sample_date,
                       toISOString = sample_iso, localeCompare = code_unit_compare,
                       utf8_decode = sample_decode \<rparr>"

text \<open>
  A session with a user message at 00:00:02 and a rename at 00:00:10; a session whose
  name has a blank on either side; a file that is no session log; and the entry the
  listing holds for the first.
\<close>

definition sample_session :: session_file where
  "sample_session = \<lparr> file_path = ''/sessions/--p--/s.jsonl'',
       file_bytes = header_line @ [LF_byte] @ message_line @ [LF_byte] @ info_line @ [LF_byte],
       file_mtime = 1767225700000 \<rparr>"

definition padded_session :: session_file where
  "padded_session = \<lparr> file_path = ''/sessions/--p--/t.jsonl'',
       file_bytes = header_line @ [LF_byte] @ padded_info_line @ [LF_byte],
       file_mtime = 1767225700000 \<rparr>"

definition not_a_session :: session_file where
  "not_a_session = \<lparr> file_path = ''/sessions/--p--/notes.jsonl'',
       file_bytes = ''hello'' @ [LF_byte],
       file_mtime = 1767225700000 \<rparr>"

text \<open>
  A session without a name: the header and one user message. A long session without a
  name: the header, then 2001 times the user message. And a
  file of more than 256KB in which a line that is no JSON (an \<^verbatim>\<open>x\<close> followed by the text
  of a rename record) is cut by the start of the tail window right after the \<^verbatim>\<open>x\<close>; the
  rest of the file is one line of 262104 times \<^verbatim>\<open>x\<close>.
\<close>

definition unnamed_session :: session_file where
  "unnamed_session = \<lparr> file_path = ''/sessions/--p--/u.jsonl'',
       file_bytes = header_line @ [LF_byte] @ message_line @ [LF_byte],
       file_mtime = 1767225700000 \<rparr>"

definition long_session :: session_file where
  "long_session = \<lparr> file_path = ''/sessions/--p--/long.jsonl'',
       file_bytes = header_line @ [LF_byte] @ concat (replicate 2001 (message_line @ [LF_byte])),
       file_mtime = 1767225700000 \<rparr>"

definition cut_session :: session_file where
  "cut_session = \<lparr> file_path = ''/sessions/--p--/cut.jsonl'',
       file_bytes = header_line @ [LF_byte] @ real_info_line @ [LF_byte]
                    @ ''x'' @ ghost_line @ [LF_byte] @ replicate 262104 (CHR ''x'') @ [LF_byte],
       file_mtime = 1767225700000 \<rparr>"

text \<open>
  A session that was named early and grew: the header, the rename record, and one line
  of 262200 times \<^verbatim>\<open>x\<close>, so that the rename lies before the tail window.
\<close>

definition early_named_session :: session_file where
  "early_named_session = \<lparr> file_path = ''/sessions/--p--/early.jsonl'',
       file_bytes = header_line @ [LF_byte] @ real_info_line @ [LF_byte]
                    @ replicate 262200 (CHR ''x'') @ [LF_byte],
       file_mtime = 1767225700000 \<rparr>"

text \<open>
  A session renamed to \<^verbatim>\<open>Real\<close> and then to a no-break space. And a session named early
  whose name holds the letter U+00E9, with the first of its two bytes at offset 262143
  and the second at offset 262144, the first byte of the second chunk of 256KB; the
  rename lies before the tail window.
\<close>

definition nbsp_session :: session_file where
  "nbsp_session = \<lparr> file_path = ''/sessions/--p--/nbsp.jsonl'',
       file_bytes = header_line @ [LF_byte] @ real_info_line @ [LF_byte]
                    @ nbsp_info_line @ [LF_byte],
       file_mtime = 1767225700000 \<rparr>"

definition straddle_session :: session_file where
  "straddle_session = \<lparr> file_path = ''/sessions/--p--/cafe.jsonl'',
       file_bytes = header_line @ [LF_byte] @ replicate 262054 (CHR ''x'') @ [LF_byte]
                    @ cafe_line @ [LF_byte] @ replicate 262200 (CHR ''x'') @ [LF_byte],
       file_mtime = 1767225700000 \<rparr>"

definition sample_item :: PiSessionListItem where
  "sample_item = \<lparr> sessionId = js ''sess-1'', cwd = js ''/tmp/project'',
       title = Some (js ''named''), updatedAt = Some (js ''2026-01-01T00:00:02.000Z''),
       sessionFile = ''/sessions/--p--/s.jsonl'' \<rparr>"

text \<open>
  One open connection (socket 7), made at time 0; the same with its counter at 100;
  and a server with ten connections.
\<close>

definition one_connection :: server where
  "one_connection = onConnection 7 ''conn_7'' 0 0 0 server_start"

definition busy_connection :: server where
  "busy_connection =
     one_connection\<lparr> metas := (metas one_connection)
       (7 := (metas one_connection 7)\<lparr> messageCount := 100 \<rparr>) \<rparr>"

definition full_house :: server where
  "full_house = fold (\<lambda>w. onConnection w ''conn'' 0 0 0) [11, 12, 13, 14, 15, 16, 17, 18, 19, 20] server_start"

section \<open>Theorems: error taxonomy\<close>

text \<open>
  Claim C8 says that the numeric code carried by \<^verbatim>\<open>AuthRequiredError\<close> and the numeric
  code of \<^verbatim>\<open>SessionNotFound\<close> are distinct values. In the code they are the same value,
  -32001, whatever the arguments of the constructor: the theorem evaluates both.
\<close>

theorem auth_required_code_equals_session_not_found:
  "code (AuthRequiredError msg methods) = ErrorCode_value SessionNotFound
   \<and> code (AuthRequiredError msg methods) = -32001"
  by (simp add: AuthRequiredError_def ACP_AUTH_REQUIRED_def Let_def)

section \<open>Theorems: prompt translation\<close>

lemma prompt_fold:
  "fold (prompt_step bl) blocks (msg, imgs) =
     (msg @ concat (map (block_text bl) blocks), imgs @ List.map_filter block_image blocks)"
proof (induction blocks arbitrary: msg imgs)
  case Nil
  show ?case by (simp add: List.map_filter_simps)
next
  case (Cons b blocks)
  show ?case by (cases b) (simp_all add: Cons.IH List.map_filter_simps)
qed

text \<open>
  Claim C7: \<^verbatim>\<open>promptToPiMessage\<close> is a function of its block list alone. The message is
  the concatenation, in input order, of what each block adds: a text block its text, a
  resource link the marker of a line feed, \<^verbatim>\<open>[Context] \<close> and its uri, an image block and
  a block of an unknown kind nothing (a resource and an audio block their markers). The
  image list holds the mime type and the data of the image blocks, and of no other
  block, in input order.
\<close>

theorem promptToPiMessage_text_and_images:
  "promptToPiMessage byteLength blocks =
     (concat (map (block_text byteLength) blocks), List.map_filter block_image blocks)"
  by (simp add: promptToPiMessage_def prompt_fold)

theorem promptToPiMessage_text_and_images_witness:
  "promptToPiMessage (\<lambda>b. 3)
     [Text ''Hello'', ResourceLink ''file:///tmp/foo.txt'', Text '' world'']
     = (''Hello'' @ [CHR 0x0A] @ ''[Context] file:///tmp/foo.txt world'', [])
   \<and> promptToPiMessage (\<lambda>b. 3) [Text ''see'', Image ''image/png'' ''YWJj'', Other ''video'']
     = (''see'', [\<lparr> PiImage.mimeType = ''image/png'', PiImage.data = ''YWJj'' \<rparr>])"
  using promptToPiMessage_text_and_images
          [of "\<lambda>b. 3" "[Text ''Hello'', ResourceLink ''file:///tmp/foo.txt'', Text '' world'']"]
        promptToPiMessage_text_and_images
          [of "\<lambda>b. 3" "[Text ''see'', Image ''image/png'' ''YWJj'', Other ''video'']"]
  by (simp add: List.map_filter_simps)

section \<open>Theorems: strings\<close>

lemma js_eq_iff [simp]: "js a = js b \<longleftrightarrow> a = b"
  by (simp add: js_def inj_map_eq_map inj_on_def)

lemma js_Nil [simp]: "js [] = []"
  by (simp add: js_def)

lemma js_is_Nil [simp]: "js t = [] \<longleftrightarrow> t = []"
  by (simp add: js_def)

lemma length_js [simp]: "length (js t) = length t"
  by (simp add: js_def)

lemma js_append: "js (a @ b) = js a @ js b"
  by (simp add: js_def)

lemma js_Cons: "js (c # t) = of_char c # js t"
  by (simp add: js_def)

lemma js_replicate: "js (replicate n c) = replicate n (of_char c)"
  by (simp add: js_def)

lemma hd_js: "t \<noteq> [] \<Longrightarrow> hd (js t) = of_char (hd t)"
  by (simp add: js_def hd_map)

lemma last_js: "t \<noteq> [] \<Longrightarrow> last (js t) = of_char (last t)"
  by (simp add: js_def last_map)

lemma take_js: "take n (js t) = js (take n t)"
  by (simp add: js_def take_map)

lemma drop_js: "drop n (js t) = js (drop n t)"
  by (simp add: js_def drop_map)

lemma map_filter_append:
  "List.map_filter f (xs @ ys) = List.map_filter f xs @ List.map_filter f ys"
  by (simp add: List.map_filter_def)

lemma map_filter_snoc:
  "List.map_filter f (xs @ [x]) =
     List.map_filter f xs @ (case f x of None \<Rightarrow> [] | Some y \<Rightarrow> [y])"
  by (simp add: map_filter_append List.map_filter_simps split: option.splits)

lemma map_filter_replicate:
  "List.map_filter f (replicate n x) = (case f x of None \<Rightarrow> [] | Some y \<Rightarrow> replicate n y)"
  by (induction n) (simp_all add: List.map_filter_simps split: option.splits)

section \<open>Theorems: transport manager\<close>

subsection \<open>What the handlers leave unchanged\<close>

lemma closeConnection_log: "sock_log (closeConnection w c r s) = sock_log s @ [SockClose w c r]"
  by (simp add: closeConnection_def clear_ping_timeout_def Let_def split: option.splits)

lemma closeConnection_metas: "metas (closeConnection w c r s) = metas s"
  by (simp add: closeConnection_def clear_ping_timeout_def Let_def split: option.splits)

lemma closeConnection_connections: "connections (closeConnection w c r s) = removeAll w (connections s)"
  by (simp add: closeConnection_def clear_ping_timeout_def Let_def split: option.splits)

lemma closeConnection_controllers: "controllers (closeConnection w c r s) = controllers s"
  by (simp add: closeConnection_def clear_ping_timeout_def Let_def split: option.splits)

lemma controller_close_fields:
  "sock_log (snd (controller_close w s)) = sock_log s"
  "metas (snd (controller_close w s)) = metas s"
  "connections (snd (controller_close w s)) = connections s"
  "queue (controllers (snd (controller_close w s)) w') = queue (controllers s w')"
  by (simp_all add: controller_close_def)

lemma control_object_ping_pong: "control_object msg \<Longrightarrow> is_ping_pong msg"
  by (cases msg) (auto simp: is_ping_pong_def)

lemma on_message_limited:
  assumes "\<not> tR - messageWindowStart (metas s w) > RATE_LIMIT_WINDOW_MS"
    and "messageCount (metas s w) + 1 > RATE_LIMIT_MESSAGES"
  shows "on_message rt w tA tR frame s =
           controller_close w (closeConnection w 1008 ''Rate limit exceeded''
             (s\<lparr> metas := (metas s)(w := (metas s w)\<lparr> lastActivity := tA,
                     messageCount := messageCount (metas s w) + 1 \<rparr>) \<rparr>))"
  using assms by (simp add: on_message_def isRateLimited_def Let_def)

lemma on_message_reset:
  assumes "tR - messageWindowStart (metas s w) > RATE_LIMIT_WINDOW_MS"
  shows "on_message rt w tA tR frame s =
     (let s2 = s\<lparr> metas := (metas s)(w := (metas s w)\<lparr> lastActivity := tA,
                     messageWindowStart := tR, messageCount := 1 \<rparr>) \<rparr>
      in case JSON_parse rt frame of
                 None \<Rightarrow> (None, s2)
               | Some msg \<Rightarrow>
                   if is_ping_pong msg then (None, s2)
                   else (None, snd (controller_enqueue w msg s2)))"
  using assms by (simp add: on_message_def isRateLimited_def Let_def split: option.splits)

lemma controller_enqueue_fields:
  "sock_log (snd (controller_enqueue w msg s)) = sock_log s"
  "metas (snd (controller_enqueue w msg s)) = metas s"
  "connections (snd (controller_enqueue w msg s)) = connections s"
  by (simp_all add: controller_enqueue_def)

lemma one_connection_fields:
  "connections one_connection = [7]"
  "sock_log one_connection = []"
  "metas one_connection 7 = \<lparr> conn_id = ''conn_7'', connectedAt = 0, lastActivity = 0,
     messageCount = 0, messageWindowStart = 0, pingTimeout = None, isAlive = True \<rparr>"
  "controllers one_connection 7 = \<lparr> queue = [], closed = False \<rparr>"
  by (simp_all add: one_connection_def onConnection_def server_start_def MAX_CONNECTIONS_def)

lemma busy_connection_fields:
  "connections busy_connection = [7]"
  "sock_log busy_connection = []"
  "messageCount (metas busy_connection 7) = 100"
  "messageWindowStart (metas busy_connection 7) = 0"
  "controllers busy_connection 7 = \<lparr> queue = [], closed = False \<rparr>"
  by (simp_all add: busy_connection_def one_connection_fields)

lemma sample_parse_frames:
  "sample_parse ping_frame = Some (JObj [(js ''type'', JStr (js ''ping''))])"
  "sample_parse request_frame =
     Some (JObj [(js ''jsonrpc'', JStr (js ''2.0'')), (js ''id'', JNum 1),
            (js ''method'', JStr (js ''initialize''))])"
  by (simp_all add: sample_parse_def ping_frame_def request_frame_def header_line_def
        message_line_def info_line_def padded_info_line_def real_info_line_def ghost_line_def
        nbsp_info_line_def cafe_text_def broken_cafe_text_def cafe_head_def js_append js_Cons)

lemma feed_append:
  "feed rt w (xs @ ys) s =
     (case feed rt w xs s of (Some e, s1) \<Rightarrow> (Some e, s1) | (None, s1) \<Rightarrow> feed rt w ys s1)"
proof (induction xs arbitrary: s)
  case Nil
  show ?case by simp
next
  case (Cons x xs)
  obtain tA tR fr where x: "x = (tA, tR, fr)" by (cases x) auto
  show ?case
    by (cases "on_message rt w tA tR fr s") (auto simp: x Cons.IH split: option.splits)
qed

subsection \<open>Rate limit\<close>

lemma on_message_passed:
  assumes "tR - messageWindowStart (metas s w) \<le> RATE_LIMIT_WINDOW_MS"
    and "messageCount (metas s w) + 1 \<le> RATE_LIMIT_MESSAGES"
  shows "on_message rt w tA tR frame s =
     (let s2 = s\<lparr> metas := (metas s)(w := (metas s w)\<lparr> lastActivity := tA,
                     messageCount := messageCount (metas s w) + 1 \<rparr>) \<rparr>
      in case JSON_parse rt frame of
                 None \<Rightarrow> (None, s2)
               | Some msg \<Rightarrow>
                   if is_ping_pong msg then (None, s2)
                   else (None, snd (controller_enqueue w msg s2)))"
  using assms by (simp add: on_message_def isRateLimited_def Let_def split: option.splits)

lemma is_ping_pong_control_object: "is_ping_pong msg = control_object msg"
  by (cases msg) (auto simp: is_ping_pong_def)

lemma on_message_passed_state:
  assumes "tR - messageWindowStart (metas s w) \<le> RATE_LIMIT_WINDOW_MS"
    and "messageCount (metas s w) + 1 \<le> RATE_LIMIT_MESSAGES"
    and "\<not> closed (controllers s w)"
  shows "\<exists>s1. on_message rt w tA tR frame s = (None, s1)
           \<and> sock_log s1 = sock_log s \<and> connections s1 = connections s
           \<and> messageWindowStart (metas s1 w) = messageWindowStart (metas s w)
           \<and> messageCount (metas s1 w) = messageCount (metas s w) + 1
           \<and> \<not> closed (controllers s1 w)
           \<and> queue (controllers s1 w)
               = queue (controllers s w) @ delivered rt [(tA, tR, frame)]"
proof (cases "JSON_parse rt frame")
  case None
  then show ?thesis using assms(3)
    by (simp add: on_message_passed[OF assms(1,2)] Let_def delivered_def bridge_message_def
          List.map_filter_simps)
next
  case (Some msg)
  then show ?thesis using assms(3)
    by (simp add: on_message_passed[OF assms(1,2)] Let_def delivered_def bridge_message_def
          List.map_filter_simps is_ping_pong_control_object controller_enqueue_def)
qed

lemma delivered_Cons: "delivered rt (x # xs) = delivered rt [x] @ delivered rt xs"
  using map_filter_append[of "bridge_message rt" "[x]" xs] by (simp add: delivered_def)

lemma feed_below_limit:
  assumes "list_all (in_window (messageWindowStart (metas s w))) frames"
    and "messageCount (metas s w) + int (length frames) \<le> RATE_LIMIT_MESSAGES"
    and "\<not> closed (controllers s w)"
  shows "\<exists>s'. feed rt w frames s = (None, s') \<and> sock_log s' = sock_log s
           \<and> connections s' = connections s
           \<and> messageWindowStart (metas s' w) = messageWindowStart (metas s w)
           \<and> messageCount (metas s' w) = messageCount (metas s w) + int (length frames)
           \<and> \<not> closed (controllers s' w)
           \<and> queue (controllers s' w) = queue (controllers s w) @ delivered rt frames"
  using assms
proof (induction frames arbitrary: s)
  case Nil
  then show ?case by (simp add: delivered_def List.map_filter_simps)
next
  case (Cons x frames)
  obtain tA tR fr where x: "x = (tA, tR, fr)" by (cases x) auto
  from Cons.prems(1) have t: "tR - messageWindowStart (metas s w) \<le> RATE_LIMIT_WINDOW_MS"
    by (simp add: x in_window_def)
  from Cons.prems(2) have c: "messageCount (metas s w) + 1 \<le> RATE_LIMIT_MESSAGES" by simp
  from on_message_passed_state[OF t c Cons.prems(3), of rt tA fr] obtain s1 where
    step: "on_message rt w tA tR fr s = (None, s1)"
    and l1: "sock_log s1 = sock_log s" and c1: "connections s1 = connections s"
    and w1: "messageWindowStart (metas s1 w) = messageWindowStart (metas s w)"
    and m1: "messageCount (metas s1 w) = messageCount (metas s w) + 1"
    and o1: "\<not> closed (controllers s1 w)"
    and q1: "queue (controllers s1 w) = queue (controllers s w) @ delivered rt [(tA, tR, fr)]"
    by blast
  have "list_all (in_window (messageWindowStart (metas s1 w))) frames"
    using Cons.prems(1) by (simp add: w1)
  moreover have "messageCount (metas s1 w) + int (length frames) \<le> RATE_LIMIT_MESSAGES"
    using Cons.prems(2) by (simp add: m1)
  ultimately obtain s' where
    "feed rt w frames s1 = (None, s')" "sock_log s' = sock_log s1"
    "connections s' = connections s1"
    "messageWindowStart (metas s' w) = messageWindowStart (metas s1 w)"
    "messageCount (metas s' w) = messageCount (metas s1 w) + int (length frames)"
    "\<not> closed (controllers s' w)"
    "queue (controllers s' w) = queue (controllers s1 w) @ delivered rt frames"
    using Cons.IH[of s1] o1 by blast
  then show ?case
    using delivered_Cons[of rt "(tA, tR, fr)" frames]
    by (simp add: x step l1 c1 w1 m1 q1)
qed

lemma feed_over_limit:
  assumes "list_all (in_window (messageWindowStart (metas s w))) frames"
    and "frames \<noteq> []"
    and "messageCount (metas s w) + int (length frames) = RATE_LIMIT_MESSAGES + 1"
    and "\<not> closed (controllers s w)"
  shows "fst (feed rt w frames s) = None
         \<and> sock_log (snd (feed rt w frames s))
             = sock_log s @ [SockClose w 1008 ''Rate limit exceeded'']
         \<and> w \<notin> set (connections (snd (feed rt w frames s)))
         \<and> closed (controllers (snd (feed rt w frames s)) w)
         \<and> queue (controllers (snd (feed rt w frames s)) w)
             = queue (controllers s w) @ delivered rt (butlast frames)"
proof -
  define init where "init = butlast frames"
  obtain tA' tR' fr' where lst: "last frames = (tA', tR', fr')" by (cases "last frames") auto
  have split: "frames = init @ [(tA', tR', fr')]"
    using append_butlast_last_id[OF assms(2)] lst by (simp add: init_def)
  have both: "list_all (in_window (messageWindowStart (metas s w))) (init @ [(tA', tR', fr')])"
    using assms(1) split by simp
  have ainit: "list_all (in_window (messageWindowStart (metas s w))) init"
    using both by simp
  have alast: "in_window (messageWindowStart (metas s w)) (tA', tR', fr')"
    using both by simp
  have len: "int (length frames) = int (length init) + 1"
    by (subst split) simp
  have "messageCount (metas s w) + int (length init) \<le> RATE_LIMIT_MESSAGES"
    using assms(3) len by simp
  from feed_below_limit[OF ainit this assms(4), of rt] obtain s1 where
    f1: "feed rt w init s = (None, s1)" and l1: "sock_log s1 = sock_log s"
    and w1: "messageWindowStart (metas s1 w) = messageWindowStart (metas s w)"
    and m1: "messageCount (metas s1 w) = messageCount (metas s w) + int (length init)"
    and o1: "\<not> closed (controllers s1 w)"
    and q1: "queue (controllers s1 w) = queue (controllers s w) @ delivered rt init"
    by blast
  have t1: "\<not> tR' - messageWindowStart (metas s1 w) > RATE_LIMIT_WINDOW_MS"
    using alast by (simp add: in_window_def w1)
  have over: "messageCount (metas s1 w) + 1 > RATE_LIMIT_MESSAGES"
    using assms(3) len by (simp add: m1)
  note eq = on_message_limited[OF t1 over, of rt tA' fr']
  have feed_eq: "feed rt w frames s = on_message rt w tA' tR' fr' s1"
    by (subst split) (simp add: feed_append f1 split: prod.splits option.splits)
  have "fst (feed rt w frames s) = None"
    by (simp add: feed_eq eq controller_close_def closeConnection_controllers o1)
  moreover have "sock_log (snd (feed rt w frames s))
                   = sock_log s @ [SockClose w 1008 ''Rate limit exceeded'']"
    by (simp add: feed_eq eq controller_close_fields closeConnection_log l1)
  moreover have "w \<notin> set (connections (snd (feed rt w frames s)))"
    by (simp add: feed_eq eq controller_close_fields closeConnection_connections)
  moreover have "closed (controllers (snd (feed rt w frames s)) w)"
    by (simp add: feed_eq eq controller_close_def closeConnection_controllers)
  moreover have "queue (controllers (snd (feed rt w frames s)) w)
                   = queue (controllers s w) @ delivered rt (butlast frames)"
    by (simp add: feed_eq eq controller_close_fields closeConnection_controllers q1 init_def)
  ultimately show ?thesis by simp
qed

text \<open>
  Claim C6, for the handler of a message on socket \<open>w\<close> in any state, and for the frames
  of a connection handled one after the other.

  When the frame arrives more than the window of 60 seconds after the window start, it
  is not rate limited: the handler returns normally, the window starts again at the
  clock reading with the counter at 1, nothing is closed, the socket stays registered,
  and a message that parses and is no ping or pong is enqueued on the open stream.

  When it arrives inside the window and the counter goes up to at most 100, it is not
  rate limited either: the counter is stored one higher, the window start stays, nothing
  is closed, and the message is enqueued likewise.

  When it arrives inside the window and pushes the counter above 100, the counter is
  stored one higher, the socket is closed with code 1008 and leaves the registry, the
  stream is closed, and the frame is not enqueued for the bridge.

  So, of frames that all arrive inside the window of an open connection: as long as the
  counter stays at or below 100 every frame is handled, none closes the connection, the
  counter has gone up by their number and the bridge has got the message of each frame
  that brings one; and the frame that takes the counter to 101 closes the connection with
  code 1008, the bridge having got the messages of the frames before it and not its own.
\<close>

theorem rate_limit_window_reset_and_closure:
  "(tR - messageWindowStart (metas s w) > RATE_LIMIT_WINDOW_MS \<longrightarrow>
      fst (isRateLimited tR ((metas s w)\<lparr> lastActivity := tA \<rparr>)) = False
      \<and> fst (on_message rt w tA tR frame s) = None
      \<and> messageCount (metas (snd (on_message rt w tA tR frame s)) w) = 1
      \<and> messageWindowStart (metas (snd (on_message rt w tA tR frame s)) w) = tR
      \<and> sock_log (snd (on_message rt w tA tR frame s)) = sock_log s
      \<and> connections (snd (on_message rt w tA tR frame s)) = connections s
      \<and> (JSON_parse rt frame = Some msg \<and> \<not> is_ping_pong msg \<and> \<not> closed (controllers s w) \<longrightarrow>
           queue (controllers (snd (on_message rt w tA tR frame s)) w)
             = queue (controllers s w) @ [msg]))
   \<and> (tR - messageWindowStart (metas s w) \<le> RATE_LIMIT_WINDOW_MS
        \<and> messageCount (metas s w) + 1 \<le> RATE_LIMIT_MESSAGES \<longrightarrow>
      fst (isRateLimited tR ((metas s w)\<lparr> lastActivity := tA \<rparr>)) = False
      \<and> fst (on_message rt w tA tR frame s) = None
      \<and> messageCount (metas (snd (on_message rt w tA tR frame s)) w)
          = messageCount (metas s w) + 1
      \<and> messageWindowStart (metas (snd (on_message rt w tA tR frame s)) w)
          = messageWindowStart (metas s w)
      \<and> sock_log (snd (on_message rt w tA tR frame s)) = sock_log s
      \<and> connections (snd (on_message rt w tA tR frame s)) = connections s
      \<and> (JSON_parse rt frame = Some msg \<and> \<not> is_ping_pong msg \<and> \<not> closed (controllers s w) \<longrightarrow>
           queue (controllers (snd (on_message rt w tA tR frame s)) w)
             = queue (controllers s w) @ [msg]))
   \<and> (tR - messageWindowStart (metas s w) \<le> RATE_LIMIT_WINDOW_MS
        \<and> messageCount (metas s w) + 1 > RATE_LIMIT_MESSAGES \<longrightarrow>
      fst (isRateLimited tR ((metas s w)\<lparr> lastActivity := tA \<rparr>)) = True
      \<and> messageCount (metas (snd (on_message rt w tA tR frame s)) w)
          = messageCount (metas s w) + 1
      \<and> sock_log (snd (on_message rt w tA tR frame s))
          = sock_log s @ [SockClose w 1008 ''Rate limit exceeded'']
      \<and> w \<notin> set (connections (snd (on_message rt w tA tR frame s)))
      \<and> closed (controllers (snd (on_message rt w tA tR frame s)) w)
      \<and> queue (controllers (snd (on_message rt w tA tR frame s)) w) = queue (controllers s w))
   \<and> (list_all (in_window (messageWindowStart (metas s w))) frames
        \<and> \<not> closed (controllers s w)
        \<and> messageCount (metas s w) + int (length frames) \<le> RATE_LIMIT_MESSAGES \<longrightarrow>
      fst (feed rt w frames s) = None
      \<and> sock_log (snd (feed rt w frames s)) = sock_log s
      \<and> connections (snd (feed rt w frames s)) = connections s
      \<and> messageWindowStart (metas (snd (feed rt w frames s)) w)
          = messageWindowStart (metas s w)
      \<and> messageCount (metas (snd (feed rt w frames s)) w)
          = messageCount (metas s w) + int (length frames)
      \<and> queue (controllers (snd (feed rt w frames s)) w)
          = queue (controllers s w) @ delivered rt frames)
   \<and> (list_all (in_window (messageWindowStart (metas s w))) frames
        \<and> \<not> closed (controllers s w) \<and> frames \<noteq> []
        \<and> messageCount (metas s w) + int (length frames) = RATE_LIMIT_MESSAGES + 1 \<longrightarrow>
      fst (feed rt w frames s) = None
      \<and> sock_log (snd (feed rt w frames s))
          = sock_log s @ [SockClose w 1008 ''Rate limit exceeded'']
      \<and> w \<notin> set (connections (snd (feed rt w frames s)))
      \<and> closed (controllers (snd (feed rt w frames s)) w)
      \<and> queue (controllers (snd (feed rt w frames s)) w)
          = queue (controllers s w) @ delivered rt (butlast frames))"
proof (intro conjI impI)
  assume a: "tR - messageWindowStart (metas s w) > RATE_LIMIT_WINDOW_MS"
  show "fst (isRateLimited tR ((metas s w)\<lparr> lastActivity := tA \<rparr>)) = False"
    using a by (simp add: isRateLimited_def Let_def)
  show "fst (on_message rt w tA tR frame s) = None"
    by (simp add: on_message_reset[OF a] Let_def split: option.splits)
  show "messageCount (metas (snd (on_message rt w tA tR frame s)) w) = 1"
    by (simp add: on_message_reset[OF a] Let_def controller_enqueue_fields split: option.splits)
  show "messageWindowStart (metas (snd (on_message rt w tA tR frame s)) w) = tR"
    by (simp add: on_message_reset[OF a] Let_def controller_enqueue_fields split: option.splits)
  show "sock_log (snd (on_message rt w tA tR frame s)) = sock_log s"
    by (simp add: on_message_reset[OF a] Let_def controller_enqueue_fields split: option.splits)
  show "connections (snd (on_message rt w tA tR frame s)) = connections s"
    by (simp add: on_message_reset[OF a] Let_def controller_enqueue_fields split: option.splits)
  show "queue (controllers (snd (on_message rt w tA tR frame s)) w) = queue (controllers s w) @ [msg]"
    if "JSON_parse rt frame = Some msg \<and> \<not> is_ping_pong msg \<and> \<not> closed (controllers s w)"
    using that by (simp add: on_message_reset[OF a] Let_def controller_enqueue_def)
next
  assume p: "tR - messageWindowStart (metas s w) \<le> RATE_LIMIT_WINDOW_MS
        \<and> messageCount (metas s w) + 1 \<le> RATE_LIMIT_MESSAGES"
  then have p1: "tR - messageWindowStart (metas s w) \<le> RATE_LIMIT_WINDOW_MS"
    and p2: "messageCount (metas s w) + 1 \<le> RATE_LIMIT_MESSAGES" by simp_all
  note eq = on_message_passed[OF p1 p2]
  show "fst (isRateLimited tR ((metas s w)\<lparr> lastActivity := tA \<rparr>)) = False"
    using p1 p2 by (simp add: isRateLimited_def Let_def)
  show "fst (on_message rt w tA tR frame s) = None"
    by (simp add: eq Let_def split: option.splits)
  show "messageCount (metas (snd (on_message rt w tA tR frame s)) w)
          = messageCount (metas s w) + 1"
    by (simp add: eq Let_def controller_enqueue_fields split: option.splits)
  show "messageWindowStart (metas (snd (on_message rt w tA tR frame s)) w)
          = messageWindowStart (metas s w)"
    by (simp add: eq Let_def controller_enqueue_fields split: option.splits)
  show "sock_log (snd (on_message rt w tA tR frame s)) = sock_log s"
    by (simp add: eq Let_def controller_enqueue_fields split: option.splits)
  show "connections (snd (on_message rt w tA tR frame s)) = connections s"
    by (simp add: eq Let_def controller_enqueue_fields split: option.splits)
  show "queue (controllers (snd (on_message rt w tA tR frame s)) w) = queue (controllers s w) @ [msg]"
    if "JSON_parse rt frame = Some msg \<and> \<not> is_ping_pong msg \<and> \<not> closed (controllers s w)"
    using that by (simp add: eq Let_def controller_enqueue_def)
next
  assume b: "tR - messageWindowStart (metas s w) \<le> RATE_LIMIT_WINDOW_MS
        \<and> messageCount (metas s w) + 1 > RATE_LIMIT_MESSAGES"
  then have b1: "\<not> tR - messageWindowStart (metas s w) > RATE_LIMIT_WINDOW_MS"
    and b2: "messageCount (metas s w) + 1 > RATE_LIMIT_MESSAGES" by simp_all
  note eq = on_message_limited[OF b1 b2]
  show "fst (isRateLimited tR ((metas s w)\<lparr> lastActivity := tA \<rparr>)) = True"
    using b1 b2 by (simp add: isRateLimited_def Let_def)
  show "messageCount (metas (snd (on_message rt w tA tR frame s)) w)
          = messageCount (metas s w) + 1"
    by (simp add: eq controller_close_fields closeConnection_metas)
  show "sock_log (snd (on_message rt w tA tR frame s))
        = sock_log s @ [SockClose w 1008 ''Rate limit exceeded'']"
    by (simp add: eq controller_close_fields closeConnection_log)
  show "w \<notin> set (connections (snd (on_message rt w tA tR frame s)))"
    by (simp add: eq controller_close_fields closeConnection_connections)
  show "closed (controllers (snd (on_message rt w tA tR frame s)) w)"
    by (simp add: eq controller_close_def closeConnection_controllers)
  show "queue (controllers (snd (on_message rt w tA tR frame s)) w) = queue (controllers s w)"
    by (simp add: eq controller_close_fields closeConnection_controllers)
next
  assume c: "list_all (in_window (messageWindowStart (metas s w))) frames
        \<and> \<not> closed (controllers s w)
        \<and> messageCount (metas s w) + int (length frames) \<le> RATE_LIMIT_MESSAGES"
  then have c1: "list_all (in_window (messageWindowStart (metas s w))) frames"
    and c2: "\<not> closed (controllers s w)"
    and c3: "messageCount (metas s w) + int (length frames) \<le> RATE_LIMIT_MESSAGES"
    by simp_all
  from feed_below_limit[OF c1 c3 c2, of rt] obtain s' where
    f: "feed rt w frames s = (None, s')" and l: "sock_log s' = sock_log s"
    and k: "connections s' = connections s"
    and ws: "messageWindowStart (metas s' w) = messageWindowStart (metas s w)"
    and m: "messageCount (metas s' w) = messageCount (metas s w) + int (length frames)"
    and q: "queue (controllers s' w) = queue (controllers s w) @ delivered rt frames"
    by blast
  show "fst (feed rt w frames s) = None" by (simp add: f)
  show "sock_log (snd (feed rt w frames s)) = sock_log s" by (simp add: f l)
  show "connections (snd (feed rt w frames s)) = connections s" by (simp add: f k)
  show "messageWindowStart (metas (snd (feed rt w frames s)) w)
          = messageWindowStart (metas s w)" by (simp add: f ws)
  show "messageCount (metas (snd (feed rt w frames s)) w)
          = messageCount (metas s w) + int (length frames)" by (simp add: f m)
  show "queue (controllers (snd (feed rt w frames s)) w)
          = queue (controllers s w) @ delivered rt frames" by (simp add: f q)
next
  assume d: "list_all (in_window (messageWindowStart (metas s w))) frames
        \<and> \<not> closed (controllers s w) \<and> frames \<noteq> []
        \<and> messageCount (metas s w) + int (length frames) = RATE_LIMIT_MESSAGES + 1"
  then have d1: "list_all (in_window (messageWindowStart (metas s w))) frames"
    and d2: "\<not> closed (controllers s w)" and d3: "frames \<noteq> []"
    and d4: "messageCount (metas s w) + int (length frames) = RATE_LIMIT_MESSAGES + 1"
    by simp_all
  note r = feed_over_limit[OF d1 d3 d4 d2, of rt]
  show "fst (feed rt w frames s) = None" using r by simp
  show "sock_log (snd (feed rt w frames s))
          = sock_log s @ [SockClose w 1008 ''Rate limit exceeded'']" using r by simp
  show "w \<notin> set (connections (snd (feed rt w frames s)))" using r by simp
  show "closed (controllers (snd (feed rt w frames s)) w)" using r by simp
  show "queue (controllers (snd (feed rt w frames s)) w)
          = queue (controllers s w) @ delivered rt (butlast frames)" using r by simp
qed

lemma butlast_replicate_Suc: "butlast (replicate (Suc n) x) = replicate n x"
  by (induction n) simp_all

lemma sample_request_delivered:
  "delivered sample_runtime (replicate n (5, 5, request_frame))
     = replicate n (JObj [(js ''jsonrpc'', JStr (js ''2.0'')), (js ''id'', JNum 1),
            (js ''method'', JStr (js ''initialize''))])"
  by (simp add: delivered_def map_filter_replicate bridge_message_def sample_runtime_def
        sample_parse_frames)

lemma sample_request_in_window:
  "list_all (in_window (messageWindowStart (metas one_connection 7)))
     (replicate n (5, 5, request_frame))"
  by (simp add: list_all_iff one_connection_fields in_window_def RATE_LIMIT_WINDOW_MS_def)

theorem rate_limit_window_reset_and_closure_witness:
  "fst (on_message sample_runtime 7 60001 60001 request_frame one_connection) = None
   \<and> messageCount (metas (snd (on_message sample_runtime 7 60001 60001 request_frame
        one_connection)) 7) = 1
   \<and> messageWindowStart (metas (snd (on_message sample_runtime 7 60001 60001 request_frame
        one_connection)) 7) = 60001
   \<and> queue (controllers (snd (on_message sample_runtime 7 60001 60001 request_frame
        one_connection)) 7)
        = [JObj [(js ''jsonrpc'', JStr (js ''2.0'')), (js ''id'', JNum 1),
            (js ''method'', JStr (js ''initialize''))]]
   \<and> messageCount (metas (snd (on_message sample_runtime 7 5 5 request_frame
        one_connection)) 7) = 1
   \<and> messageWindowStart (metas (snd (on_message sample_runtime 7 5 5 request_frame
        one_connection)) 7) = 0
   \<and> sock_log (snd (feed sample_runtime 7 (replicate 100 (5, 5, request_frame))
        one_connection)) = []
   \<and> connections (snd (feed sample_runtime 7 (replicate 100 (5, 5, request_frame))
        one_connection)) = [7]
   \<and> messageCount (metas (snd (feed sample_runtime 7 (replicate 100 (5, 5, request_frame))
        one_connection)) 7) = 100
   \<and> queue (controllers (snd (feed sample_runtime 7 (replicate 100 (5, 5, request_frame))
        one_connection)) 7)
        = replicate 100 (JObj [(js ''jsonrpc'', JStr (js ''2.0'')), (js ''id'', JNum 1),
            (js ''method'', JStr (js ''initialize''))])
   \<and> sock_log (snd (feed sample_runtime 7 (replicate 101 (5, 5, request_frame))
        one_connection)) = [SockClose 7 1008 ''Rate limit exceeded'']
   \<and> 7 \<notin> set (connections (snd (feed sample_runtime 7 (replicate 101 (5, 5, request_frame))
        one_connection)))
   \<and> queue (controllers (snd (feed sample_runtime 7 (replicate 101 (5, 5, request_frame))
        one_connection)) 7)
        = replicate 100 (JObj [(js ''jsonrpc'', JStr (js ''2.0'')), (js ''id'', JNum 1),
            (js ''method'', JStr (js ''initialize''))])
   \<and> messageCount (metas (snd (on_message sample_runtime 7 5 5 request_frame
        (snd (feed sample_runtime 7 (replicate 100 (5, 5, request_frame)) one_connection)))) 7)
        = 101
   \<and> sock_log (snd (on_message sample_runtime 7 5 5 request_frame
        (snd (feed sample_runtime 7 (replicate 100 (5, 5, request_frame)) one_connection))))
        = [SockClose 7 1008 ''Rate limit exceeded'']
   \<and> queue (controllers (snd (on_message sample_runtime 7 5 5 request_frame
        (snd (feed sample_runtime 7 (replicate 100 (5, 5, request_frame)) one_connection)))) 7)
        = replicate 100 (JObj [(js ''jsonrpc'', JStr (js ''2.0'')), (js ''id'', JNum 1),
            (js ''method'', JStr (js ''initialize''))])"
proof -
  let ?M = "JObj [(js ''jsonrpc'', JStr (js ''2.0'')), (js ''id'', JNum 1),
            (js ''method'', JStr (js ''initialize''))]"
  have p: "JSON_parse sample_runtime request_frame = Some ?M"
    by (simp add: sample_runtime_def sample_parse_frames)
  have np: "\<not> is_ping_pong ?M" by (simp add: is_ping_pong_def)
  note one = rate_limit_window_reset_and_closure
          [of 60001 one_connection 7 60001 sample_runtime request_frame ?M
              "replicate 100 (5, 5, request_frame)"]
  note two = rate_limit_window_reset_and_closure
          [of 5 one_connection 7 5 sample_runtime request_frame ?M
              "replicate 101 (5, 5, request_frame)"]
  have bl: "butlast (replicate 101 (5::int, 5::int, request_frame))
              = replicate 100 (5, 5, request_frame)"
    using butlast_replicate_Suc[of 100 "(5::int, 5::int, request_frame)"] by simp
  from one p np have a:
    "fst (on_message sample_runtime 7 60001 60001 request_frame one_connection) = None"
    "messageCount (metas (snd (on_message sample_runtime 7 60001 60001 request_frame
        one_connection)) 7) = 1"
    "messageWindowStart (metas (snd (on_message sample_runtime 7 60001 60001 request_frame
        one_connection)) 7) = 60001"
    "queue (controllers (snd (on_message sample_runtime 7 60001 60001 request_frame
        one_connection)) 7) = [?M]"
    by (simp_all add: one_connection_fields RATE_LIMIT_WINDOW_MS_def)
  from one sample_request_in_window[of 100] have b:
    "sock_log (snd (feed sample_runtime 7 (replicate 100 (5, 5, request_frame))
        one_connection)) = []"
    "connections (snd (feed sample_runtime 7 (replicate 100 (5, 5, request_frame))
        one_connection)) = [7]"
    "messageCount (metas (snd (feed sample_runtime 7 (replicate 100 (5, 5, request_frame))
        one_connection)) 7) = 100"
    "queue (controllers (snd (feed sample_runtime 7 (replicate 100 (5, 5, request_frame))
        one_connection)) 7) = replicate 100 ?M"
    by (simp_all add: one_connection_fields RATE_LIMIT_MESSAGES_def sample_request_delivered)
  from two have c:
    "messageCount (metas (snd (on_message sample_runtime 7 5 5 request_frame
        one_connection)) 7) = 1"
    "messageWindowStart (metas (snd (on_message sample_runtime 7 5 5 request_frame
        one_connection)) 7) = 0"
    by (simp_all add: one_connection_fields RATE_LIMIT_WINDOW_MS_def RATE_LIMIT_MESSAGES_def)
  from two sample_request_in_window[of 101] have d:
    "sock_log (snd (feed sample_runtime 7 (replicate 101 (5, 5, request_frame))
        one_connection)) = [SockClose 7 1008 ''Rate limit exceeded'']"
    "7 \<notin> set (connections (snd (feed sample_runtime 7 (replicate 101 (5, 5, request_frame))
        one_connection)))"
    "queue (controllers (snd (feed sample_runtime 7 (replicate 101 (5, 5, request_frame))
        one_connection)) 7) = replicate 100 ?M"
    by (simp_all add: one_connection_fields RATE_LIMIT_MESSAGES_def sample_request_delivered bl)
  let ?s100 = "snd (feed sample_runtime 7 (replicate 100 (5, 5, request_frame))
                 one_connection)"
  from one sample_request_in_window[of 100] have w100:
    "messageWindowStart (metas ?s100 7) = 0"
    by (simp add: one_connection_fields RATE_LIMIT_MESSAGES_def)
  note three = rate_limit_window_reset_and_closure
          [of 5 ?s100 7 5 sample_runtime request_frame ?M "[]"]
  from three have e:
    "messageCount (metas (snd (on_message sample_runtime 7 5 5 request_frame ?s100)) 7) = 101"
    "sock_log (snd (on_message sample_runtime 7 5 5 request_frame ?s100))
       = [SockClose 7 1008 ''Rate limit exceeded'']"
    "queue (controllers (snd (on_message sample_runtime 7 5 5 request_frame ?s100)) 7)
       = replicate 100 ?M"
    by (simp_all add: w100 b RATE_LIMIT_WINDOW_MS_def RATE_LIMIT_MESSAGES_def)
  from a b c d e show ?thesis by (intro conjI)
qed

subsection \<open>Control frames\<close>

lemma on_message_metas:
  "metas (snd (on_message rt w tA tR frame s)) =
     (metas s)(w := snd (isRateLimited tR ((metas s w)\<lparr> lastActivity := tA \<rparr>)))"
  by (simp add: on_message_def Let_def controller_close_fields closeConnection_metas
        controller_enqueue_fields split: option.splits)

lemma on_message_control_queue:
  assumes "JSON_parse rt frame = Some msg" and "control_object msg"
  shows "queue (controllers (snd (on_message rt w tA tR frame s)) w') = queue (controllers s w')"
  using assms control_object_ping_pong[OF assms(2)]
  by (simp add: on_message_def Let_def controller_close_fields closeConnection_controllers)

lemma on_message_control_counted:
  assumes "JSON_parse rt frame = Some msg" and "control_object msg"
    and "tR - messageWindowStart (metas s w) \<le> RATE_LIMIT_WINDOW_MS"
    and "messageCount (metas s w) + 1 \<le> RATE_LIMIT_MESSAGES"
  shows "on_message rt w tA tR frame s =
           (None, s\<lparr> metas := (metas s)(w := (metas s w)\<lparr> lastActivity := tA,
                        messageCount := messageCount (metas s w) + 1 \<rparr>) \<rparr>)"
  using assms control_object_ping_pong[OF assms(2)]
  by (simp add: on_message_def isRateLimited_def Let_def)

lemma feed_control_below_limit:
  assumes "list_all (control_frame rt (messageWindowStart (metas s w))) frames"
    and "messageCount (metas s w) + int (length frames) \<le> RATE_LIMIT_MESSAGES"
  shows "\<exists>s'. feed rt w frames s = (None, s') \<and> sock_log s' = sock_log s
           \<and> connections s' = connections s \<and> controllers s' = controllers s
           \<and> messageWindowStart (metas s' w) = messageWindowStart (metas s w)
           \<and> messageCount (metas s' w) = messageCount (metas s w) + int (length frames)"
  using assms
proof (induction frames arbitrary: s)
  case Nil
  show ?case by simp
next
  case (Cons x frames)
  obtain tA tR fr where x: "x = (tA, tR, fr)" by (cases x) auto
  from Cons.prems(1) obtain msg where
    p: "JSON_parse rt fr = Some msg" "control_object msg"
    and t: "tR - messageWindowStart (metas s w) \<le> RATE_LIMIT_WINDOW_MS"
    by (auto simp: x control_frame_def split: option.splits)
  from Cons.prems(2) have c: "messageCount (metas s w) + 1 \<le> RATE_LIMIT_MESSAGES" by simp
  let ?s1 = "s\<lparr> metas := (metas s)(w := (metas s w)\<lparr> lastActivity := tA,
                        messageCount := messageCount (metas s w) + 1 \<rparr>) \<rparr>"
  have step: "on_message rt w tA tR fr s = (None, ?s1)"
    by (rule on_message_control_counted[OF p t c])
  have "list_all (control_frame rt (messageWindowStart (metas ?s1 w))) frames"
    using Cons.prems(1) by simp
  moreover have "messageCount (metas ?s1 w) + int (length frames) \<le> RATE_LIMIT_MESSAGES"
    using Cons.prems(2) by simp
  ultimately obtain s' where
    "feed rt w frames ?s1 = (None, s')" "sock_log s' = sock_log ?s1"
    "connections s' = connections ?s1" "controllers s' = controllers ?s1"
    "messageWindowStart (metas s' w) = messageWindowStart (metas ?s1 w)"
    "messageCount (metas s' w) = messageCount (metas ?s1 w) + int (length frames)"
    using Cons.IH[of ?s1] by blast
  then show ?case by (simp add: x step)
qed

text \<open>
  Claim C10. A frame that parses to an object of type \<^verbatim>\<open>'ping'\<close> or \<^verbatim>\<open>'pong'\<close> sets the
  last activity of its connection to the clock reading and is counted in the rate
  window (the counter goes up by one, or to 1 when the window starts again), and the
  queue of the bridge is as before. So 101 such frames inside the first window of a
  connection that has counted nothing yet close it with code 1008, with nothing
  enqueued.
\<close>

theorem control_frames_counted_not_delivered:
  "(JSON_parse rt frame = Some msg \<and> control_object msg \<longrightarrow>
      lastActivity (metas (snd (on_message rt w tA tR frame s)) w) = tA
      \<and> messageCount (metas (snd (on_message rt w tA tR frame s)) w)
          = (if tR - messageWindowStart (metas s w) > RATE_LIMIT_WINDOW_MS then 1
             else messageCount (metas s w) + 1)
      \<and> queue (controllers (snd (on_message rt w tA tR frame s)) w) = queue (controllers s w))
   \<and> (length frames = 101 \<and> messageCount (metas s w) = 0 \<and> \<not> closed (controllers s w)
        \<and> list_all (control_frame rt (messageWindowStart (metas s w))) frames \<longrightarrow>
      fst (feed rt w frames s) = None
      \<and> sock_log (snd (feed rt w frames s)) = sock_log s @ [SockClose w 1008 ''Rate limit exceeded'']
      \<and> w \<notin> set (connections (snd (feed rt w frames s)))
      \<and> queue (controllers (snd (feed rt w frames s)) w) = queue (controllers s w))"
proof (intro conjI impI)
  assume a: "JSON_parse rt frame = Some msg \<and> control_object msg"
  show "lastActivity (metas (snd (on_message rt w tA tR frame s)) w) = tA"
    by (simp add: on_message_metas isRateLimited_def Let_def)
  show "messageCount (metas (snd (on_message rt w tA tR frame s)) w)
          = (if tR - messageWindowStart (metas s w) > RATE_LIMIT_WINDOW_MS then 1
             else messageCount (metas s w) + 1)"
    by (simp add: on_message_metas isRateLimited_def Let_def)
  show "queue (controllers (snd (on_message rt w tA tR frame s)) w) = queue (controllers s w)"
    using a by (simp add: on_message_control_queue)
next
  assume b: "length frames = 101 \<and> messageCount (metas s w) = 0 \<and> \<not> closed (controllers s w)
        \<and> list_all (control_frame rt (messageWindowStart (metas s w))) frames"
  then have len: "length frames = 101" and c0: "messageCount (metas s w) = 0"
    and op: "\<not> closed (controllers s w)"
    and all: "list_all (control_frame rt (messageWindowStart (metas s w))) frames"
    by simp_all
  from len have ne: "frames \<noteq> []" by auto
  define init where "init = butlast frames"
  obtain tA' tR' fr' where lst: "last frames = (tA', tR', fr')" by (cases "last frames") auto
  have split: "frames = init @ [(tA', tR', fr')]"
    using append_butlast_last_id[OF ne] lst by (simp add: init_def)
  have linit: "length init = 100" using len by (simp add: init_def)
  have both: "list_all (control_frame rt (messageWindowStart (metas s w))) (init @ [(tA', tR', fr')])"
    using all split by simp
  have ainit: "list_all (control_frame rt (messageWindowStart (metas s w))) init"
    using both by simp
  have alast: "control_frame rt (messageWindowStart (metas s w)) (tA', tR', fr')"
    using both by simp
  have "messageCount (metas s w) + int (length init) \<le> RATE_LIMIT_MESSAGES"
    by (simp add: c0 linit RATE_LIMIT_MESSAGES_def)
  from feed_control_below_limit[OF ainit this] obtain s1 where
    f1: "feed rt w init s = (None, s1)" and l1: "sock_log s1 = sock_log s"
    and c1: "connections s1 = connections s" and k1: "controllers s1 = controllers s"
    and w1: "messageWindowStart (metas s1 w) = messageWindowStart (metas s w)"
    and m1: "messageCount (metas s1 w) = messageCount (metas s w) + int (length init)"
    by blast
  have t1: "\<not> tR' - messageWindowStart (metas s1 w) > RATE_LIMIT_WINDOW_MS"
    using alast by (simp add: control_frame_def w1)
  have over: "messageCount (metas s1 w) + 1 > RATE_LIMIT_MESSAGES"
    by (simp add: m1 c0 linit RATE_LIMIT_MESSAGES_def)
  note eq = on_message_limited[OF t1 over, of rt tA' fr']
  have feed_eq: "feed rt w frames s = on_message rt w tA' tR' fr' s1"
    by (subst split) (simp add: feed_append f1 split: prod.splits option.splits)
  have fst_ok: "fst (on_message rt w tA' tR' fr' s1) = None"
    by (simp add: eq controller_close_def closeConnection_controllers k1 op)
  show "fst (feed rt w frames s) = None" by (simp add: feed_eq fst_ok)
  show "sock_log (snd (feed rt w frames s)) = sock_log s @ [SockClose w 1008 ''Rate limit exceeded'']"
    by (simp add: feed_eq eq controller_close_fields closeConnection_log l1)
  show "w \<notin> set (connections (snd (feed rt w frames s)))"
    by (simp add: feed_eq eq controller_close_fields closeConnection_connections)
  show "queue (controllers (snd (feed rt w frames s)) w) = queue (controllers s w)"
    by (simp add: feed_eq eq controller_close_fields closeConnection_controllers k1)
qed

theorem control_frames_counted_not_delivered_witness:
  "lastActivity (metas (snd (on_message sample_runtime 7 7 7 ping_frame one_connection)) 7) = 7
   \<and> messageCount (metas (snd (on_message sample_runtime 7 7 7 ping_frame one_connection)) 7) = 1
   \<and> queue (controllers (snd (on_message sample_runtime 7 7 7 ping_frame one_connection)) 7) = []
   \<and> fst (feed sample_runtime 7 (replicate 101 (7, 7, ping_frame)) one_connection) = None
   \<and> sock_log (snd (feed sample_runtime 7 (replicate 101 (7, 7, ping_frame)) one_connection))
        = [SockClose 7 1008 ''Rate limit exceeded'']
   \<and> 7 \<notin> set (connections (snd (feed sample_runtime 7 (replicate 101 (7, 7, ping_frame))
        one_connection)))
   \<and> queue (controllers (snd (feed sample_runtime 7 (replicate 101 (7, 7, ping_frame))
        one_connection)) 7) = []"
proof -
  have p: "JSON_parse sample_runtime ping_frame = Some (JObj [(js ''type'', JStr (js ''ping''))])"
    by (simp add: sample_runtime_def sample_parse_frames)
  have c: "control_frame sample_runtime 0 (7, 7, ping_frame)"
    by (simp add: control_frame_def p RATE_LIMIT_WINDOW_MS_def)
  have l: "list_all (control_frame sample_runtime (messageWindowStart (metas one_connection 7)))
             (replicate 101 (7, 7, ping_frame))"
    by (simp add: list_all_iff one_connection_fields c)
  show ?thesis
    using control_frames_counted_not_delivered
            [of sample_runtime ping_frame "JObj [(js ''type'', JStr (js ''ping''))]" 7 7 7 one_connection
                "replicate 101 (7, 7, ping_frame)"] p l
    by (simp add: one_connection_fields RATE_LIMIT_WINDOW_MS_def)
qed

subsection \<open>Close codes\<close>

lemma idle_fold:
  "sock_log (fold (idle_step now) ws s) =
     sock_log s @ map (\<lambda>w. SockClose w 1001 ''Idle timeout'')
       (filter (\<lambda>w. now - lastActivity (metas s w) > IDLE_TIMEOUT_MS) ws)
   \<and> metas (fold (idle_step now) ws s) = metas s"
  by (induction ws arbitrary: s)
     (simp_all add: idle_step_def Let_def closeConnection_log closeConnection_metas)

lemma shutdown_fold:
  "sock_log (fold (\<lambda>w. closeConnection w c r) ws s) =
     sock_log s @ map (\<lambda>w. SockClose w c r) ws"
  by (induction ws arbitrary: s) (simp_all add: closeConnection_log)

lemma heartbeat_step_log:
  "sock_log (heartbeat_step p w s) = sock_log s @ [heartbeat_event p s w]"
  by (simp add: heartbeat_step_def heartbeat_event_def Let_def closeConnection_log)

lemma heartbeat_step_other:
  "w' \<noteq> w \<Longrightarrow> metas (heartbeat_step p w s) w' = metas s w'"
  by (simp add: heartbeat_step_def Let_def closeConnection_metas)

lemma heartbeat_fold:
  "distinct ws \<Longrightarrow>
   sock_log (fold (heartbeat_step p) ws s) = sock_log s @ map (heartbeat_event p s) ws
   \<and> (\<forall>w'. w' \<notin> set ws \<longrightarrow> metas (fold (heartbeat_step p) ws s) w' = metas s w')"
proof (induction ws arbitrary: s)
  case Nil
  show ?case by simp
next
  case (Cons w ws)
  then have d: "distinct ws" and nin: "w \<notin> set ws" by simp_all
  let ?s1 = "heartbeat_step p w s"
  have same: "map (heartbeat_event p ?s1) ws = map (heartbeat_event p s) ws"
  proof (rule map_cong[OF refl])
    fix w' assume "w' \<in> set ws"
    then have "w' \<noteq> w" using nin by auto
    then show "heartbeat_event p ?s1 w' = heartbeat_event p s w'"
      by (simp add: heartbeat_event_def heartbeat_step_other)
  qed
  from Cons.IH[OF d, of ?s1] show ?case
    by (simp add: heartbeat_step_log same heartbeat_step_other)
qed

text \<open>
  Claim C1 says that the close codes of the eviction conditions are pairwise distinct.
  They are not: an idle timeout, a ping timeout, a pong timeout and the shutdown all
  close with 1001. Here one connection is closed by the idle check, by the second
  heartbeat after a ping that got no pong, by the pong timeout and by the shutdown.
\<close>

theorem close_codes_shared_counterexample:
  "close_codes (sock_log (idleCheck 300001 one_connection)) = [1001]
   \<and> close_codes (sock_log (heartbeat (\<lambda>w. False) (heartbeat (\<lambda>w. False) one_connection)))
        = [1001]
   \<and> close_codes (sock_log (pongTimeoutCallback 7 (heartbeat (\<lambda>w. False) one_connection)))
        = [1001]
   \<and> close_codes (sock_log (gracefulShutdown one_connection)) = [1001]"
  by (simp add: idleCheck_def idle_step_def heartbeat_def heartbeat_step_def
        pongTimeoutCallback_def gracefulShutdown_def closeConnection_def
        clear_ping_timeout_def connections_get_def one_connection_def onConnection_def
        server_start_def MAX_CONNECTIONS_def IDLE_TIMEOUT_MS_def Let_def)

text \<open>
  Claim C1 as amended. The rate limit closes with 1008 and the rejection of a
  connection by a full server with 1013. The idle check, the heartbeat that finds a
  connection not alive, the pong timeout and the shutdown all close with 1001; only the
  reason tells them apart (\<^verbatim>\<open>Idle timeout\<close>, \<^verbatim>\<open>Ping timeout\<close>, \<^verbatim>\<open>Pong timeout\<close>,
  \<^verbatim>\<open>Server shutting down\<close>). A ping that throws closes with 1011.
\<close>

theorem close_codes_by_condition:
  "sock_log (idleCheck now s) =
      sock_log s @ map (\<lambda>w. SockClose w 1001 ''Idle timeout'')
        (filter (\<lambda>w. now - lastActivity (metas s w) > IDLE_TIMEOUT_MS) (connections s))
   \<and> (distinct (connections s) \<longrightarrow>
        sock_log (heartbeat ping_throws s) =
          sock_log s @ map (\<lambda>w. if \<not> isAlive (metas s w) then SockClose w 1001 ''Ping timeout''
                                  else if ping_throws w then SockClose w 1011 ''Ping failed''
                                  else SockPing w) (connections s))
   \<and> sock_log (pongTimeoutCallback w s) =
        (if w \<in> set (connections s) then sock_log s @ [SockClose w 1001 ''Pong timeout'']
         else sock_log s)
   \<and> sock_log (gracefulShutdown s) =
        sock_log s @ map (\<lambda>w. SockClose w 1001 ''Server shutting down'') (connections s)
   \<and> (length (connections s) \<ge> MAX_CONNECTIONS \<longrightarrow>
        sock_log (onConnection w ident t1 t2 t3 s) = sock_log s @ [SockClose w 1013 ''Server overloaded''])
   \<and> (fst (isRateLimited tR ((metas s w)\<lparr> lastActivity := tA \<rparr>)) \<longrightarrow>
        sock_log (snd (on_message rt w tA tR frame s)) =
          sock_log s @ [SockClose w 1008 ''Rate limit exceeded''])"
proof (intro conjI impI)
  show "sock_log (idleCheck now s) =
      sock_log s @ map (\<lambda>w. SockClose w 1001 ''Idle timeout'')
        (filter (\<lambda>w. now - lastActivity (metas s w) > IDLE_TIMEOUT_MS) (connections s))"
    by (simp add: idleCheck_def idle_fold)
  show "sock_log (pongTimeoutCallback w s) =
        (if w \<in> set (connections s) then sock_log s @ [SockClose w 1001 ''Pong timeout'']
         else sock_log s)"
    by (simp add: pongTimeoutCallback_def closeConnection_log)
  show "sock_log (gracefulShutdown s) =
        sock_log s @ map (\<lambda>w. SockClose w 1001 ''Server shutting down'') (connections s)"
    by (simp add: gracefulShutdown_def Let_def shutdown_fold)
next
  assume "distinct (connections s)"
  from heartbeat_fold[OF this, of ping_throws s]
  have "sock_log (heartbeat ping_throws s) =
          sock_log s @ map (heartbeat_event ping_throws s) (connections s)"
    by (simp add: heartbeat_def)
  moreover have "heartbeat_event ping_throws s =
     (\<lambda>w. if \<not> isAlive (metas s w) then SockClose w 1001 ''Ping timeout''
           else if ping_throws w then SockClose w 1011 ''Ping failed'' else SockPing w)"
    by (rule ext) (simp add: heartbeat_event_def)
  ultimately show "sock_log (heartbeat ping_throws s) =
          sock_log s @ map (\<lambda>w. if \<not> isAlive (metas s w) then SockClose w 1001 ''Ping timeout''
                                  else if ping_throws w then SockClose w 1011 ''Ping failed''
                                  else SockPing w) (connections s)"
    by simp
next
  assume "length (connections s) \<ge> MAX_CONNECTIONS"
  then show "sock_log (onConnection w ident t1 t2 t3 s) = sock_log s @ [SockClose w 1013 ''Server overloaded'']"
    by (simp add: onConnection_def)
next
  assume "fst (isRateLimited tR ((metas s w)\<lparr> lastActivity := tA \<rparr>))"
  then show "sock_log (snd (on_message rt w tA tR frame s)) =
          sock_log s @ [SockClose w 1008 ''Rate limit exceeded'']"
    by (simp add: on_message_def Let_def controller_close_fields closeConnection_log)
qed

theorem close_codes_by_condition_witness:
  "sock_log (idleCheck 300001 one_connection) = [SockClose 7 1001 ''Idle timeout'']
   \<and> sock_log (heartbeat (\<lambda>w. False) one_connection) = [SockPing 7]
   \<and> sock_log (pongTimeoutCallback 7 one_connection) = [SockClose 7 1001 ''Pong timeout'']
   \<and> sock_log (gracefulShutdown one_connection) = [SockClose 7 1001 ''Server shutting down'']
   \<and> sock_log (onConnection 21 ''conn_21'' 0 0 0 full_house)
        = [SockClose 21 1013 ''Server overloaded'']
   \<and> sock_log (snd (on_message sample_runtime 7 5 5 request_frame busy_connection))
        = [SockClose 7 1008 ''Rate limit exceeded'']"
proof -
  have full: "connections full_house = [11, 12, 13, 14, 15, 16, 17, 18, 19, 20]" "sock_log full_house = []"
    by (simp_all add: full_house_def onConnection_def server_start_def MAX_CONNECTIONS_def)
  have lim: "fst (isRateLimited 5 ((metas busy_connection 7)\<lparr> lastActivity := 5 \<rparr>))"
    by (simp add: isRateLimited_def busy_connection_fields Let_def RATE_LIMIT_WINDOW_MS_def
          RATE_LIMIT_MESSAGES_def)
  have a: "sock_log (idleCheck 300001 one_connection) = [SockClose 7 1001 ''Idle timeout'']"
    using close_codes_by_condition[of 300001 one_connection]
    by (simp add: one_connection_fields IDLE_TIMEOUT_MS_def)
  have b: "sock_log (heartbeat (\<lambda>w. False) one_connection) = [SockPing 7]"
    using close_codes_by_condition[of _ one_connection "\<lambda>w. False"]
    by (simp add: one_connection_fields)
  have c: "sock_log (pongTimeoutCallback 7 one_connection) = [SockClose 7 1001 ''Pong timeout'']"
    using close_codes_by_condition[of _ one_connection _ 7]
    by (simp add: one_connection_fields)
  have d: "sock_log (gracefulShutdown one_connection) = [SockClose 7 1001 ''Server shutting down'']"
    using close_codes_by_condition[of _ one_connection]
    by (simp add: one_connection_fields)
  have e: "sock_log (onConnection 21 ''conn_21'' 0 0 0 full_house)
             = [SockClose 21 1013 ''Server overloaded'']"
    using close_codes_by_condition[of _ full_house _ 21 "''conn_21''" 0 0 0]
    by (simp add: full MAX_CONNECTIONS_def)
  have f: "sock_log (snd (on_message sample_runtime 7 5 5 request_frame busy_connection))
             = [SockClose 7 1008 ''Rate limit exceeded'']"
    using close_codes_by_condition[of _ busy_connection _ 7 _ _ _ _ 5 5 sample_runtime request_frame] lim
    by (simp add: busy_connection_fields)
  from a b c d e f show ?thesis by simp
qed

subsection \<open>Pong timeout after removal\<close>

lemma idle_step_fields:
  "connections (idle_step now w s) =
     (if now - lastActivity (metas s w) > IDLE_TIMEOUT_MS then removeAll w (connections s)
      else connections s)"
  "metas (idle_step now w s) = metas s"
  by (simp_all add: idle_step_def Let_def closeConnection_connections closeConnection_metas)

lemma idle_fold_connections:
  "set (connections (fold (idle_step now) ws s)) =
     set (connections s) - {w \<in> set ws. now - lastActivity (metas s w) > IDLE_TIMEOUT_MS}
   \<and> metas (fold (idle_step now) ws s) = metas s"
proof (induction ws arbitrary: s)
  case Nil
  show ?case by simp
next
  case (Cons w ws)
  have "fold (idle_step now) (w # ws) s = fold (idle_step now) ws (idle_step now w s)" by simp
  then show ?case
    using Cons.IH[of "idle_step now w s"] by (auto simp: idle_step_fields)
qed

text \<open>
  Claim C9: when the callback of a pong timeout runs for a socket that is no longer in
  the registry, the state after is the state before: no socket is closed, the registry
  and the timers are as they were; and the callback calls nothing that can throw. In
  particular this is so after an idle check that found the connection idle.
\<close>

theorem pong_timeout_after_removal_is_noop:
  "(w \<notin> set (connections s) \<longrightarrow> pongTimeoutCallback w s = s)
   \<and> (now - lastActivity (metas s w) > IDLE_TIMEOUT_MS \<longrightarrow>
        pongTimeoutCallback w (idleCheck now s) = idleCheck now s)"
proof (intro conjI impI)
  assume "w \<notin> set (connections s)"
  then show "pongTimeoutCallback w s = s" by (simp add: pongTimeoutCallback_def)
next
  assume "now - lastActivity (metas s w) > IDLE_TIMEOUT_MS"
  then have "w \<notin> set (connections (idleCheck now s))"
    by (simp add: idleCheck_def idle_fold_connections)
  then show "pongTimeoutCallback w (idleCheck now s) = idleCheck now s"
    by (simp add: pongTimeoutCallback_def)
qed

theorem pong_timeout_after_removal_is_noop_witness:
  "7 \<notin> set (connections (gracefulShutdown one_connection))
   \<and> pongTimeoutCallback 7 (gracefulShutdown one_connection) = gracefulShutdown one_connection
   \<and> pongTimeoutCallback 7 (idleCheck 300001 (heartbeat (\<lambda>w. False) one_connection))
        = idleCheck 300001 (heartbeat (\<lambda>w. False) one_connection)"
proof -
  have h: "7 \<notin> set (connections (gracefulShutdown one_connection))"
    by (simp add: gracefulShutdown_def closeConnection_connections one_connection_fields
          Let_def)
  have i: "300001 - lastActivity (metas (heartbeat (\<lambda>w. False) one_connection) 7)
             > IDLE_TIMEOUT_MS"
    by (simp add: heartbeat_def heartbeat_step_def one_connection_fields Let_def
          IDLE_TIMEOUT_MS_def)
  from pong_timeout_after_removal_is_noop
         [of 7 "gracefulShutdown one_connection"] h
       pong_timeout_after_removal_is_noop
         [of 7 "heartbeat (\<lambda>w. False) one_connection" 300001] i
  show ?thesis by simp
qed

section \<open>Theorems: session directory\<close>

subsection \<open>Lines and records\<close>

lemma split_LF_nonempty: "split_LF xs \<noteq> []"
  by (induction xs) (auto split: list.splits)

lemma split_LF_no_LF: "l \<in> set (split_LF xs) \<Longrightarrow> LF \<notin> set l"
  by (induction xs arbitrary: l) (auto split: list.splits if_splits)

lemma split_LF_single: "LF \<notin> set xs \<Longrightarrow> split_LF xs = [xs]"
  by (induction xs) auto

lemma split_LF_append:
  "split_LF (xs @ ys) = butlast (split_LF xs) @ split_LF (last (split_LF xs) @ ys)"
proof (induction xs)
  case Nil
  show ?case by simp
next
  case (Cons c cs)
  obtain l ls where sp: "split_LF cs = l # ls"
    using split_LF_nonempty[of cs] by (cases "split_LF cs") auto
  show ?case
  proof (cases "c = LF")
    case True
    then show ?thesis using Cons.IH by (simp add: split_LF_nonempty)
  next
    case False
    show ?thesis
    proof (cases ls)
      case Nil
      then show ?thesis using False Cons.IH sp by simp
    next
      case (Cons a as)
      then show ?thesis using False Cons.IH sp by simp
    qed
  qed
qed

lemma split_lines_nonempty: "split_lines xs \<noteq> []"
  by (simp add: split_lines_def Let_def)

lemma last_split_lines: "last (split_lines xs) = last (split_LF xs)"
  by (simp add: split_lines_def Let_def)

lemma butlast_split_lines: "butlast (split_lines xs) = map strip_CR (butlast (split_LF xs))"
  by (simp add: split_lines_def Let_def butlast_append)

lemma split_lines_append:
  "split_lines (xs @ ys) = butlast (split_lines xs) @ split_lines (last (split_lines xs) @ ys)"
proof -
  let ?Q = "split_LF (last (split_LF xs) @ ys)"
  have q: "?Q \<noteq> []" by (rule split_LF_nonempty)
  have "split_lines (xs @ ys) =
          map strip_CR (butlast (butlast (split_LF xs) @ ?Q)) @ [last (butlast (split_LF xs) @ ?Q)]"
    by (simp add: split_lines_def Let_def split_LF_append[of xs ys])
  also have "\<dots> = map strip_CR (butlast (split_LF xs)) @ (map strip_CR (butlast ?Q) @ [last ?Q])"
    using q by (simp add: butlast_append)
  also have "\<dots> = butlast (split_lines xs) @ split_lines (last (split_lines xs) @ ys)"
    by (simp add: butlast_split_lines last_split_lines split_lines_def[of "last (split_LF xs) @ ys"] Let_def)
  finally show ?thesis .
qed

lemma split_lines_single: "LF \<notin> set xs \<Longrightarrow> split_lines xs = [xs]"
  by (simp add: split_lines_def split_LF_single)

lemma last_split_lines_no_LF: "LF \<notin> set (last (split_lines xs))"
  using split_LF_no_LF[of "last (split_LF xs)" xs] split_LF_nonempty[of xs]
  by (simp add: last_split_lines)

lemma split_LF_prefix:
  "LF \<notin> set p \<Longrightarrow> split_LF (p @ ys) = (p @ hd (split_LF ys)) # tl (split_LF ys)"
proof (induction p)
  case Nil
  then show ?case using split_LF_nonempty[of ys] by simp
next
  case (Cons c p)
  then show ?case by auto
qed

lemma tl_split_lines_prefix:
  assumes "LF \<notin> set p"
  shows "tl (split_lines (p @ ys)) = tl (split_lines ys)"
proof -
  obtain h t where sp: "split_LF ys = h # t"
    using split_LF_nonempty[of ys] by (cases "split_LF ys") auto
  have eq: "split_LF (p @ ys) = (p @ h) # t"
    using split_LF_prefix[OF assms, of ys] by (simp add: sp)
  show ?thesis
    by (cases t) (simp_all add: split_lines_def Let_def eq sp)
qed

lemma last_option_simps:
  "last_option [] = None" "last_option (xs @ [x]) = Some x"
  by (simp_all add: last_option_def)

lemma title_scan_spec:
  "title_scan rt (rev ls) = last_option (info_names (List.map_filter (line_record rt) ls))"
proof (induction ls rule: rev_induct)
  case Nil
  show ?case by (simp add: info_names_def last_option_def List.map_filter_simps)
next
  case (snoc l ls)
  show ?case
  proof (cases "line_record rt l")
    case None
    then show ?thesis using snoc
      by (auto simp: map_filter_snoc line_record_def Let_def split: if_splits)
  next
    case (Some obj)
    then have tl: "trim l \<noteq> []" "JSON_parse rt (trim l) = Some obj"
      by (auto simp: line_record_def Let_def split: if_splits)
    show ?thesis
    proof (cases "session_info_name obj")
      case None
      then show ?thesis using snoc tl Some
        by (simp add: map_filter_snoc info_names_def Let_def)
    next
      case (Some n)
      then show ?thesis using tl \<open>line_record rt l = Some obj\<close>
        by (simp add: map_filter_snoc info_names_def Let_def last_option_simps)
    qed
  qed
qed

lemma pickTitleFromTail_spec:
  "pickTitleFromTail rt t = last_option (info_names (records_of rt t))"
  by (simp add: pickTitleFromTail_def title_scan_spec records_of_def)

lemma scan_line_fold:
  "fold (scan_line rt) ls acc =
     (case last_option (info_names (List.map_filter (line_record rt) ls)) of
        None \<Rightarrow> acc | Some n \<Rightarrow> Some n)"
proof (induction ls rule: rev_induct)
  case Nil
  show ?case by (simp add: info_names_def last_option_def List.map_filter_simps)
next
  case (snoc l ls)
  show ?case
  proof (cases "line_record rt l")
    case None
    then have "scan_line rt l = (\<lambda>a. a)"
      by (auto simp: scan_line_def line_record_def Let_def fun_eq_iff split: if_splits)
    then show ?thesis using snoc None by (simp add: map_filter_snoc)
  next
    case (Some obj)
    then have tl: "trim l \<noteq> []" "JSON_parse rt (trim l) = Some obj"
      by (auto simp: line_record_def Let_def split: if_splits)
    show ?thesis
    proof (cases "session_info_name obj")
      case None
      then have "scan_line rt l = (\<lambda>a. a)"
        using tl by (auto simp: scan_line_def Let_def fun_eq_iff)
      then show ?thesis using snoc None \<open>line_record rt l = Some obj\<close>
        by (simp add: map_filter_snoc info_names_def)
    next
      case (Some n)
      then have "scan_line rt l = (\<lambda>a. Some n)"
        using tl by (auto simp: scan_line_def Let_def fun_eq_iff)
      then show ?thesis using Some \<open>line_record rt l = Some obj\<close>
        by (simp add: map_filter_snoc info_names_def last_option_simps)
    qed
  qed
qed

lemma chunks_Nil: "chunks [] = []"
  by (subst chunks.simps) simp

lemma chunks_step:
  "bytes \<noteq> [] \<Longrightarrow> chunks bytes = take SCAN_BUF bytes # chunks (drop SCAN_BUF bytes)"
  by (subst chunks.simps) simp

lemma chunked_text_Nil: "chunked_text rt [] = []"
  by (simp add: chunked_text_def chunks_Nil)

lemma chunked_text_step:
  "bytes \<noteq> [] \<Longrightarrow>
     chunked_text rt bytes
       = utf8_decode rt (take SCAN_BUF bytes) @ chunked_text rt (drop SCAN_BUF bytes)"
  by (simp add: chunked_text_def chunks_step)

lemma scan_chunks_spec:
  "LF \<notin> set leftover \<Longrightarrow>
   scan_chunks rt bytes offset leftover lastName =
     (last (split_lines (leftover @ chunked_text rt (drop offset bytes))),
      fold (scan_line rt)
        (butlast (split_lines (leftover @ chunked_text rt (drop offset bytes)))) lastName)"
proof (induction rt bytes offset leftover lastName rule: scan_chunks.induct)
  case (1 rt bytes offset leftover lastName)
  show ?case
  proof (cases "min SCAN_BUF (length bytes - offset) \<le> 0")
    case True
    then have "drop offset bytes = []" by (auto simp: SCAN_BUF_def)
    then show ?thesis using True "1.prems"
      by (subst scan_chunks.simps) (simp add: split_lines_single chunked_text_Nil)
  next
    case False
    define n where "n = min SCAN_BUF (length bytes - offset)"
    define chunk where "chunk = leftover @ utf8_decode rt (take n (drop offset bytes))"
    define rest where "rest = chunked_text rt (drop (offset + n) bytes)"
    from False have ne: "drop offset bytes \<noteq> []" by (auto simp: SCAN_BUF_def)
    have tk: "take SCAN_BUF (drop offset bytes) = take n (drop offset bytes)"
      by (simp add: n_def min_def)
    have dr: "drop SCAN_BUF (drop offset bytes) = drop (offset + n) bytes"
      by (simp add: n_def min_def add.commute)
    have ct: "chunked_text rt (drop offset bytes)
                = utf8_decode rt (take n (drop offset bytes)) @ rest"
      unfolding chunked_text_step[OF ne] tk dr rest_def by (rule refl)
    have whole: "leftover @ chunked_text rt (drop offset bytes) = chunk @ rest"
      by (simp only: ct chunk_def append_assoc)
    have ih: "scan_chunks rt bytes (offset + n) (last (split_lines chunk))
                (fold (scan_line rt) (butlast (split_lines chunk)) lastName) =
              (last (split_lines (last (split_lines chunk) @ rest)),
               fold (scan_line rt) (butlast (split_lines (last (split_lines chunk) @ rest)))
                 (fold (scan_line rt) (butlast (split_lines chunk)) lastName))"
      using "1.IH"[OF False n_def chunk_def refl] last_split_lines_no_LF[of chunk]
      by (simp add: rest_def)
    have step: "scan_chunks rt bytes offset leftover lastName =
                scan_chunks rt bytes (offset + n) (last (split_lines chunk))
                  (fold (scan_line rt) (butlast (split_lines chunk)) lastName)"
      by (subst scan_chunks.simps) (simp only: False if_False Let_def n_def chunk_def)
    have sp: "split_lines (chunk @ rest) =
                butlast (split_lines chunk) @ split_lines (last (split_lines chunk) @ rest)"
      by (rule split_lines_append)
    show ?thesis
      unfolding step ih whole sp
      by (simp add: split_lines_nonempty butlast_append)
  qed
qed

lemma scanSessionInfoNameFromFile_spec:
  "scanSessionInfoNameFromFile rt f
     = last_option (info_names (records_of rt (chunked_text rt (file_bytes f))))"
proof -
  let ?L = "split_lines (chunked_text rt (file_bytes f))"
  have "scanSessionInfoNameFromFile rt f =
          scan_line rt (last ?L) (fold (scan_line rt) (butlast ?L) None)"
    by (simp add: scanSessionInfoNameFromFile_def scan_chunks_spec[of "[]", simplified])
  also have "\<dots> = fold (scan_line rt) (butlast ?L @ [last ?L]) None" by simp
  also have "\<dots> = fold (scan_line rt) ?L None" by (simp add: split_lines_nonempty)
  finally show ?thesis by (simp add: scan_line_fold records_of_def split: option.splits)
qed

lemma updated_scan_message_spec:
  "updated_scan_message rt (rev ls) =
     map_option (toISOString rt)
       (last_option (message_instants rt (List.map_filter (line_record rt) ls)))"
proof (induction ls rule: rev_induct)
  case Nil
  show ?case by (simp add: message_instants_def last_option_def List.map_filter_simps)
next
  case (snoc l ls)
  show ?case
  proof (cases "line_record rt l")
    case None
    then show ?thesis using snoc
      by (auto simp: map_filter_snoc line_record_def Let_def split: if_splits)
  next
    case (Some obj)
    then have tl: "trim l \<noteq> []" "JSON_parse rt (trim l) = Some obj"
      by (auto simp: line_record_def Let_def split: if_splits)
    show ?thesis
    proof (cases "is_message obj")
      case False
      then show ?thesis using snoc tl Some
        by (simp add: map_filter_snoc message_instants_def is_message_def Let_def)
    next
      case True
      show ?thesis
      proof (cases "record_instant rt obj")
        case None
        then have "\<not> truthy (as_string (get_prop obj (js ''timestamp'')))
                   \<or> Date_parse rt (the (as_string (get_prop obj (js ''timestamp'')))) = None"
          by (auto simp: record_instant_def split: option.splits if_splits)
        then show ?thesis using snoc tl Some True None
          by (auto simp: map_filter_snoc message_instants_def is_message_def Let_def
                List.map_filter_simps)
      next
        case (Some d)
        then have "truthy (as_string (get_prop obj (js ''timestamp'')))"
          and "Date_parse rt (the (as_string (get_prop obj (js ''timestamp'')))) = Some d"
          by (auto simp: record_instant_def split: option.splits if_splits)
        then show ?thesis using tl \<open>line_record rt l = Some obj\<close> True Some
          by (simp add: map_filter_snoc message_instants_def is_message_def Let_def
                List.map_filter_simps last_option_simps)
      qed
    qed
  qed
qed

lemma updated_scan_any_spec:
  "updated_scan_any rt (rev ls) =
     map_option (toISOString rt)
       (last_option (all_instants rt (List.map_filter (line_record rt) ls)))"
proof (induction ls rule: rev_induct)
  case Nil
  show ?case by (simp add: all_instants_def last_option_def List.map_filter_simps)
next
  case (snoc l ls)
  show ?case
  proof (cases "line_record rt l")
    case None
    then show ?thesis using snoc
      by (auto simp: map_filter_snoc line_record_def Let_def split: if_splits)
  next
    case (Some obj)
    then have tl: "trim l \<noteq> []" "JSON_parse rt (trim l) = Some obj"
      by (auto simp: line_record_def Let_def split: if_splits)
    show ?thesis
    proof (cases "record_instant rt obj")
      case None
      then have "\<not> truthy (as_string (get_prop obj (js ''timestamp'')))
                 \<or> Date_parse rt (the (as_string (get_prop obj (js ''timestamp'')))) = None"
        by (auto simp: record_instant_def split: option.splits if_splits)
      then show ?thesis using snoc tl Some None
        by (auto simp: map_filter_snoc all_instants_def Let_def List.map_filter_simps)
    next
      case (Some d)
      then have "truthy (as_string (get_prop obj (js ''timestamp'')))"
        and "Date_parse rt (the (as_string (get_prop obj (js ''timestamp'')))) = Some d"
        by (auto simp: record_instant_def split: option.splits if_splits)
      then show ?thesis using tl \<open>line_record rt l = Some obj\<close> Some
        by (simp add: map_filter_snoc all_instants_def Let_def List.map_filter_simps
              last_option_simps)
    qed
  qed
qed

lemma pickUpdatedAtFromTail_spec:
  "pickUpdatedAtFromTail rt t =
     (let rs = records_of rt t in
      if message_instants rt rs \<noteq> [] then Some (toISOString rt (last (message_instants rt rs)))
      else if all_instants rt rs \<noteq> [] then Some (toISOString rt (last (all_instants rt rs)))
      else None)"
  by (simp add: pickUpdatedAtFromTail_def Let_def updated_scan_message_spec
        updated_scan_any_spec records_of_def last_option_def)

lemma set_insert_by: "set (insert_by cmp x ys) = insert x (set ys)"
  by (induction ys) auto

lemma set_sort_by: "set (sort_by cmp xs) = set xs"
  by (induction xs) (simp_all add: sort_by_def set_insert_by)

lemma set_collect_items:
  "set (collect_items rt fs acc) = set acc \<union> {it. \<exists>f\<in>set fs. sessionItem rt f = Some it}"
  by (induction fs arbitrary: acc) (auto split: option.splits)

lemma set_listPiSessions:
  "set (listPiSessions rt files) = {it. \<exists>f\<in>set files. sessionItem rt f = Some it}"
  by (simp add: listPiSessions_def set_sort_by set_collect_items)

lemma sessionItem_updatedAt:
  assumes "sessionItem rt f = Some it"
  shows "updatedAt it =
           (let u = pickUpdatedAtFromTail rt (readTail rt DEFAULT_TAIL_BYTES f)
            in if truthy u then u else Some (toISOString rt (file_mtime f)))"
  using assms
  by (auto simp: sessionItem_def Let_def split: if_splits option.splits prod.splits)

lemma indexOf_takeWhile:
  "(case indexOf t c of None \<Rightarrow> t | Some i \<Rightarrow> take i t) = takeWhile (\<lambda>x. x \<noteq> c) t"
  by (induction t) (auto split: option.splits)

lemma readFirstLine_spec:
  "readFirstLine rt f = (if file_bytes f = [] then None else Some (head_first_line rt f))"
proof (cases "file_bytes f = []")
  case True
  then show ?thesis by (simp add: readFirstLine_def)
next
  case False
  have n: "\<not> min DEFAULT_HEAD_BYTES (length (file_bytes f)) \<le> 0"
    using False by (simp add: DEFAULT_HEAD_BYTES_def)
  have tk: "take (min DEFAULT_HEAD_BYTES (length (file_bytes f))) (file_bytes f)
              = take DEFAULT_HEAD_BYTES (file_bytes f)"
    by (simp add: min_def)
  show ?thesis
    using False
      indexOf_takeWhile[of "utf8_decode rt (take DEFAULT_HEAD_BYTES (file_bytes f))" LF]
    by (simp only: readFirstLine_def Let_def n if_False tk head_first_line_def)
       (simp split: option.splits)
qed

lemma parseSessionHeader_type:
  "parseSessionHeader rt l = Some h \<Longrightarrow>
     \<exists>obj. JSON_parse rt l = Some obj \<and> get_prop obj (js ''type'') = Some (JStr (js ''session''))"
  by (auto simp: parseSessionHeader_def Let_def split: option.splits if_splits)

lemma sessionItem_header:
  assumes "sessionItem rt f = Some it"
  shows "session_header_line rt f \<and> sessionFile it = file_path f"
proof -
  from assms have ne: "file_bytes f \<noteq> []"
    by (auto simp: sessionItem_def readFirstLine_spec Let_def split: if_splits)
  from assms obtain h where h: "parseSessionHeader rt (head_first_line rt f) = Some h"
    by (auto simp: sessionItem_def readFirstLine_spec Let_def ne split: if_splits option.splits)
  from parseSessionHeader_type[OF h] have "session_header_line rt f"
    by (auto simp: session_header_line_def ne)
  moreover from assms have "sessionFile it = file_path f"
    by (auto simp: sessionItem_def Let_def split: if_splits option.splits prod.splits)
  ultimately show ?thesis by simp
qed

lemma info_names_nonempty: "n \<in> set (info_names rs) \<Longrightarrow> n \<noteq> []"
  by (auto simp: info_names_def List.map_filter_def session_info_name_def
        split: if_splits option.splits)

lemma truthy_last_option_names:
  "truthy (last_option (info_names rs)) = (info_names rs \<noteq> [])"
  using info_names_nonempty[of "last (info_names rs)" rs]
  by (auto simp: last_option_def)

lemma sessionItem_title:
  assumes "sessionItem rt f = Some it"
  shows "title it =
           (let t0 = pickTitleFromTail rt (readTail rt DEFAULT_TAIL_BYTES f);
                t1 = (if \<not> truthy t0 then scanSessionInfoNameFromFile rt f else t0)
            in if \<not> truthy t1 then pickFallbackTitleFromHead rt f else t1)"
  using assms
  by (auto simp: sessionItem_def Let_def split: if_splits option.splits prod.splits)

lemma readTail_drop:
  "readTail rt k f = utf8_decode rt (drop (length (file_bytes f) - k) (file_bytes f))"
  by (simp add: readTail_def Let_def)

lemma readTail_whole:
  "length (file_bytes f) \<le> k \<Longrightarrow> readTail rt k f = file_text rt f"
  by (simp add: readTail_drop file_text_def)

lemma last_split_LF_LF: "last (split_LF (xs @ [LF])) = []"
proof -
  let ?p = "last (split_LF xs)"
  have "LF \<notin> set ?p" using split_LF_no_LF[of ?p xs] split_LF_nonempty[of xs] by simp
  then have "split_LF (?p @ [LF]) = [?p, []]" by (simp add: split_LF_prefix)
  then show ?thesis by (simp add: split_LF_append[of xs "[LF]"])
qed

lemma names_of_lines_append:
  "names_of_lines rt (xs @ ys) = names_of_lines rt xs @ names_of_lines rt ys"
  by (simp add: names_of_lines_def info_names_def map_filter_append)

lemma names_of_lines_single:
  "names_of_lines rt [l] = (case line_name rt l of None \<Rightarrow> [] | Some n \<Rightarrow> [n])"
  by (simp add: names_of_lines_def info_names_def line_name_def List.map_filter_simps
        split: option.splits)

lemma tail_names_last:
  assumes clean: "tail_cut_clean rt f"
    and prov: "tail_starts_line rt f
               \<or> line_name rt (hd (split_lines (readTail rt DEFAULT_TAIL_BYTES f))) = None"
    and ne: "info_names (tail_records rt f) \<noteq> []"
  shows "info_names (file_records rt f) \<noteq> []
         \<and> last (info_names (tail_records rt f)) = last (info_names (file_records rt f))"
proof -
  define A where "A = before_tail rt f"
  define B where "B = readTail rt DEFAULT_TAIL_BYTES f"
  define p where "p = last (split_lines A)"
  define R where "R = tl (split_lines B)"
  define h where "h = hd (split_lines B)"
  define h' where "h' = hd (split_lines (p @ B))"
  have ft: "file_text rt f = A @ B"
    using clean by (simp add: tail_cut_clean_def A_def B_def)
  have pLF: "LF \<notin> set p" unfolding p_def by (rule last_split_lines_no_LF)
  have spB: "split_lines B = h # R"
    using split_lines_nonempty[of B] by (cases "split_lines B") (auto simp: h_def R_def)
  have sppB: "split_lines (p @ B) = h' # R"
    using split_lines_nonempty[of "p @ B"] tl_split_lines_prefix[OF pLF, of B]
    by (cases "split_lines (p @ B)") (auto simp: h'_def R_def)
  have file_lines: "split_lines (file_text rt f) = butlast (split_lines A) @ h' # R"
    by (simp add: ft split_lines_append[of A B] p_def[symmetric] sppB)
  have tn: "info_names (tail_records rt f) = names_of_lines rt [h] @ names_of_lines rt R"
    using names_of_lines_append[of rt "[h]" R]
    by (simp add: tail_records_def records_of_def B_def[symmetric] spB names_of_lines_def)
  have fn: "info_names (file_records rt f) =
              names_of_lines rt (butlast (split_lines A)) @ names_of_lines rt [h']
                @ names_of_lines rt R"
    using names_of_lines_append[of rt "butlast (split_lines A)" "h' # R"]
          names_of_lines_append[of rt "[h']" R]
    by (simp add: file_records_def records_of_def file_lines names_of_lines_def)
  show ?thesis
  proof (cases "names_of_lines rt R = []")
    case False
    then show ?thesis by (simp add: tn fn)
  next
    case True
    with ne tn have hn: "names_of_lines rt [h] \<noteq> []" by simp
    then have "line_name rt h \<noteq> None"
      by (cases "line_name rt h") (auto simp: names_of_lines_single)
    with prov have al: "tail_starts_line rt f" by (auto simp: B_def h_def)
    have "p = []"
    proof (cases "A = []")
      case True
      then show ?thesis by (simp add: p_def split_lines_def)
    next
      case False
      with al have "last A = LF" by (simp add: tail_starts_line_def A_def)
      with False have "A = butlast A @ [LF]" by (metis append_butlast_last_id)
      then have "last (split_LF A) = []" using last_split_LF_LF[of "butlast A"] by simp
      then show ?thesis by (simp add: p_def last_split_lines)
    qed
    then have "h' = h" by (simp add: h'_def h_def)
    then show ?thesis using hn True by (simp add: tn fn)
  qed
qed

subsection \<open>The sample files, line by line\<close>

lemma split_LF_line: "LF \<notin> set l \<Longrightarrow> split_LF (l @ LF # rest) = l # split_LF rest"
  using split_LF_prefix[of l "LF # rest"] by simp

lemma split_LF_repeat:
  "LF \<notin> set l \<Longrightarrow> split_LF (concat (replicate n (l @ [LF]))) = replicate n l @ [[]]"
  by (induction n) (simp_all add: split_LF_line)

lemma length_concat_replicate: "length (concat (replicate n xs)) = n * length xs"
  by (induction n) simp_all

lemma takeWhile_line:
  "LF \<notin> set l \<Longrightarrow> takeWhile (\<lambda>c. c \<noteq> LF) (l @ LF # rest) = l"
  by (induction l) auto

lemma trim_no_ws: "t \<noteq> [] \<Longrightarrow> \<not> is_ws (hd t) \<Longrightarrow> \<not> is_ws (last t) \<Longrightarrow> trim t = t"
proof -
  assume a: "t \<noteq> []" "\<not> is_ws (hd t)" "\<not> is_ws (last t)"
  then have "dropWhile is_ws t = t" by (cases t) auto
  moreover have "dropWhile is_ws (rev t) = rev t"
    using a by (cases "rev t") (auto simp: hd_rev)
  ultimately show ?thesis by (simp add: trim_def)
qed

lemma of_char_LF_byte: "(of_char LF_byte :: nat) = LF"
  by (simp add: LF_byte_def LF_def)

lemma js_LF_Cons: "js (LF_byte # t) = LF # js t"
  by (simp add: js_Cons of_char_LF_byte)

lemma LF_in_js: "LF \<in> set (js t) \<longleftrightarrow> LF_byte \<in> set t"
proof (induction t)
  case Nil
  show ?case by simp
next
  case (Cons c t)
  have "LF = (of_char c :: nat) \<longleftrightarrow> LF_byte = c"
    using of_char_LF_byte by (metis of_char_eq_iff)
  then show ?case using Cons by (simp add: js_Cons)
qed

lemma concat_replicate_js:
  "js (concat (replicate n l)) = concat (replicate n (js l))"
  by (induction n) (simp_all add: js_append)

text \<open>The sample decoder on buffers of ASCII bytes.\<close>

lemma utf8_decode_sample: "utf8_decode sample_runtime = sample_decode"
  by (simp add: sample_runtime_def)

lemma sample_decode_ascii_Cons:
  "(of_char b :: nat) < 128 \<Longrightarrow> sample_decode (b # r) = of_char b # sample_decode r"
  by (cases r) simp_all

lemma sample_decode_ascii_append:
  "ascii xs \<Longrightarrow> sample_decode (xs @ ys) = js xs @ sample_decode ys"
  by (induction xs) (simp_all add: ascii_def js_Cons sample_decode_ascii_Cons)

lemma sample_decode_ascii: "ascii t \<Longrightarrow> sample_decode t = js t"
  using sample_decode_ascii_append[of t "[]"] by simp

lemma ascii_append: "ascii (a @ b) \<longleftrightarrow> ascii a \<and> ascii b"
  by (simp add: ascii_def)

lemma ascii_LF_Cons: "ascii (LF_byte # t) \<longleftrightarrow> ascii t"
  by (simp add: ascii_def LF_byte_def)

lemma ascii_x_Cons: "ascii (CHR ''x'' # t) \<longleftrightarrow> ascii t"
  by (simp add: ascii_def)

lemma ascii_Nil: "ascii []"
  by (simp add: ascii_def)

lemma ascii_filler: "ascii (replicate n (CHR ''x''))"
  by (simp add: ascii_def list_all_iff)

lemma ascii_take: "ascii t \<Longrightarrow> ascii (take n t)"
  by (auto simp: ascii_def list_all_iff dest: in_set_takeD)

lemma ascii_drop: "ascii t \<Longrightarrow> ascii (drop n t)"
  by (auto simp: ascii_def list_all_iff dest: in_set_dropD)

lemma ascii_concat_replicate: "ascii l \<Longrightarrow> ascii (concat (replicate n l))"
  by (induction n) (simp_all add: ascii_append ascii_Nil)

lemma ascii_file_text:
  "ascii (file_bytes f) \<Longrightarrow> file_text sample_runtime f = js (file_bytes f)"
  by (simp add: file_text_def utf8_decode_sample sample_decode_ascii)

lemma ascii_readTail:
  "ascii (file_bytes f) \<Longrightarrow>
     readTail sample_runtime k f = js (drop (length (file_bytes f) - k) (file_bytes f))"
  by (simp add: readTail_drop utf8_decode_sample sample_decode_ascii ascii_drop)

lemma ascii_chunked_text: "ascii bytes \<Longrightarrow> chunked_text sample_runtime bytes = js bytes"
proof (induction bytes rule: chunks.induct)
  case (1 bytes)
  show ?case
  proof (cases "bytes = []")
    case True
    then show ?thesis by (simp add: chunked_text_Nil)
  next
    case False
    have "chunked_text sample_runtime (drop SCAN_BUF bytes) = js (drop SCAN_BUF bytes)"
      using "1.IH"[OF False] "1.prems" by (simp add: ascii_drop)
    moreover have "sample_decode (take SCAN_BUF bytes) = js (take SCAN_BUF bytes)"
      using "1.prems" by (simp add: sample_decode_ascii ascii_take)
    ultimately show ?thesis
      using js_append[of "take SCAN_BUF bytes" "drop SCAN_BUF bytes"]
      by (simp add: chunked_text_step[OF False] utf8_decode_sample)
  qed
qed

lemma ascii_chunks_clean: "ascii (file_bytes f) \<Longrightarrow> chunks_clean sample_runtime f"
  by (simp add: chunks_clean_def ascii_file_text ascii_chunked_text)

lemma ascii_tail_cut_clean: "ascii (file_bytes f) \<Longrightarrow> tail_cut_clean sample_runtime f"
proof -
  assume a: "ascii (file_bytes f)"
  define k where "k = length (file_bytes f) - DEFAULT_TAIL_BYTES"
  have "js (file_bytes f) = js (take k (file_bytes f)) @ js (drop k (file_bytes f))"
    using js_append[of "take k (file_bytes f)" "drop k (file_bytes f)"] by simp
  moreover have "length (file_bytes f) \<le> DEFAULT_TAIL_BYTES \<Longrightarrow> k = 0"
    by (simp add: k_def)
  ultimately show ?thesis
    using a
    by (auto simp: tail_cut_clean_def before_tail_def ascii_file_text ascii_readTail
          utf8_decode_sample sample_decode_ascii ascii_take k_def)
qed

lemma sample_head_line:
  assumes "file_bytes f = l @ LF_byte # rest" and "ascii l" and "LF_byte \<notin> set l"
    and "length l < DEFAULT_HEAD_BYTES"
  shows "head_first_line sample_runtime f = trim (js l)"
proof -
  from assms(4) obtain m where m: "DEFAULT_HEAD_BYTES - length l = Suc m"
    by (cases "DEFAULT_HEAD_BYTES - length l") auto
  have tk: "take DEFAULT_HEAD_BYTES (file_bytes f) = l @ LF_byte # take m rest"
    using assms(4) by (simp add: assms(1) m)
  have "sample_decode (l @ LF_byte # take m rest) = js l @ LF # sample_decode (take m rest)"
    using sample_decode_ascii_Cons[of LF_byte "take m rest"]
    by (simp add: sample_decode_ascii_append[OF assms(2)] of_char_LF_byte LF_def)
  moreover have "LF \<notin> set (js l)" using assms(3) by (simp add: LF_in_js)
  ultimately show ?thesis
    by (simp add: head_first_line_def utf8_decode_sample tk takeWhile_line)
qed

text \<open>The sample lines.\<close>

lemma sample_lines_length:
  "length header_line = 53" "length message_line = 98" "length info_line = 77"
  "length padded_info_line = 36" "length real_info_line = 37" "length ghost_line = 38"
  "length nbsp_info_line = 39" "length cafe_head = 34" "length cafe_end = 2"
  "length cafe_line = 38"
  by (simp_all add: header_line_def message_line_def info_line_def padded_info_line_def
        real_info_line_def ghost_line_def nbsp_info_line_def cafe_head_def cafe_end_def
        cafe_line_def)

lemma sample_lines_ascii:
  "ascii header_line" "ascii message_line" "ascii info_line" "ascii padded_info_line"
  "ascii real_info_line" "ascii ghost_line" "ascii nbsp_info_line" "ascii cafe_head"
  "ascii cafe_end"
  by (simp_all add: ascii_def header_line_def message_line_def info_line_def
        padded_info_line_def real_info_line_def ghost_line_def nbsp_info_line_def
        cafe_head_def cafe_end_def)

lemma sample_lines_no_LF_byte:
  "LF_byte \<notin> set header_line" "LF_byte \<notin> set message_line" "LF_byte \<notin> set info_line"
  "LF_byte \<notin> set padded_info_line" "LF_byte \<notin> set real_info_line"
  "LF_byte \<notin> set ghost_line" "LF_byte \<notin> set nbsp_info_line" "LF_byte \<notin> set cafe_head"
  "LF_byte \<notin> set cafe_end"
  by (simp_all add: header_line_def message_line_def info_line_def padded_info_line_def
        real_info_line_def ghost_line_def nbsp_info_line_def cafe_head_def cafe_end_def
        LF_byte_def)

lemma sample_lines_no_LF:
  "LF \<notin> set (js header_line)" "LF \<notin> set (js message_line)" "LF \<notin> set (js info_line)"
  "LF \<notin> set (js padded_info_line)" "LF \<notin> set (js real_info_line)"
  "LF \<notin> set (js ghost_line)" "LF \<notin> set (js nbsp_info_line)" "LF \<notin> set (js cafe_head)"
  "LF \<notin> set (js cafe_end)"
  by (simp_all add: LF_in_js sample_lines_no_LF_byte)

lemma sample_lines_nonempty:
  "header_line \<noteq> []" "message_line \<noteq> []" "info_line \<noteq> []" "padded_info_line \<noteq> []"
  "real_info_line \<noteq> []" "ghost_line \<noteq> []" "nbsp_info_line \<noteq> []" "cafe_head \<noteq> []"
  "cafe_end \<noteq> []"
  by (simp_all add: header_line_def message_line_def info_line_def padded_info_line_def
        real_info_line_def ghost_line_def nbsp_info_line_def cafe_head_def cafe_end_def)

lemma sample_lines_hd:
  "hd header_line = CHR ''{''" "hd message_line = CHR ''{''" "hd info_line = CHR ''{''"
  "hd padded_info_line = CHR ''{''" "hd real_info_line = CHR ''{''"
  "hd ghost_line = CHR ''{''" "hd nbsp_info_line = CHR ''{''" "hd cafe_head = CHR ''{''"
  by (simp_all add: header_line_def message_line_def info_line_def padded_info_line_def
        real_info_line_def ghost_line_def nbsp_info_line_def cafe_head_def)

lemma sample_lines_last:
  "last header_line = CHR ''}''" "last message_line = CHR ''}''" "last info_line = CHR ''}''"
  "last padded_info_line = CHR ''}''" "last real_info_line = CHR ''}''"
  "last ghost_line = CHR ''}''" "last nbsp_info_line = CHR ''}''" "last cafe_end = CHR ''}''"
  by (simp_all add: header_line_def message_line_def info_line_def padded_info_line_def
        real_info_line_def ghost_line_def nbsp_info_line_def cafe_end_def)

lemma brace_codes:
  "(of_char (CHR ''{'') :: nat) = 123" "(of_char (CHR ''}'') :: nat) = 125"
  "(of_char (CHR ''x'') :: nat) = 120"
  by simp_all

lemma not_ws_codes: "\<not> is_ws 123" "\<not> is_ws 125" "\<not> is_ws 120"
  by (simp_all add: is_ws_def)

lemma sample_lines_strip:
  "strip_CR (js header_line) = js header_line" "strip_CR (js message_line) = js message_line"
  "strip_CR (js info_line) = js info_line"
  "strip_CR (js padded_info_line) = js padded_info_line"
  "strip_CR (js real_info_line) = js real_info_line" "strip_CR (js ghost_line) = js ghost_line"
  "strip_CR (js nbsp_info_line) = js nbsp_info_line"
  by (simp_all add: strip_CR_def last_js sample_lines_nonempty sample_lines_last CR_def)

lemma sample_lines_trim:
  "trim (js header_line) = js header_line" "trim (js message_line) = js message_line"
  "trim (js info_line) = js info_line" "trim (js padded_info_line) = js padded_info_line"
  "trim (js real_info_line) = js real_info_line" "trim (js ghost_line) = js ghost_line"
  "trim (js nbsp_info_line) = js nbsp_info_line"
  by (rule trim_no_ws;
      simp add: hd_js last_js sample_lines_nonempty sample_lines_hd sample_lines_last
        not_ws_codes)+

lemma sample_parse_lines:
  "sample_parse (js header_line) =
     Some (JObj [(js ''type'', JStr (js ''session'')), (js ''id'', JStr (js ''sess-1'')),
                 (js ''cwd'', JStr (js ''/tmp/project''))])"
  "sample_parse (js message_line) =
     Some (JObj [(js ''type'', JStr (js ''message'')),
                 (js ''timestamp'', JStr (js ''2026-01-01T00:00:02.000Z'')),
                 (js ''message'', JObj [(js ''role'', JStr (js ''user'')),
                                        (js ''content'', JStr (js ''hi''))])])"
  "sample_parse (js info_line) =
     Some (JObj [(js ''type'', JStr (js ''session_info'')),
                 (js ''timestamp'', JStr (js ''2026-01-01T00:00:10.000Z'')),
                 (js ''name'', JStr (js ''named''))])"
  "sample_parse (js padded_info_line) =
     Some (JObj [(js ''type'', JStr (js ''session_info'')), (js ''name'', JStr (js '' A ''))])"
  "sample_parse (js real_info_line) =
     Some (JObj [(js ''type'', JStr (js ''session_info'')), (js ''name'', JStr (js ''Real''))])"
  "sample_parse (js ghost_line) =
     Some (JObj [(js ''type'', JStr (js ''session_info'')), (js ''name'', JStr (js ''Ghost''))])"
  "sample_parse (js nbsp_info_line) =
     Some (JObj [(js ''type'', JStr (js ''session_info'')), (js ''name'', JStr [0xA0])])"
  by (simp_all add: sample_parse_def header_line_def message_line_def info_line_def
        padded_info_line_def real_info_line_def ghost_line_def nbsp_info_line_def)

lemma cafe_text_js: "cafe_text = js (cafe_head @ [CHR 0xE9] @ cafe_end)"
  by (simp add: cafe_text_def js_append js_Cons)

lemma broken_cafe_text_not_js: "broken_cafe_text \<noteq> js t"
proof
  assume "broken_cafe_text = js t"
  moreover have "(0xFFFD::nat) \<in> set broken_cafe_text" by (simp add: broken_cafe_text_def)
  ultimately have "(0xFFFD::nat) \<in> set (js t)" by simp
  then obtain c where "(0xFFFD::nat) = of_char c" by (auto simp: js_def)
  then show False using nat_of_char_less_256[of c] by simp
qed

lemma sample_parse_cafe:
  "sample_parse cafe_text =
     Some (JObj [(js ''type'', JStr (js ''session_info'')),
                 (js ''name'', JStr (js ''caf'' @ [0xE9]))])"
  "sample_parse broken_cafe_text =
     Some (JObj [(js ''type'', JStr (js ''session_info'')),
                 (js ''name'', JStr (js ''caf'' @ [0xFFFD, 0xFFFD]))])"
proof -
  show "sample_parse cafe_text =
     Some (JObj [(js ''type'', JStr (js ''session_info'')),
                 (js ''name'', JStr (js ''caf'' @ [0xE9]))])"
    unfolding sample_parse_def cafe_text_js
    by (simp add: header_line_def message_line_def info_line_def padded_info_line_def
          real_info_line_def ghost_line_def nbsp_info_line_def cafe_head_def cafe_end_def)
  have "broken_cafe_text \<noteq> cafe_text"
    using broken_cafe_text_not_js by (simp add: cafe_text_js)
  then show "sample_parse broken_cafe_text =
     Some (JObj [(js ''type'', JStr (js ''session_info'')),
                 (js ''name'', JStr (js ''caf'' @ [0xFFFD, 0xFFFD]))])"
    by (simp add: sample_parse_def broken_cafe_text_not_js)
qed

lemma sample_parse_no_brace: "t \<noteq> [] \<Longrightarrow> hd t \<noteq> 123 \<Longrightarrow> sample_parse t = None"
  by (cases t)
     (auto simp: sample_parse_def header_line_def message_line_def info_line_def
        padded_info_line_def real_info_line_def ghost_line_def nbsp_info_line_def
        cafe_text_def broken_cafe_text_def cafe_head_def ping_frame_def request_frame_def
        js_Cons)

lemma sample_line_records:
  "line_record sample_runtime (js header_line) =
     Some (JObj [(js ''type'', JStr (js ''session'')), (js ''id'', JStr (js ''sess-1'')),
                 (js ''cwd'', JStr (js ''/tmp/project''))])"
  "line_record sample_runtime (js message_line) =
     Some (JObj [(js ''type'', JStr (js ''message'')),
                 (js ''timestamp'', JStr (js ''2026-01-01T00:00:02.000Z'')),
                 (js ''message'', JObj [(js ''role'', JStr (js ''user'')),
                                        (js ''content'', JStr (js ''hi''))])])"
  "line_record sample_runtime (js info_line) =
     Some (JObj [(js ''type'', JStr (js ''session_info'')),
                 (js ''timestamp'', JStr (js ''2026-01-01T00:00:10.000Z'')),
                 (js ''name'', JStr (js ''named''))])"
  "line_record sample_runtime (js padded_info_line) =
     Some (JObj [(js ''type'', JStr (js ''session_info'')), (js ''name'', JStr (js '' A ''))])"
  "line_record sample_runtime (js real_info_line) =
     Some (JObj [(js ''type'', JStr (js ''session_info'')), (js ''name'', JStr (js ''Real''))])"
  "line_record sample_runtime (js ghost_line) =
     Some (JObj [(js ''type'', JStr (js ''session_info'')), (js ''name'', JStr (js ''Ghost''))])"
  "line_record sample_runtime (js nbsp_info_line) =
     Some (JObj [(js ''type'', JStr (js ''session_info'')), (js ''name'', JStr [0xA0])])"
  by (simp_all add: line_record_def sample_lines_trim sample_lines_nonempty sample_runtime_def
        sample_parse_lines)

lemma blank_line_record: "line_record rt [] = None"
  by (simp add: line_record_def trim_def)

lemma trim_samples:
  "trim (js ''named'') = js ''named''" "trim (js '' A '') = js ''A''"
  "trim (js ''Real'') = js ''Real''" "trim (js ''Ghost'') = js ''Ghost''"
  "trim [0xA0] = []"
  "trim (js ''caf'' @ [0xE9]) = js ''caf'' @ [0xE9]"
  "trim (js ''caf'' @ [0xFFFD, 0xFFFD]) = js ''caf'' @ [0xFFFD, 0xFFFD]"
  by (simp_all add: trim_def is_ws_def js_def)

lemma sample_names:
  "session_info_name (JObj [(js ''type'', JStr (js ''session'')),
       (js ''id'', JStr (js ''sess-1'')), (js ''cwd'', JStr (js ''/tmp/project''))]) = None"
  "session_info_name (JObj [(js ''type'', JStr (js ''message'')),
       (js ''timestamp'', JStr (js ''2026-01-01T00:00:02.000Z'')),
       (js ''message'', JObj [(js ''role'', JStr (js ''user'')),
                              (js ''content'', JStr (js ''hi''))])]) = None"
  "session_info_name (JObj [(js ''type'', JStr (js ''session_info'')),
       (js ''timestamp'', JStr (js ''2026-01-01T00:00:10.000Z'')),
       (js ''name'', JStr (js ''named''))])
     = Some (js ''named'')"
  "session_info_name (JObj [(js ''type'', JStr (js ''session_info'')),
       (js ''name'', JStr (js '' A ''))])
     = Some (js ''A'')"
  "session_info_name (JObj [(js ''type'', JStr (js ''session_info'')),
       (js ''name'', JStr (js ''Real''))])
     = Some (js ''Real'')"
  "session_info_name (JObj [(js ''type'', JStr (js ''session_info'')),
       (js ''name'', JStr (js ''Ghost''))])
     = Some (js ''Ghost'')"
  "session_info_name (JObj [(js ''type'', JStr (js ''session_info'')),
       (js ''name'', JStr [0xA0])])
     = None"
  "session_info_name (JObj [(js ''type'', JStr (js ''session_info'')),
       (js ''name'', JStr (js ''caf'' @ [0xE9]))])
     = Some (js ''caf'' @ [0xE9])"
  "session_info_name (JObj [(js ''type'', JStr (js ''session_info'')),
       (js ''name'', JStr (js ''caf'' @ [0xFFFD, 0xFFFD]))])
     = Some (js ''caf'' @ [0xFFFD, 0xFFFD])"
  by (simp_all add: session_info_name_def trim_samples)

lemma sessionItem_some:
  assumes "file_bytes f \<noteq> []" and "head_first_line rt f = hl" and "hl \<noteq> []"
    and "parseSessionHeader rt hl = Some h"
  shows "\<exists>it. sessionItem rt f = Some it"
  using assms by (cases h) (simp add: sessionItem_def readFirstLine_spec Let_def)

lemma sample_header:
  "parseSessionHeader sample_runtime (js header_line)
     = Some (js ''sess-1'', js ''/tmp/project'')"
  by (simp add: parseSessionHeader_def sample_runtime_def sample_parse_lines)

lemma sample_session_ascii: "ascii (file_bytes sample_session)"
  by (simp add: sample_session_def ascii_append ascii_LF_Cons sample_lines_ascii ascii_Nil)

lemma sample_session_text:
  "file_text sample_runtime sample_session
     = js header_line @ LF # js message_line @ LF # js info_line @ [LF]"
  by (simp add: ascii_file_text[OF sample_session_ascii])
     (simp add: sample_session_def js_append js_LF_Cons)

lemma sample_session_lines:
  "split_lines (file_text sample_runtime sample_session)
     = [js header_line, js message_line, js info_line, []]"
  by (simp add: sample_session_text split_lines_def split_LF_line sample_lines_no_LF
        sample_lines_strip)

lemma sample_session_whole_tail:
  "readTail sample_runtime DEFAULT_TAIL_BYTES sample_session
     = file_text sample_runtime sample_session"
  by (rule readTail_whole)
     (simp add: sample_session_def sample_lines_length DEFAULT_TAIL_BYTES_def)

lemma sample_session_head: "head_first_line sample_runtime sample_session = js header_line"
proof -
  have "file_bytes sample_session
          = header_line @ LF_byte # message_line @ [LF_byte] @ info_line @ [LF_byte]"
    by (simp add: sample_session_def)
  from sample_head_line[OF this sample_lines_ascii(1) sample_lines_no_LF_byte(1)]
  show ?thesis by (simp add: sample_lines_length DEFAULT_HEAD_BYTES_def sample_lines_trim)
qed

lemma sample_session_fields:
  "file_path sample_session = ''/sessions/--p--/s.jsonl''"
  "file_mtime sample_session = 1767225700000"
  by (simp_all add: sample_session_def)

lemma sample_session_records:
  "file_records sample_runtime sample_session =
     [JObj [(js ''type'', JStr (js ''session'')), (js ''id'', JStr (js ''sess-1'')),
            (js ''cwd'', JStr (js ''/tmp/project''))],
      JObj [(js ''type'', JStr (js ''message'')),
            (js ''timestamp'', JStr (js ''2026-01-01T00:00:02.000Z'')),
            (js ''message'', JObj [(js ''role'', JStr (js ''user'')),
                                   (js ''content'', JStr (js ''hi''))])],
      JObj [(js ''type'', JStr (js ''session_info'')),
            (js ''timestamp'', JStr (js ''2026-01-01T00:00:10.000Z'')),
            (js ''name'', JStr (js ''named''))]]"
  by (simp add: file_records_def records_of_def sample_session_lines List.map_filter_simps
        sample_line_records blank_line_record)

lemma sample_session_item: "sessionItem sample_runtime sample_session = Some sample_item"
proof -
  have ne: "file_bytes sample_session \<noteq> []" by (simp add: sample_session_def)
  have t: "pickTitleFromTail sample_runtime (file_text sample_runtime sample_session)
             = Some (js ''named'')"
    using sample_session_records
    by (simp add: pickTitleFromTail_spec file_records_def info_names_def List.map_filter_simps
          sample_names last_option_def)
  have u: "pickUpdatedAtFromTail sample_runtime (file_text sample_runtime sample_session)
             = Some (js ''2026-01-01T00:00:02.000Z'')"
    using sample_session_records
    by (simp add: pickUpdatedAtFromTail_spec file_records_def message_instants_def
          is_message_def record_instant_def List.map_filter_simps sample_runtime_def
          sample_date_def sample_iso_def Let_def)
  show ?thesis
    by (simp add: sessionItem_def readFirstLine_spec ne sample_session_head
          sample_lines_nonempty sample_header sample_session_whole_tail t u Let_def
          sample_item_def sample_session_fields)
qed

subsection \<open>Listing entries\<close>

lemma sessionItem_title_of:
  assumes "file_bytes f \<noteq> []" and "head_first_line rt f = hl" and "hl \<noteq> []"
    and "parseSessionHeader rt hl = Some h"
  shows "map_option title (sessionItem rt f) =
           Some (let t0 = pickTitleFromTail rt (readTail rt DEFAULT_TAIL_BYTES f);
                     t1 = (if \<not> truthy t0 then scanSessionInfoNameFromFile rt f else t0)
                 in if \<not> truthy t1 then pickFallbackTitleFromHead rt f else t1)"
proof -
  from sessionItem_some[OF assms]
  obtain it where it: "sessionItem rt f = Some it" by blast
  show ?thesis using sessionItem_title[OF it] by (simp add: it)
qed

lemma sample_user_titles:
  "user_message_title sample_runtime (js header_line) = None"
  "user_message_title sample_runtime (js message_line) = Some (js ''hi'')"
  by (simp_all add: user_message_title_def sample_runtime_def sample_parse_lines take_js)

lemma header_text_nonempty: "js header_line \<noteq> []"
  by (simp add: sample_lines_nonempty)

lemma header_first:
  assumes "file_bytes f = header_line @ LF_byte # rest"
  shows "head_first_line sample_runtime f = js header_line"
  using sample_head_line[OF assms sample_lines_ascii(1) sample_lines_no_LF_byte(1)]
  by (simp add: sample_lines_length DEFAULT_HEAD_BYTES_def sample_lines_trim)

lemma js_filler: "js (replicate n (CHR ''x'')) = replicate n 120"
  by (simp add: js_replicate)

lemma js_x_Cons: "js (CHR ''x'' # t) = 120 # js t"
  by (simp add: js_Cons)

lemma LF_not_x: "LF \<noteq> 120" "120 \<noteq> LF"
  by (simp_all add: LF_def)

lemma filler_line:
  assumes "0 < n"
  shows "LF \<notin> set (replicate n (120::nat))"
    and "strip_CR (replicate n 120) = replicate n 120"
    and "line_record sample_runtime (replicate n 120) = None"
proof -
  let ?t = "replicate n (120::nat)"
  show "LF \<notin> set ?t" by (simp add: LF_def)
  show "strip_CR ?t = ?t" using assms by (simp add: strip_CR_def CR_def)
  have ne: "?t \<noteq> []" using assms by simp
  have hd: "hd ?t = 120" using assms by (simp add: hd_replicate)
  have "trim ?t = ?t" using assms by (intro trim_no_ws) (simp_all add: hd_replicate is_ws_def)
  then show "line_record sample_runtime ?t = None"
    using sample_parse_no_brace[OF ne] hd
    by (simp add: line_record_def sample_runtime_def)
qed

subsubsection \<open>The session with a padded name\<close>

lemma padded_session_ascii: "ascii (file_bytes padded_session)"
  by (simp add: padded_session_def ascii_append ascii_LF_Cons sample_lines_ascii ascii_Nil)

lemma padded_session_text:
  "file_text sample_runtime padded_session = js header_line @ LF # js padded_info_line @ [LF]"
  by (simp add: ascii_file_text[OF padded_session_ascii])
     (simp add: padded_session_def js_append js_LF_Cons)

lemma padded_session_lines:
  "split_lines (file_text sample_runtime padded_session)
     = [js header_line, js padded_info_line, []]"
  by (simp add: padded_session_text split_lines_def split_LF_line sample_lines_no_LF
        sample_lines_strip)

lemma padded_session_facts:
  "file_bytes padded_session \<noteq> []"
  "head_first_line sample_runtime padded_session = js header_line"
  "readTail sample_runtime DEFAULT_TAIL_BYTES padded_session
     = file_text sample_runtime padded_session"
proof -
  show "file_bytes padded_session \<noteq> []" by (simp add: padded_session_def)
  show "head_first_line sample_runtime padded_session = js header_line"
    by (rule header_first[of _ "padded_info_line @ [LF_byte]"]) (simp add: padded_session_def)
  show "readTail sample_runtime DEFAULT_TAIL_BYTES padded_session
     = file_text sample_runtime padded_session"
    by (rule readTail_whole)
       (simp add: padded_session_def sample_lines_length DEFAULT_TAIL_BYTES_def)
qed

lemma padded_session_records:
  "file_records sample_runtime padded_session =
     [JObj [(js ''type'', JStr (js ''session'')), (js ''id'', JStr (js ''sess-1'')),
            (js ''cwd'', JStr (js ''/tmp/project''))],
      JObj [(js ''type'', JStr (js ''session_info'')), (js ''name'', JStr (js '' A ''))]]"
  by (simp add: file_records_def records_of_def padded_session_lines List.map_filter_simps
        sample_line_records blank_line_record)

lemma padded_session_title:
  "map_option title (sessionItem sample_runtime padded_session) = Some (Some (js ''A''))"
  using padded_session_records
  by (simp add: sessionItem_title_of[OF padded_session_facts(1,2) header_text_nonempty
          sample_header]
        padded_session_facts Let_def pickTitleFromTail_spec
        file_records_def info_names_def List.map_filter_simps sample_names last_option_def)

subsubsection \<open>The session renamed to a no-break space\<close>

lemma nbsp_session_ascii: "ascii (file_bytes nbsp_session)"
  by (simp add: nbsp_session_def ascii_append ascii_LF_Cons sample_lines_ascii ascii_Nil)

lemma nbsp_session_text:
  "file_text sample_runtime nbsp_session
     = js header_line @ LF # js real_info_line @ LF # js nbsp_info_line @ [LF]"
  by (simp add: ascii_file_text[OF nbsp_session_ascii])
     (simp add: nbsp_session_def js_append js_LF_Cons)

lemma nbsp_session_lines:
  "split_lines (file_text sample_runtime nbsp_session)
     = [js header_line, js real_info_line, js nbsp_info_line, []]"
  by (simp add: nbsp_session_text split_lines_def split_LF_line sample_lines_no_LF
        sample_lines_strip)

lemma nbsp_session_facts:
  "file_bytes nbsp_session \<noteq> []"
  "head_first_line sample_runtime nbsp_session = js header_line"
  "length (file_bytes nbsp_session) \<le> DEFAULT_TAIL_BYTES"
proof -
  show "file_bytes nbsp_session \<noteq> []" by (simp add: nbsp_session_def)
  show "head_first_line sample_runtime nbsp_session = js header_line"
    by (rule header_first[of _ "real_info_line @ [LF_byte] @ nbsp_info_line @ [LF_byte]"])
       (simp add: nbsp_session_def)
  show "length (file_bytes nbsp_session) \<le> DEFAULT_TAIL_BYTES"
    by (simp add: nbsp_session_def sample_lines_length DEFAULT_TAIL_BYTES_def)
qed

lemma nbsp_session_records:
  "file_records sample_runtime nbsp_session =
     [JObj [(js ''type'', JStr (js ''session'')), (js ''id'', JStr (js ''sess-1'')),
            (js ''cwd'', JStr (js ''/tmp/project''))],
      JObj [(js ''type'', JStr (js ''session_info'')), (js ''name'', JStr (js ''Real''))],
      JObj [(js ''type'', JStr (js ''session_info'')), (js ''name'', JStr [0xA0])]]"
  by (simp add: file_records_def records_of_def nbsp_session_lines List.map_filter_simps
        sample_line_records blank_line_record)

subsubsection \<open>The session cut by the tail window\<close>

lemma cut_line_facts:
  "LF \<notin> set (120 # js ghost_line)"
  "strip_CR (120 # js ghost_line) = 120 # js ghost_line"
  "line_record sample_runtime (120 # js ghost_line) = None"
proof -
  let ?t = "120 # js ghost_line"
  have lst: "last (js ghost_line) = 125"
    by (simp add: last_js sample_lines_nonempty sample_lines_last)
  show "LF \<notin> set ?t" using sample_lines_no_LF(6) by (simp add: LF_def)
  show "strip_CR ?t = ?t" by (simp add: strip_CR_def sample_lines_nonempty lst CR_def)
  have "trim ?t = ?t"
    by (rule trim_no_ws) (simp_all add: is_ws_def sample_lines_nonempty lst)
  then show "line_record sample_runtime ?t = None"
    using sample_parse_no_brace[of ?t] by (simp add: line_record_def sample_runtime_def)
qed

lemma cut_session_ascii: "ascii (file_bytes cut_session)"
  by (simp add: cut_session_def ascii_append ascii_LF_Cons ascii_x_Cons sample_lines_ascii
        ascii_filler ascii_Nil)

lemma cut_session_bytes:
  "file_bytes cut_session =
     (header_line @ LF_byte # real_info_line @ LF_byte # [CHR ''x''])
     @ (ghost_line @ LF_byte # replicate 262104 (CHR ''x'') @ [LF_byte])"
  by (simp add: cut_session_def)

lemma cut_session_tail:
  "readTail sample_runtime DEFAULT_TAIL_BYTES cut_session
     = js ghost_line @ LF # replicate 262104 120 @ [LF]"
proof -
  have "drop (length (file_bytes cut_session) - DEFAULT_TAIL_BYTES) (file_bytes cut_session)
          = ghost_line @ LF_byte # replicate 262104 (CHR ''x'') @ [LF_byte]"
    by (simp add: cut_session_bytes sample_lines_length DEFAULT_TAIL_BYTES_def)
  then show ?thesis
    by (simp add: ascii_readTail[OF cut_session_ascii] js_append js_LF_Cons js_filler)
qed

lemma cut_session_tail_records:
  "tail_records sample_runtime cut_session =
     [JObj [(js ''type'', JStr (js ''session_info'')), (js ''name'', JStr (js ''Ghost''))]]"
  by (simp add: tail_records_def cut_session_tail records_of_def split_lines_def split_LF_line
        sample_lines_no_LF filler_line LF_not_x sample_lines_strip List.map_filter_simps
        sample_line_records blank_line_record)

lemma cut_session_head: "head_first_line sample_runtime cut_session = js header_line"
  by (rule header_first[of _ "real_info_line @ LF_byte # CHR ''x'' # ghost_line @ LF_byte
        # replicate 262104 (CHR ''x'') @ [LF_byte]"])
     (simp add: cut_session_def)

lemma cut_session_text:
  "file_text sample_runtime cut_session
     = js header_line @ LF # js real_info_line @ LF # (120 # js ghost_line)
         @ LF # replicate 262104 120 @ [LF]"
  by (simp add: ascii_file_text[OF cut_session_ascii])
     (simp add: cut_session_def js_append js_LF_Cons js_x_Cons js_filler)

lemma cut_session_records:
  "file_records sample_runtime cut_session =
     [JObj [(js ''type'', JStr (js ''session'')), (js ''id'', JStr (js ''sess-1'')),
            (js ''cwd'', JStr (js ''/tmp/project''))],
      JObj [(js ''type'', JStr (js ''session_info'')), (js ''name'', JStr (js ''Real''))]]"
proof -
  have "split_lines (file_text sample_runtime cut_session)
          = [js header_line, js real_info_line, 120 # js ghost_line, replicate 262104 120, []]"
    unfolding cut_session_text
    by (simp add: split_lines_def split_LF_line sample_lines_no_LF filler_line
          cut_line_facts LF_not_x sample_lines_strip)
  then show ?thesis
    by (simp add: file_records_def records_of_def List.map_filter_simps
          sample_line_records blank_line_record filler_line cut_line_facts)
qed

lemma cut_session_title:
  "map_option title (sessionItem sample_runtime cut_session) = Some (Some (js ''Ghost''))"
proof -
  have ne: "file_bytes cut_session \<noteq> []" by (simp add: cut_session_def)
  show ?thesis
    using cut_session_tail_records
    by (simp add: sessionItem_title_of[OF ne cut_session_head header_text_nonempty
            sample_header]
          Let_def pickTitleFromTail_spec tail_records_def
          info_names_def List.map_filter_simps sample_names last_option_def)
qed

subsubsection \<open>The sessions without a name\<close>

lemma unnamed_session_ascii: "ascii (file_bytes unnamed_session)"
  by (simp add: unnamed_session_def ascii_append ascii_LF_Cons sample_lines_ascii ascii_Nil)

lemma unnamed_session_text:
  "file_text sample_runtime unnamed_session = js header_line @ LF # js message_line @ [LF]"
  by (simp add: ascii_file_text[OF unnamed_session_ascii])
     (simp add: unnamed_session_def js_append js_LF_Cons)

lemma unnamed_session_lines:
  "split_lines (file_text sample_runtime unnamed_session)
     = [js header_line, js message_line, []]"
  by (simp add: unnamed_session_text split_lines_def split_LF_line sample_lines_no_LF
        sample_lines_strip)

lemma unnamed_session_facts:
  "file_bytes unnamed_session \<noteq> []"
  "head_first_line sample_runtime unnamed_session = js header_line"
  "readTail sample_runtime DEFAULT_TAIL_BYTES unnamed_session
     = file_text sample_runtime unnamed_session"
  "length (file_bytes unnamed_session) \<le> DEFAULT_TAIL_BYTES"
proof -
  show "file_bytes unnamed_session \<noteq> []" by (simp add: unnamed_session_def)
  show "head_first_line sample_runtime unnamed_session = js header_line"
    by (rule header_first[of _ "message_line @ [LF_byte]"]) (simp add: unnamed_session_def)
  show le: "length (file_bytes unnamed_session) \<le> DEFAULT_TAIL_BYTES"
    by (simp add: unnamed_session_def sample_lines_length DEFAULT_TAIL_BYTES_def)
  show "readTail sample_runtime DEFAULT_TAIL_BYTES unnamed_session
     = file_text sample_runtime unnamed_session"
    by (rule readTail_whole[OF le])
qed

lemma unnamed_session_names: "info_names (file_records sample_runtime unnamed_session) = []"
  by (simp add: file_records_def records_of_def unnamed_session_lines List.map_filter_simps
        sample_line_records blank_line_record info_names_def sample_names)

lemma unnamed_session_title:
  "map_option title (sessionItem sample_runtime unnamed_session) = Some (Some (js ''hi''))"
  using unnamed_session_names
  by (simp add: sessionItem_title_of[OF unnamed_session_facts(1,2) header_text_nonempty
          sample_header]
        unnamed_session_facts Let_def pickTitleFromTail_spec scanSessionInfoNameFromFile_spec
        ascii_chunked_text[OF unnamed_session_ascii]
        ascii_file_text[OF unnamed_session_ascii, symmetric]
        file_records_def last_option_def pickFallbackTitleFromHead_def
        file_text_def[symmetric] unnamed_session_lines
        sample_lines_trim sample_lines_nonempty sample_user_titles)

lemma fallback_stops_after_first_line:
  assumes "length (split_lines (file_text rt f)) > 2000"
    and "split_lines (file_text rt f) = l # rest"
    and "trim l \<noteq> []" and "user_message_title rt (trim l) = None"
  shows "pickFallbackTitleFromHead rt f = None"
  using assms by (simp add: pickFallbackTitleFromHead_def file_text_def Let_def)

lemma long_session_ascii: "ascii (file_bytes long_session)"
  by (simp add: long_session_def ascii_append ascii_LF_Cons sample_lines_ascii ascii_Nil
        ascii_concat_replicate)

lemma long_session_text:
  "file_text sample_runtime long_session
     = js header_line @ LF # concat (replicate 2001 (js message_line @ [LF]))"
  by (simp add: ascii_file_text[OF long_session_ascii])
     (simp add: long_session_def js_append js_LF_Cons concat_replicate_js)

lemma long_session_lines:
  "split_lines (file_text sample_runtime long_session)
     = js header_line # replicate 2001 (js message_line) @ [[]]"
  by (simp add: long_session_text split_lines_def split_LF_line split_LF_repeat
        sample_lines_no_LF sample_lines_strip butlast_append)

lemma long_session_head: "head_first_line sample_runtime long_session = js header_line"
  by (rule header_first[of _ "concat (replicate 2001 (message_line @ [LF_byte]))"])
     (simp add: long_session_def)

lemma long_session_whole_tail:
  "readTail sample_runtime DEFAULT_TAIL_BYTES long_session
     = file_text sample_runtime long_session"
  by (rule readTail_whole)
     (simp add: long_session_def sample_lines_length length_concat_replicate
        DEFAULT_TAIL_BYTES_def)

lemma long_session_names: "info_names (file_records sample_runtime long_session) = []"
  by (simp add: file_records_def records_of_def long_session_lines List.map_filter_simps
        map_filter_append map_filter_replicate sample_line_records blank_line_record
        info_names_def sample_names)

lemma long_session_title:
  "map_option title (sessionItem sample_runtime long_session) = Some None"
proof -
  have ne: "file_bytes long_session \<noteq> []" by (simp add: long_session_def)
  have fb: "pickFallbackTitleFromHead sample_runtime long_session = None"
    by (rule fallback_stops_after_first_line[OF _ long_session_lines])
       (simp_all add: long_session_lines sample_lines_trim sample_lines_nonempty
          sample_user_titles)
  show ?thesis
    using long_session_names
    by (simp add: sessionItem_title_of[OF ne long_session_head header_text_nonempty
            sample_header]
          long_session_whole_tail Let_def pickTitleFromTail_spec
          scanSessionInfoNameFromFile_spec ascii_chunked_text[OF long_session_ascii]
          ascii_file_text[OF long_session_ascii, symmetric]
          file_records_def last_option_def fb)
qed

subsubsection \<open>The session named early\<close>

lemma early_named_session_ascii: "ascii (file_bytes early_named_session)"
  by (simp add: early_named_session_def ascii_append ascii_LF_Cons sample_lines_ascii
        ascii_filler ascii_Nil)

lemma early_named_session_tail:
  "readTail sample_runtime DEFAULT_TAIL_BYTES early_named_session
     = replicate 262143 120 @ [LF]"
proof -
  have "drop (length (file_bytes early_named_session) - DEFAULT_TAIL_BYTES)
          (file_bytes early_named_session)
          = replicate 262143 (CHR ''x'') @ [LF_byte]"
    by (simp add: early_named_session_def sample_lines_length DEFAULT_TAIL_BYTES_def)
  then show ?thesis
    by (simp add: ascii_readTail[OF early_named_session_ascii] js_append js_LF_Cons js_filler)
qed

lemma early_named_session_head:
  "head_first_line sample_runtime early_named_session = js header_line"
  by (rule header_first[of _ "real_info_line @ LF_byte # replicate 262200 (CHR ''x'')
        @ [LF_byte]"])
     (simp add: early_named_session_def)

lemma early_named_session_text:
  "file_text sample_runtime early_named_session
     = js header_line @ LF # js real_info_line @ LF # replicate 262200 120 @ [LF]"
  by (simp add: ascii_file_text[OF early_named_session_ascii])
     (simp add: early_named_session_def js_append js_LF_Cons js_filler)

lemma early_named_session_records:
  "file_records sample_runtime early_named_session =
     [JObj [(js ''type'', JStr (js ''session'')), (js ''id'', JStr (js ''sess-1'')),
            (js ''cwd'', JStr (js ''/tmp/project''))],
      JObj [(js ''type'', JStr (js ''session_info'')), (js ''name'', JStr (js ''Real''))]]"
  by (simp add: file_records_def records_of_def early_named_session_text split_lines_def
        split_LF_line sample_lines_no_LF filler_line LF_not_x sample_lines_strip
        List.map_filter_simps sample_line_records blank_line_record)

lemma early_named_session_tail_lines:
  "split_lines (readTail sample_runtime DEFAULT_TAIL_BYTES early_named_session)
     = [replicate 262143 120, []]"
  by (simp add: early_named_session_tail split_lines_def split_LF_line filler_line LF_not_x)

subsubsection \<open>The session whose name is cut by a chunk boundary\<close>

lemma chunks_full:
  assumes "length c = SCAN_BUF"
  shows "chunks (c @ r) = c # chunks r"
proof -
  have "c @ r \<noteq> []" using assms by (auto simp: SCAN_BUF_def)
  from chunks_step[OF this] show ?thesis using assms by simp
qed

lemma chunks_last:
  assumes "c \<noteq> []" and "length c \<le> SCAN_BUF"
  shows "chunks c = [c]"
  using chunks_step[OF assms(1)] assms(2) by (simp add: chunks_Nil)

lemma sample_decode_bad_Cons:
  "128 \<le> (of_char b :: nat) \<Longrightarrow> (of_char b :: nat) < 194 \<Longrightarrow>
     sample_decode (b # r) = 0xFFFD # sample_decode r"
  by (cases r) simp_all

lemma cafe_text_facts:
  "LF \<notin> set cafe_text"
  "strip_CR cafe_text = cafe_text"
  "line_record sample_runtime cafe_text =
     Some (JObj [(js ''type'', JStr (js ''session_info'')),
                 (js ''name'', JStr (js ''caf'' @ [0xE9]))])"
proof -
  have lst: "last cafe_text = 125"
    by (simp add: cafe_text_def last_js sample_lines_nonempty sample_lines_last)
  have hd: "hd cafe_text = 123"
    by (simp add: cafe_text_def hd_append hd_js sample_lines_nonempty sample_lines_hd)
  have ne: "cafe_text \<noteq> []" by (simp add: cafe_text_def)
  show "LF \<notin> set cafe_text"
    using sample_lines_no_LF(8,9) by (simp add: cafe_text_def LF_def)
  show "strip_CR cafe_text = cafe_text" by (simp add: strip_CR_def lst CR_def)
  have "trim cafe_text = cafe_text"
    by (rule trim_no_ws) (simp_all add: ne hd lst not_ws_codes)
  then show "line_record sample_runtime cafe_text =
     Some (JObj [(js ''type'', JStr (js ''session_info'')),
                 (js ''name'', JStr (js ''caf'' @ [0xE9]))])"
    by (simp add: line_record_def ne sample_runtime_def sample_parse_cafe)
qed

lemma broken_cafe_text_facts:
  "LF \<notin> set broken_cafe_text"
  "strip_CR broken_cafe_text = broken_cafe_text"
  "line_record sample_runtime broken_cafe_text =
     Some (JObj [(js ''type'', JStr (js ''session_info'')),
                 (js ''name'', JStr (js ''caf'' @ [0xFFFD, 0xFFFD]))])"
proof -
  have lst: "last broken_cafe_text = 125"
    by (simp add: broken_cafe_text_def last_js sample_lines_nonempty sample_lines_last)
  have hd: "hd broken_cafe_text = 123"
    by (simp add: broken_cafe_text_def hd_append hd_js sample_lines_nonempty sample_lines_hd)
  have ne: "broken_cafe_text \<noteq> []" by (simp add: broken_cafe_text_def)
  show "LF \<notin> set broken_cafe_text"
    using sample_lines_no_LF(8,9) by (simp add: broken_cafe_text_def LF_def)
  show "strip_CR broken_cafe_text = broken_cafe_text" by (simp add: strip_CR_def lst CR_def)
  have "trim broken_cafe_text = broken_cafe_text"
    by (rule trim_no_ws) (simp_all add: ne hd lst not_ws_codes)
  then show "line_record sample_runtime broken_cafe_text =
     Some (JObj [(js ''type'', JStr (js ''session_info'')),
                 (js ''name'', JStr (js ''caf'' @ [0xFFFD, 0xFFFD]))])"
    by (simp add: line_record_def ne sample_runtime_def sample_parse_cafe)
qed

text \<open>The three chunks of the file, and their bytes taken together.\<close>

lemma straddle_session_chunks:
  "file_bytes straddle_session =
     (header_line @ LF_byte # replicate 262054 (CHR ''x'') @ LF_byte # cafe_head @ [CHR 0xC3])
     @ (CHR 0xA9 # cafe_end @ LF_byte # replicate 262140 (CHR ''x''))
     @ (replicate 60 (CHR ''x'') @ [LF_byte])"
proof -
  have "replicate 262200 (CHR ''x'') = replicate 262140 (CHR ''x'') @ replicate 60 (CHR ''x'')"
    using replicate_add[of 262140 60 "CHR ''x''"] by simp
  then show ?thesis by (simp add: straddle_session_def cafe_line_def)
qed

lemma straddle_session_chunked_text:
  "chunked_text sample_runtime (file_bytes straddle_session)
     = js header_line @ LF # replicate 262054 120 @ LF # broken_cafe_text
         @ LF # replicate 262200 120 @ [LF]"
proof -
  let ?c1 = "header_line @ LF_byte # replicate 262054 (CHR ''x'') @ LF_byte # cafe_head
               @ [CHR 0xC3]"
  let ?c2 = "CHR 0xA9 # cafe_end @ LF_byte # replicate 262140 (CHR ''x'')"
  let ?c3 = "replicate 60 (CHR ''x'') @ [LF_byte]"
  have l1: "length ?c1 = SCAN_BUF" by (simp add: sample_lines_length SCAN_BUF_def)
  have l2: "length ?c2 = SCAN_BUF" by (simp add: sample_lines_length SCAN_BUF_def)
  have l3: "?c3 \<noteq> []" "length ?c3 \<le> SCAN_BUF" by (simp_all add: SCAN_BUF_def)
  have ch: "chunks (file_bytes straddle_session) = [?c1, ?c2, ?c3]"
    unfolding straddle_session_chunks
    by (simp only: chunks_full[OF l1] chunks_full[OF l2] chunks_last[OF l3])
  have a1: "ascii (header_line @ LF_byte # replicate 262054 (CHR ''x'') @ LF_byte # cafe_head)"
    by (simp add: ascii_append ascii_LF_Cons sample_lines_ascii ascii_filler)
  have d1: "sample_decode ?c1
              = js header_line @ LF # replicate 262054 120 @ LF # js cafe_head @ [0xFFFD]"
    using sample_decode_ascii_append[OF a1, of "[CHR 0xC3]"]
    by (simp add: js_append js_LF_Cons js_filler)
  have a2: "ascii (cafe_end @ LF_byte # replicate 262140 (CHR ''x''))"
    by (simp add: ascii_append ascii_LF_Cons sample_lines_ascii ascii_filler)
  have d2: "sample_decode ?c2 = 0xFFFD # js cafe_end @ LF # replicate 262140 120"
    by (simp add: sample_decode_bad_Cons sample_decode_ascii[OF a2] js_append js_LF_Cons
          js_filler)
  have a3: "ascii ?c3" by (simp add: ascii_append ascii_LF_Cons ascii_filler ascii_Nil)
  have d3: "sample_decode ?c3 = replicate 60 120 @ [LF]"
    by (simp add: sample_decode_ascii[OF a3] js_append js_LF_Cons js_filler)
  have r: "replicate 262140 (120::nat) @ replicate 60 120 = replicate 262200 120"
    using replicate_add[of 262140 60 "120::nat"] by simp
  have "chunked_text sample_runtime (file_bytes straddle_session)
          = sample_decode ?c1 @ sample_decode ?c2 @ sample_decode ?c3"
    by (simp add: chunked_text_def ch utf8_decode_sample)
  also have "\<dots> = js header_line @ LF # replicate 262054 120 @ LF # broken_cafe_text
         @ LF # (replicate 262140 120 @ replicate 60 120) @ [LF]"
    unfolding d1 d2 d3 by (simp add: broken_cafe_text_def)
  finally show ?thesis unfolding r .
qed

lemma straddle_session_text:
  "file_text sample_runtime straddle_session
     = js header_line @ LF # replicate 262054 120 @ LF # cafe_text
         @ LF # replicate 262200 120 @ [LF]"
proof -
  let ?a = "header_line @ LF_byte # replicate 262054 (CHR ''x'') @ LF_byte # cafe_head"
  let ?b = "cafe_end @ LF_byte # replicate 262200 (CHR ''x'') @ [LF_byte]"
  have fb: "file_bytes straddle_session = ?a @ CHR 0xC3 # CHR 0xA9 # ?b"
    by (simp add: straddle_session_def cafe_line_def)
  have a: "ascii ?a"
    by (simp add: ascii_append ascii_LF_Cons sample_lines_ascii ascii_filler)
  have b: "ascii ?b"
    by (simp add: ascii_append ascii_LF_Cons sample_lines_ascii ascii_filler ascii_Nil)
  have "sample_decode (CHR 0xC3 # CHR 0xA9 # ?b) = 0xE9 # js ?b"
    by (simp add: sample_decode_ascii[OF b])
  then have "sample_decode (file_bytes straddle_session) = js ?a @ 0xE9 # js ?b"
    unfolding fb by (simp only: sample_decode_ascii_append[OF a])
  then show ?thesis
    by (simp add: file_text_def utf8_decode_sample js_append js_LF_Cons js_filler
          cafe_text_def)
qed

lemma straddle_session_records:
  "records_of sample_runtime (chunked_text sample_runtime (file_bytes straddle_session)) =
     [JObj [(js ''type'', JStr (js ''session'')), (js ''id'', JStr (js ''sess-1'')),
            (js ''cwd'', JStr (js ''/tmp/project''))],
      JObj [(js ''type'', JStr (js ''session_info'')),
            (js ''name'', JStr (js ''caf'' @ [0xFFFD, 0xFFFD]))]]"
  "file_records sample_runtime straddle_session =
     [JObj [(js ''type'', JStr (js ''session'')), (js ''id'', JStr (js ''sess-1'')),
            (js ''cwd'', JStr (js ''/tmp/project''))],
      JObj [(js ''type'', JStr (js ''session_info'')),
            (js ''name'', JStr (js ''caf'' @ [0xE9]))]]"
proof -
  have "split_lines (chunked_text sample_runtime (file_bytes straddle_session))
          = [js header_line, replicate 262054 120, broken_cafe_text, replicate 262200 120, []]"
    unfolding straddle_session_chunked_text
    by (simp add: split_lines_def split_LF_line sample_lines_no_LF filler_line
          broken_cafe_text_facts LF_not_x sample_lines_strip)
  then show "records_of sample_runtime
               (chunked_text sample_runtime (file_bytes straddle_session)) =
     [JObj [(js ''type'', JStr (js ''session'')), (js ''id'', JStr (js ''sess-1'')),
            (js ''cwd'', JStr (js ''/tmp/project''))],
      JObj [(js ''type'', JStr (js ''session_info'')),
            (js ''name'', JStr (js ''caf'' @ [0xFFFD, 0xFFFD]))]]"
    by (simp add: records_of_def List.map_filter_simps sample_line_records
          blank_line_record filler_line broken_cafe_text_facts)
  have "split_lines (file_text sample_runtime straddle_session)
          = [js header_line, replicate 262054 120, cafe_text, replicate 262200 120, []]"
    unfolding straddle_session_text
    by (simp add: split_lines_def split_LF_line sample_lines_no_LF filler_line
          cafe_text_facts LF_not_x sample_lines_strip)
  then show "file_records sample_runtime straddle_session =
     [JObj [(js ''type'', JStr (js ''session'')), (js ''id'', JStr (js ''sess-1'')),
            (js ''cwd'', JStr (js ''/tmp/project''))],
      JObj [(js ''type'', JStr (js ''session_info'')),
            (js ''name'', JStr (js ''caf'' @ [0xE9]))]]"
    by (simp add: file_records_def records_of_def List.map_filter_simps sample_line_records
          blank_line_record filler_line cafe_text_facts)
qed

lemma straddle_session_tail:
  "readTail sample_runtime DEFAULT_TAIL_BYTES straddle_session = replicate 262143 120 @ [LF]"
proof -
  have r: "replicate 262200 (CHR ''x'') = replicate 57 (CHR ''x'') @ replicate 262143 (CHR ''x'')"
    using replicate_add[of 57 262143 "CHR ''x''"] by simp
  have fb: "file_bytes straddle_session =
          (header_line @ LF_byte # replicate 262054 (CHR ''x'') @ LF_byte # cafe_line
             @ LF_byte # replicate 57 (CHR ''x''))
          @ (replicate 262143 (CHR ''x'') @ [LF_byte])"
    by (simp add: straddle_session_def r)
  have "drop (length (file_bytes straddle_session) - DEFAULT_TAIL_BYTES)
          (file_bytes straddle_session)
          = replicate 262143 (CHR ''x'') @ [LF_byte]"
    unfolding fb by (simp add: sample_lines_length DEFAULT_TAIL_BYTES_def)
  moreover have "ascii (replicate 262143 (CHR ''x'') @ [LF_byte])"
    by (simp add: ascii_append ascii_LF_Cons ascii_filler ascii_Nil)
  ultimately show ?thesis
    by (simp add: readTail_drop utf8_decode_sample sample_decode_ascii js_append js_LF_Cons
          js_filler)
qed

lemma straddle_session_tail_names:
  "info_names (tail_records sample_runtime straddle_session) = []"
  by (simp add: tail_records_def records_of_def straddle_session_tail split_lines_def
        split_LF_line filler_line LF_not_x List.map_filter_simps blank_line_record
        info_names_def)

lemma straddle_session_head:
  "head_first_line sample_runtime straddle_session = js header_line"
  by (rule header_first[of _ "replicate 262054 (CHR ''x'') @ LF_byte # cafe_line
        @ LF_byte # replicate 262200 (CHR ''x'') @ [LF_byte]"])
     (simp add: straddle_session_def)

lemma straddle_session_title:
  "map_option title (sessionItem sample_runtime straddle_session)
     = Some (Some (js ''caf'' @ [0xFFFD, 0xFFFD]))"
proof -
  have ne: "file_bytes straddle_session \<noteq> []" by (simp add: straddle_session_def)
  show ?thesis
    using straddle_session_tail_names
    by (simp add: sessionItem_title_of[OF ne straddle_session_head header_text_nonempty
            sample_header]
          Let_def pickTitleFromTail_spec tail_records_def scanSessionInfoNameFromFile_spec
          straddle_session_records info_names_def List.map_filter_simps sample_names
          last_option_def)
qed

subsection \<open>Session headers\<close>

text \<open>
  Claim C5: every entry of the listing comes from one of the files, carries the path
  of that file, and the first line of that file inside the head window of 64KB parses
  as a JSON object of type \<^verbatim>\<open>'session'\<close>; a file whose first line does not parse so gets
  no entry.
\<close>

theorem listed_sessions_have_header:
  "(it \<in> set (listPiSessions rt files) \<longrightarrow>
      (\<exists>f\<in>set files. sessionItem rt f = Some it \<and> sessionFile it = file_path f
                       \<and> session_header_line rt f))
   \<and> (\<not> session_header_line rt f \<longrightarrow> sessionItem rt f = None)"
proof (intro conjI impI)
  assume "it \<in> set (listPiSessions rt files)"
  then obtain g where "g \<in> set files" "sessionItem rt g = Some it"
    by (auto simp: set_listPiSessions)
  then show "\<exists>f\<in>set files. sessionItem rt f = Some it \<and> sessionFile it = file_path f
                       \<and> session_header_line rt f"
    using sessionItem_header by blast
next
  assume "\<not> session_header_line rt f"
  then show "sessionItem rt f = None"
    using sessionItem_header[of rt f] by (cases "sessionItem rt f") auto
qed

theorem listed_sessions_have_header_witness:
  "sample_item \<in> set (listPiSessions sample_runtime [sample_session, not_a_session])
   \<and> session_header_line sample_runtime sample_session
   \<and> \<not> session_header_line sample_runtime not_a_session
   \<and> sessionItem sample_runtime not_a_session = None"
proof -
  have mem: "sample_item \<in> set (listPiSessions sample_runtime [sample_session, not_a_session])"
    by (simp add: set_listPiSessions sample_session_item)
  have "head_first_line sample_runtime not_a_session = trim (js ''hello'')"
    by (rule sample_head_line[of _ _ "[]"])
       (simp_all add: not_a_session_def ascii_def LF_byte_def DEFAULT_HEAD_BYTES_def)
  moreover have "trim (js ''hello'') = js ''hello''"
    by (simp add: trim_def is_ws_def js_def)
  ultimately have hd: "head_first_line sample_runtime not_a_session = js ''hello''" by simp
  have "JSON_parse sample_runtime (js ''hello'') = None"
    using sample_parse_no_brace[of "js ''hello''"] by (simp add: sample_runtime_def hd_js)
  then have bad: "\<not> session_header_line sample_runtime not_a_session"
    by (simp add: session_header_line_def hd)
  from listed_sessions_have_header
         [of sample_item sample_runtime "[sample_session, not_a_session]" not_a_session]
       mem bad
  show ?thesis by auto
qed

subsection \<open>Last activity\<close>

text \<open>
  Claim C2, for a runtime whose \<^verbatim>\<open>toISOString\<close> never gives the empty string: the
  \<^verbatim>\<open>updatedAt\<close> of the entry of a listed file is the instant, written by \<^verbatim>\<open>toISOString\<close>,
  of the last \<^verbatim>\<open>message\<close> record of the tail window whose timestamp is a string that
  \<^verbatim>\<open>Date\<close> reads, whatever the records after it hold; when no message record has one,
  of the last record of the tail window that has one; and when no record has one, the
  modification time of the file.
\<close>

theorem updatedAt_prefers_last_message:
  assumes "\<And>t. toISOString rt t \<noteq> []"
    and "f \<in> set files" and "sessionItem rt f = Some it"
  shows "it \<in> set (listPiSessions rt files) \<and> updatedAt it = Some (spec_updatedAt rt f)"
proof
  show "it \<in> set (listPiSessions rt files)"
    using assms(2,3) by (auto simp: set_listPiSessions)
  show "updatedAt it = Some (spec_updatedAt rt f)"
    using assms(1)
    by (simp add: sessionItem_updatedAt[OF assms(3)] pickUpdatedAtFromTail_spec
          spec_updatedAt_def tail_records_def Let_def)
qed

theorem updatedAt_prefers_last_message_witness:
  "sessionItem sample_runtime sample_session = Some sample_item
   \<and> sample_item \<in> set (listPiSessions sample_runtime [sample_session])
   \<and> updatedAt sample_item = Some (spec_updatedAt sample_runtime sample_session)
   \<and> spec_updatedAt sample_runtime sample_session = js ''2026-01-01T00:00:02.000Z''"
proof -
  have iso: "\<And>t. toISOString sample_runtime t \<noteq> []"
    by (simp add: sample_runtime_def sample_iso_def)
  have mem: "sample_session \<in> set [sample_session]" by simp
  from updatedAt_prefers_last_message[OF iso mem sample_session_item]
  have a: "sample_item \<in> set (listPiSessions sample_runtime [sample_session])"
    and b: "updatedAt sample_item = Some (spec_updatedAt sample_runtime sample_session)"
    by simp_all
  have c: "updatedAt sample_item = Some (js ''2026-01-01T00:00:02.000Z'')"
    by (simp add: sample_item_def)
  from b c have d: "spec_updatedAt sample_runtime sample_session
                      = js ''2026-01-01T00:00:02.000Z''"
    by simp
  from sample_session_item a b d show ?thesis by (intro conjI)
qed

subsection \<open>Titles\<close>

text \<open>
  Claim C3 says that the title is the name of the last \<^verbatim>\<open>session_info\<close> record with a
  non-empty name. It is not, in three ways. The code trims the name: for the record with
  the name \<^verbatim>\<open>" A "\<close> the title is \<^verbatim>\<open>"A"\<close>. The first line of the tail window may be the
  rest of a line that the window cut: in the second file the only rename record of the
  file has the name \<^verbatim>\<open>Real\<close>, and the title is \<^verbatim>\<open>Ghost\<close>, read from the rest of a line that
  is no record. And the full scan decodes every chunk of 256KB by itself: in the third
  file the name of the only rename record is \<^verbatim>\<open>caf\<close> followed by U+00E9, whose two bytes lie
  on either side of the end of the first chunk, and the title is \<^verbatim>\<open>caf\<close> followed by U+FFFD
  twice.
\<close>

theorem title_padded_or_cut_counterexample:
  "map_option title (sessionItem sample_runtime padded_session) = Some (Some (js ''A''))
   \<and> List.map_filter raw_info_name (file_records sample_runtime padded_session)
       = [js '' A '']
   \<and> map_option title (sessionItem sample_runtime cut_session) = Some (Some (js ''Ghost''))
   \<and> List.map_filter raw_info_name (file_records sample_runtime cut_session)
       = [js ''Real'']
   \<and> map_option title (sessionItem sample_runtime straddle_session)
       = Some (Some (js ''caf'' @ [0xFFFD, 0xFFFD]))
   \<and> List.map_filter raw_info_name (file_records sample_runtime straddle_session)
       = [js ''caf'' @ [0xE9]]"
  by (simp add: padded_session_title cut_session_title straddle_session_title
        padded_session_records cut_session_records straddle_session_records
        List.map_filter_simps raw_info_name_def)

text \<open>
  Claim C3 as amended: when the file of a listing entry holds a \<^verbatim>\<open>session_info\<close> record
  whose name is not blank, the title is the trimmed name of the last such record of the
  file, wherever in the file it lies (inside the tail window or before it), provided
  that neither the start of the tail window nor the end of a chunk of 256KB cuts a
  character in two, and that the tail window starts at the start of a line or its first
  line does not by itself parse as such a record.
\<close>

theorem title_is_last_session_info_name:
  assumes "f \<in> set files" and "sessionItem rt f = Some it"
    and "info_names (file_records rt f) \<noteq> []"
    and "tail_cut_clean rt f" and "chunks_clean rt f"
    and "tail_starts_line rt f
         \<or> line_name rt (hd (split_lines (readTail rt DEFAULT_TAIL_BYTES f))) = None"
  shows "it \<in> set (listPiSessions rt files)
         \<and> title it = Some (last (info_names (file_records rt f)))"
proof
  show "it \<in> set (listPiSessions rt files)"
    using assms(1,2) by (auto simp: set_listPiSessions)
  show "title it = Some (last (info_names (file_records rt f)))"
  proof (cases "info_names (tail_records rt f) = []")
    case True
    have "scanSessionInfoNameFromFile rt f = last_option (info_names (file_records rt f))"
      using assms(5)
      by (simp add: scanSessionInfoNameFromFile_spec chunks_clean_def file_records_def)
    then show ?thesis using assms(3) True
      by (simp add: sessionItem_title[OF assms(2)] Let_def pickTitleFromTail_spec
            truthy_last_option_names tail_records_def[symmetric])
         (simp add: last_option_def)
  next
    case False
    from tail_names_last[OF assms(4,6) False] False show ?thesis
      by (simp add: sessionItem_title[OF assms(2)] Let_def pickTitleFromTail_spec
            truthy_last_option_names tail_records_def[symmetric])
         (simp add: last_option_def)
  qed
qed

theorem title_is_last_session_info_name_witness:
  "title (the (sessionItem sample_runtime early_named_session)) = Some (js ''Real'')
   \<and> DEFAULT_TAIL_BYTES < length (file_bytes early_named_session)
   \<and> info_names (tail_records sample_runtime early_named_session) = []
   \<and> info_names (file_records sample_runtime early_named_session) = [js ''Real'']
   \<and> title (the (sessionItem sample_runtime nbsp_session)) = Some (js ''Real'')
   \<and> List.map_filter raw_info_name (file_records sample_runtime nbsp_session)
       = [js ''Real'', [0xA0]]
   \<and> info_names (file_records sample_runtime nbsp_session) = [js ''Real'']"
proof -
  have ne: "file_bytes early_named_session \<noteq> []" by (simp add: early_named_session_def)
  from sessionItem_some[OF ne early_named_session_head header_text_nonempty sample_header]
  obtain it where it: "sessionItem sample_runtime early_named_session = Some it" by blast
  have mem: "early_named_session \<in> set [early_named_session]" by simp
  have names: "info_names (file_records sample_runtime early_named_session) = [js ''Real'']"
    by (simp add: early_named_session_records info_names_def List.map_filter_simps sample_names)
  have nn: "info_names (file_records sample_runtime early_named_session) \<noteq> []"
    by (simp add: names)
  have cut: "line_name sample_runtime
               (hd (split_lines (readTail sample_runtime DEFAULT_TAIL_BYTES
                  early_named_session))) = None"
    by (simp add: early_named_session_tail_lines line_name_def filler_line)
  have tn: "info_names (tail_records sample_runtime early_named_session) = []"
    by (simp add: tail_records_def records_of_def early_named_session_tail_lines
          List.map_filter_simps filler_line blank_line_record info_names_def)
  have big: "DEFAULT_TAIL_BYTES < length (file_bytes early_named_session)"
    by (simp add: early_named_session_def sample_lines_length DEFAULT_TAIL_BYTES_def)
  from title_is_last_session_info_name
         [OF mem it nn ascii_tail_cut_clean[OF early_named_session_ascii]
             ascii_chunks_clean[OF early_named_session_ascii] disjI2[OF cut]]
  have a: "title (the (sessionItem sample_runtime early_named_session)) = Some (js ''Real'')"
    by (simp add: it names)
  from sessionItem_some[OF nbsp_session_facts(1,2) header_text_nonempty sample_header]
  obtain it' where it': "sessionItem sample_runtime nbsp_session = Some it'" by blast
  have mem': "nbsp_session \<in> set [nbsp_session]" by simp
  have names': "info_names (file_records sample_runtime nbsp_session) = [js ''Real'']"
    by (simp add: nbsp_session_records info_names_def List.map_filter_simps sample_names)
  have nn': "info_names (file_records sample_runtime nbsp_session) \<noteq> []"
    by (simp add: names')
  have raw: "List.map_filter raw_info_name (file_records sample_runtime nbsp_session)
               = [js ''Real'', [0xA0]]"
    by (simp add: nbsp_session_records List.map_filter_simps raw_info_name_def)
  have al: "tail_starts_line sample_runtime nbsp_session"
    by (simp add: tail_starts_line_def before_tail_def nbsp_session_facts)
  from title_is_last_session_info_name
         [OF mem' it' nn' ascii_tail_cut_clean[OF nbsp_session_ascii]
             ascii_chunks_clean[OF nbsp_session_ascii] disjI1[OF al]]
  have b: "title (the (sessionItem sample_runtime nbsp_session)) = Some (js ''Real'')"
    by (simp add: it' names')
  from a big tn names b raw names' show ?thesis by (intro conjI)
qed

subsection \<open>Fallback title\<close>

text \<open>
  Claim C4 says that a session without a name gets the text of its first user message
  as its title when that message is within the first 2000 lines. The short session
  does. The long session has 2003 lines, no name, and the user message \<^verbatim>\<open>hi\<close> on its
  second line; its title is none: the scan tests the number of lines of the whole file
  at the end of its first turn, and stops after the header.
\<close>

theorem long_session_loses_fallback_title:
  "map_option title (sessionItem sample_runtime long_session) = Some None
   \<and> length (split_lines (file_text sample_runtime long_session)) = 2003
   \<and> split_lines (file_text sample_runtime long_session) ! 1 = js message_line
   \<and> user_message_title sample_runtime (js message_line) = Some (js ''hi'')
   \<and> info_names (file_records sample_runtime long_session) = []
   \<and> map_option title (sessionItem sample_runtime unnamed_session) = Some (Some (js ''hi''))"
  by (simp add: long_session_title long_session_lines long_session_names
        unnamed_session_title sample_user_titles nth_append)

text \<open>
  What the fallback does by design, for a file of at most 2000 lines without a name
  (and a tail window and chunks as in the amended claim C3): the title is the text of
  the first user message that has one, cut to 80 code units.
\<close>

lemma head_scan_short:
  "nlines \<le> 2000 \<Longrightarrow> head_scan rt nlines ls = first_user_title rt ls"
  by (induction ls) (simp_all add: Let_def split: option.splits)

lemma user_message_title_length: "user_message_title rt l = Some t \<Longrightarrow> length t \<le> 80"
  by (auto simp: user_message_title_def split: option.splits if_splits json.splits)

lemma first_user_title_length: "first_user_title rt ls = Some t \<Longrightarrow> length t \<le> 80"
  by (induction ls) (auto simp: user_message_title_length split: if_splits option.splits)

theorem fallback_title_of_short_file:
  assumes "sessionItem rt f = Some it"
    and "info_names (file_records rt f) = []"
    and "length (split_lines (file_text rt f)) \<le> 2000"
    and "tail_cut_clean rt f" and "chunks_clean rt f"
    and "tail_starts_line rt f
         \<or> line_name rt (hd (split_lines (readTail rt DEFAULT_TAIL_BYTES f))) = None"
  shows "title it = first_user_title rt (split_lines (file_text rt f))
         \<and> (case title it of None \<Rightarrow> True | Some t \<Rightarrow> length t \<le> 80)"
proof -
  have tn: "info_names (tail_records rt f) = []"
    using tail_names_last[OF assms(4,6)] assms(2) by blast
  have sc: "scanSessionInfoNameFromFile rt f = None"
    using assms(2,5)
    by (simp add: scanSessionInfoNameFromFile_spec chunks_clean_def file_records_def
          last_option_def)
  have t: "title it = first_user_title rt (split_lines (file_text rt f))"
    using assms(3) tn
    by (simp add: sessionItem_title[OF assms(1)] Let_def pickTitleFromTail_spec sc
          tail_records_def[symmetric] last_option_def pickFallbackTitleFromHead_def
          file_text_def[symmetric] head_scan_short)
  show ?thesis
    using first_user_title_length[of rt "split_lines (file_text rt f)"]
    by (simp add: t split: option.splits)
qed

theorem fallback_title_of_short_file_witness:
  "title (the (sessionItem sample_runtime unnamed_session)) = Some (js ''hi'')
   \<and> first_user_title sample_runtime (split_lines (file_text sample_runtime unnamed_session))
       = Some (js ''hi'')
   \<and> info_names (file_records sample_runtime unnamed_session) = []"
proof -
  from sessionItem_some[OF unnamed_session_facts(1,2) header_text_nonempty sample_header]
  obtain it where it: "sessionItem sample_runtime unnamed_session = Some it" by blast
  have len: "length (split_lines (file_text sample_runtime unnamed_session)) \<le> 2000"
    by (simp add: unnamed_session_lines)
  have al: "tail_starts_line sample_runtime unnamed_session"
    by (simp add: tail_starts_line_def before_tail_def unnamed_session_facts)
  have fu: "first_user_title sample_runtime
              (split_lines (file_text sample_runtime unnamed_session)) = Some (js ''hi'')"
    by (simp add: unnamed_session_lines sample_lines_trim sample_lines_nonempty
          sample_user_titles)
  from fallback_title_of_short_file
         [OF it unnamed_session_names len ascii_tail_cut_clean[OF unnamed_session_ascii]
             ascii_chunks_clean[OF unnamed_session_ascii] disjI1[OF al]] fu
  show ?thesis by (simp add: it unnamed_session_names)
qed

end
